theory Spec2Isabelle
  imports Complex_Main "HOL-Library.Multiset"
begin

section \<open>Data model (types.ts)\<close>

datatype TabGroupColor = Grey | Blue | Red | Yellow | Green | Pink | Purple | Cyan

text \<open>
  The interface \<^verbatim>\<open>Tab\<close>. The fields \<^verbatim>\<open>pinned\<close> and \<^verbatim>\<open>active\<close> are optional in the source
  (\<^verbatim>\<open>pinned?: boolean\<close>), so they are options here; a test \<^verbatim>\<open>!tab.pinned\<close> holds for
  \<open>None\<close> and for \<open>Some False\<close>.
\<close>

record Tab =
  tab_id :: int
  tab_url :: string
  tab_title :: string
  tab_favIconUrl :: string
  tab_suspended :: bool
  tab_pinned :: "bool option"
  tab_active :: "bool option"

record TabGroup =
  tg_id :: string
  tg_chromeGroupId :: int
  tg_name :: string
  tg_color :: TabGroupColor
  tg_tabs :: "Tab list"
  tg_collapsed :: bool
  tg_createdAt :: int

record Session =
  ses_id :: string
  ses_name :: string
  ses_groups :: "TabGroup list"
  ses_createdAt :: int
  ses_tabCount :: int

text \<open>
  \<^verbatim>\<open>Settings\<close>. The declared interface has no \<^verbatim>\<open>autoGroupThreshold\<close>, and
  \<^verbatim>\<open>DEFAULT_SETTINGS\<close> as declared has none either, but the service worker and the options
  page read \<^verbatim>\<open>settings.autoGroupThreshold || 3\<close>: the field is an option, \<open>None\<close> when the
  stored object lacks the key. The key \<^verbatim>\<open>autoGroupByDomain\<close> is \<open>autoGroupByDomain_setting\<close>
  here, the plain name being the function's.
\<close>

record Settings =
  viewOneGroupAtATime :: bool
  autoSaveEnabled :: bool
  autoSaveInterval :: int
  autoGroupByDomain_setting :: bool
  autoGroupThreshold :: "int option"
  suspensionTimeout :: int
  suspensionWhitelist :: "string list"
  showTabCountBadge :: bool
  maxSessions :: int
  showUngroupedTabs :: bool

definition DEFAULT_SETTINGS :: Settings where
  "DEFAULT_SETTINGS =
     \<lparr> viewOneGroupAtATime = True,
       autoSaveEnabled = True,
       autoSaveInterval = 30,
       autoGroupByDomain_setting = False,
       autoGroupThreshold = None,
       suspensionTimeout = 30,
       suspensionWhitelist = [],
       showTabCountBadge = True,
       maxSessions = 20,
       showUngroupedTabs = True \<rparr>"

section \<open>The tab provider (chrome.tabs, chrome.tabGroups)\<close>

text \<open>
  What the code reads of a \<^verbatim>\<open>chrome.tabs.Tab\<close> and of a \<^verbatim>\<open>chrome.tabGroups.TabGroup\<close>.
  \<^verbatim>\<open>url\<close>, \<^verbatim>\<open>title\<close> and \<^verbatim>\<open>favIconUrl\<close> may be absent. Tabs returned by a window query
  carry an id, so \<^verbatim>\<open>!tab.id\<close> is the test \<open>ct_id t = 0\<close>.
\<close>

record ChromeTab =
  ct_id :: int
  ct_url :: "string option"
  ct_title :: "string option"
  ct_favIconUrl :: "string option"
  ct_pinned :: bool
  ct_active :: bool
  ct_groupId :: int

record ChromeGroup =
  cg_id :: int
  cg_title :: "string option"
  cg_color :: TabGroupColor
  cg_collapsed :: bool

definition TAB_GROUP_ID_NONE :: int where
  "TAB_GROUP_ID_NONE = - 1"

section \<open>JavaScript helpers\<close>

definition strOr :: "string option \<Rightarrow> string \<Rightarrow> string" where
  \<comment> \<open>\<^verbatim>\<open>s || d\<close> on a possibly absent string: absent and empty are both falsy\<close>
  "strOr s d = (case s of None \<Rightarrow> d | Some v \<Rightarrow> if v = [] then d else v)"

definition mapGetOrEmpty :: "('k \<rightharpoonup> 'v list) \<Rightarrow> 'k \<Rightarrow> 'v list" where
  \<comment> \<open>\<^verbatim>\<open>map.get(k) || []\<close>: an array is always truthy, so only a missing key gives \<^verbatim>\<open>[]\<close>\<close>
  "mapGetOrEmpty m k = (case m k of None \<Rightarrow> [] | Some vs \<Rightarrow> vs)"

definition digitChar :: "nat \<Rightarrow> char" where
  "digitChar d = char_of (48 + d)"

fun natToString :: "nat \<Rightarrow> string" where
  "natToString n =
     (if n < 10 then [digitChar n] else natToString (n div 10) @ [digitChar (n mod 10)])"

declare natToString.simps [simp del]

definition numberToString :: "int \<Rightarrow> string" where
  \<comment> \<open>the decimal rendering of an integer number, as in a template literal\<close>
  "numberToString i = (if i < 0 then CHR ''-'' # natToString (nat (- i)) else natToString (nat i))"

section \<open>Snapshot builder: the pure part of getTabGroups\<close>

definition tabData :: "ChromeTab \<Rightarrow> Tab" where
  "tabData tab =
     \<lparr> tab_id = ct_id tab,
       tab_url = strOr (ct_url tab) [],
       tab_title = strOr (ct_title tab) ''Untitled'',
       tab_favIconUrl = strOr (ct_favIconUrl tab) [],
       tab_suspended = False,
       tab_pinned = Some (ct_pinned tab),
       tab_active = Some (ct_active tab) \<rparr>"

definition hasGroup :: "ChromeTab \<Rightarrow> bool" where
  \<comment> \<open>\<^verbatim>\<open>tab.groupId && tab.groupId !== chrome.tabGroups.TAB_GROUP_ID_NONE\<close>\<close>
  "hasGroup tab \<longleftrightarrow> ct_groupId tab \<noteq> 0 \<and> ct_groupId tab \<noteq> TAB_GROUP_ID_NONE"

text \<open>
  The first loop: \<open>groupMap\<close> is the \<^verbatim>\<open>Map<number, Tab[]>\<close> (only looked up by key, so a
  map), \<open>ungroupedTabs\<close> the array; \<^verbatim>\<open>push\<close> appends.
\<close>

definition organizeTab ::
  "(int \<rightharpoonup> Tab list) \<times> Tab list \<Rightarrow> ChromeTab \<Rightarrow> (int \<rightharpoonup> Tab list) \<times> Tab list" where
  "organizeTab acc tab =
     (let groupMap = fst acc; ungroupedTabs = snd acc in
      if hasGroup tab then
        (let existing = mapGetOrEmpty groupMap (ct_groupId tab)
         in (groupMap(ct_groupId tab \<mapsto> existing @ [tabData tab]), ungroupedTabs))
      else (groupMap, ungroupedTabs @ [tabData tab]))"

definition organizeTabs :: "ChromeTab list \<Rightarrow> (int \<rightharpoonup> Tab list) \<times> Tab list" where
  "organizeTabs tabs = foldl organizeTab (Map.empty, []) tabs"

definition chromeTabGroup :: "int \<Rightarrow> (int \<rightharpoonup> Tab list) \<Rightarrow> ChromeGroup \<Rightarrow> TabGroup" where
  \<comment> \<open>the body of the second loop; \<open>now\<close> is \<^verbatim>\<open>Date.now()\<close>\<close>
  "chromeTabGroup now groupMap chromeGroup =
     \<lparr> tg_id = ''chrome-'' @ numberToString (cg_id chromeGroup),
       tg_chromeGroupId = cg_id chromeGroup,
       tg_name = strOr (cg_title chromeGroup) ''Unnamed Group'',
       tg_color = cg_color chromeGroup,
       tg_tabs = mapGetOrEmpty groupMap (cg_id chromeGroup),
       tg_collapsed = cg_collapsed chromeGroup,
       tg_createdAt = now \<rparr>"

definition ungroupedGroup :: "Tab list \<Rightarrow> TabGroup" where
  "ungroupedGroup ungroupedTabs =
     \<lparr> tg_id = ''ungrouped'',
       tg_chromeGroupId = - 1,
       tg_name = ''Ungrouped'',
       tg_color = Grey,
       tg_tabs = ungroupedTabs,
       tg_collapsed = False,
       tg_createdAt = 0 \<rparr>"

definition buildGroups :: "int \<Rightarrow> ChromeTab list \<Rightarrow> ChromeGroup list \<Rightarrow> TabGroup list" where
  \<comment> \<open>\<^verbatim>\<open>getTabGroups\<close> from the two query results to the returned array\<close>
  "buildGroups now tabs chromeGroups =
     (let acc = organizeTabs tabs; groupMap = fst acc; ungroupedTabs = snd acc;
          groups = map (chromeTabGroup now groupMap) chromeGroups
      in if length ungroupedTabs > 0 then groups @ [ungroupedGroup ungroupedTabs] else groups)"

section \<open>Process state, failures and sequencing\<close>

text \<open>
  A thrown JavaScript error, with its message. \<open>Error\<close> is a \<^verbatim>\<open>new Error(...)\<close> of the
  code, \<open>ProviderError\<close> a rejected \<^verbatim>\<open>chrome.*\<close> call, \<open>RangeError\<close> the error of an
  invalid array length.
\<close>

datatype error = Error string | ProviderError string | RangeError string

fun errorMessage :: "error \<Rightarrow> string" where
  "errorMessage (Error m) = m"
| "errorMessage (ProviderError m) = m"
| "errorMessage (RangeError m) = m"

text \<open>
  The content of \<^verbatim>\<open>chrome.storage.local\<close>: every top-level key may be absent. For
  \<^verbatim>\<open>activeGroupId\<close> an absent key and a stored \<^verbatim>\<open>null\<close> read alike (\<^verbatim>\<open>data[key] ?? default\<close>
  with default \<^verbatim>\<open>null\<close>), so both are \<open>None\<close>.
\<close>

record StorageData =
  sd_groups :: "TabGroup list option"
  sd_sessions :: "Session list option"
  sd_settings :: "Settings option"
  sd_activeGroupId :: "string option"
  sd_lastSaveTime :: "int option"

record SuspendedInfo =
  si_originalUrl :: string
  si_title :: string
  si_favicon :: string

text \<open>
  The state the service worker reads and writes: the provider's tabs and tab groups of the
  current window, its alarms and badge, the local store, and the module-level variables.
  \<open>DEFAULT_sessions\<close> is the array \<^verbatim>\<open>DEFAULT_STORAGE_DATA.sessions\<close>: \<^verbatim>\<open>storage.get\<close> hands
  out this very array when the key is absent, and \<^verbatim>\<open>saveSession\<close> mutates what it got.
\<close>

record State =
  chrome_tabs :: "ChromeTab list"
  chrome_tabGroups :: "ChromeGroup list"
  chrome_alarms :: "string \<rightharpoonup> rat"
  chrome_badgeText :: string
  chrome_badgeColor :: string
  chrome_storage :: StorageData
  DEFAULT_sessions :: "Session list"
  cachedGroups :: "TabGroup list"
  activeGroupId :: "string option"
  hiddenTabIds :: "int set"
  tabLastActiveTime :: "int \<rightharpoonup> int"
  suspendedTabs :: "int \<rightharpoonup> SuspendedInfo"

text \<open>
  An async function is a state transformer that returns a value or throws; a throw keeps
  the state reached so far (nothing is rolled back). One handler runs from start to end on
  the state: no other handler interleaves at its awaits. What the clock and the random
  source give (\<^verbatim>\<open>Date.now()\<close>, \<^verbatim>\<open>generateId()\<close>) is passed in as \<open>now\<close> and \<open>newId\<close>.
\<close>

type_synonym 'a action = "State \<Rightarrow> (error + 'a) \<times> State"

definition succeed :: "'a \<Rightarrow> 'a action" where
  "succeed a = (\<lambda>s. (Inr a, s))"

definition fail :: "error \<Rightarrow> 'a action" where
  "fail e = (\<lambda>s. (Inl e, s))"

definition andThen :: "'a action \<Rightarrow> ('a \<Rightarrow> 'b action) \<Rightarrow> 'b action" where
  "andThen m f = (\<lambda>s. case m s of (Inl e, s') \<Rightarrow> (Inl e, s') | (Inr a, s') \<Rightarrow> f a s')"

definition gets :: "(State \<Rightarrow> 'a) \<Rightarrow> 'a action" where
  "gets f = (\<lambda>s. (Inr (f s), s))"

definition modify :: "(State \<Rightarrow> State) \<Rightarrow> unit action" where
  "modify f = (\<lambda>s. (Inr (), f s))"

fun forEach :: "'a list \<Rightarrow> ('a \<Rightarrow> unit action) \<Rightarrow> unit action" where
  "forEach [] body = succeed ()"
| "forEach (x # xs) body = andThen (body x) (\<lambda>_. forEach xs body)"

text \<open>
  Two properties of an action, for the proofs: it never throws; it leaves a component of
  the state as it was.
\<close>

definition returns :: "'a action \<Rightarrow> bool" where
  "returns m \<longleftrightarrow> (\<forall>s. \<exists>a s'. m s = (Inr a, s'))"

definition keeps :: "(State \<Rightarrow> 'b) \<Rightarrow> 'a action \<Rightarrow> bool" where
  "keeps f m \<longleftrightarrow> (\<forall>s. f (snd (m s)) = f s)"

definition truthy :: "string option \<Rightarrow> bool" where
  \<comment> \<open>truthiness of a \<^verbatim>\<open>string | null | undefined\<close>\<close>
  "truthy v \<longleftrightarrow> (case v of None \<Rightarrow> False | Some x \<Rightarrow> x \<noteq> [])"

subsection \<open>Provider calls\<close>

text \<open>
  The provider is outside the repository; this is the behaviour the code relies on. A call
  that names a tab or group the provider does not have is rejected. \<^verbatim>\<open>update\<close> with
  \<^verbatim>\<open>active: false\<close> leaves the tab strip as it is; with \<^verbatim>\<open>active: true\<close> the tab becomes
  the window's one active tab. \<^verbatim>\<open>update\<close> with a url navigates the tab. \<^verbatim>\<open>tabs.group\<close>
  without a group id makes a new group, with an id not in use, holding the given tabs; the
  order of the tab strip is not modelled. Queries, alarms, the badge and the local store
  do not fail.
\<close>

definition tabs_query_currentWindow :: "ChromeTab list action" where
  "tabs_query_currentWindow = gets chrome_tabs"

definition tabs_query_ungrouped :: "ChromeTab list action" where
  \<comment> \<open>\<^verbatim>\<open>chrome.tabs.query({ currentWindow: true, groupId: TAB_GROUP_ID_NONE })\<close>\<close>
  "tabs_query_ungrouped = gets (\<lambda>s. filter (\<lambda>t. ct_groupId t = TAB_GROUP_ID_NONE) (chrome_tabs s))"

definition tabGroups_query :: "ChromeGroup list action" where
  "tabGroups_query = gets chrome_tabGroups"

definition hasTab :: "int \<Rightarrow> State \<Rightarrow> bool" where
  "hasTab tabId s \<longleftrightarrow> tabId \<in> set (map ct_id (chrome_tabs s))"

definition hasTabGroup :: "int \<Rightarrow> State \<Rightarrow> bool" where
  "hasTabGroup groupId s \<longleftrightarrow> groupId \<in> set (map cg_id (chrome_tabGroups s))"

definition tabs_get :: "int \<Rightarrow> ChromeTab action" where
  "tabs_get tabId =
     (\<lambda>s. case find (\<lambda>t. ct_id t = tabId) (chrome_tabs s) of
             None \<Rightarrow> (Inl (ProviderError ''No tab with id''), s)
           | Some t \<Rightarrow> (Inr t, s))"

definition tabs_update_active :: "int \<Rightarrow> bool \<Rightarrow> unit action" where
  "tabs_update_active tabId active =
     (\<lambda>s. if \<not> hasTab tabId s then (Inl (ProviderError ''No tab with id''), s)
           else if active then
             (Inr (), s\<lparr>chrome_tabs := map (\<lambda>t. t\<lparr>ct_active := (ct_id t = tabId)\<rparr>) (chrome_tabs s)\<rparr>)
           else (Inr (), s))"

definition tabs_update_url :: "int \<Rightarrow> string \<Rightarrow> unit action" where
  "tabs_update_url tabId newUrl =
     (\<lambda>s. if \<not> hasTab tabId s then (Inl (ProviderError ''No tab with id''), s)
           else (Inr (), s\<lparr>chrome_tabs :=
                   map (\<lambda>t. if ct_id t = tabId then t\<lparr>ct_url := Some newUrl\<rparr> else t) (chrome_tabs s)\<rparr>))"

definition tabGroups_update_collapsed :: "int \<Rightarrow> bool \<Rightarrow> unit action" where
  "tabGroups_update_collapsed groupId c =
     (\<lambda>s. if \<not> hasTabGroup groupId s then (Inl (ProviderError ''No group with id''), s)
           else (Inr (), s\<lparr>chrome_tabGroups :=
                   map (\<lambda>g. if cg_id g = groupId then g\<lparr>cg_collapsed := c\<rparr> else g) (chrome_tabGroups s)\<rparr>))"

definition tabGroups_update_title_color :: "int \<Rightarrow> string \<Rightarrow> TabGroupColor \<Rightarrow> unit action" where
  "tabGroups_update_title_color groupId t c =
     (\<lambda>s. if \<not> hasTabGroup groupId s then (Inl (ProviderError ''No group with id''), s)
           else (Inr (), s\<lparr>chrome_tabGroups :=
                   map (\<lambda>g. if cg_id g = groupId then g\<lparr>cg_title := Some t, cg_color := c\<rparr> else g)
                     (chrome_tabGroups s)\<rparr>))"

definition freshGroupId :: "State \<Rightarrow> int" where
  "freshGroupId s = 1 + foldl max 0 (map cg_id (chrome_tabGroups s) @ map ct_groupId (chrome_tabs s))"

definition tabs_group :: "int list \<Rightarrow> int action" where
  "tabs_group ids =
     (\<lambda>s. if ids = [] \<or> \<not> list_all (\<lambda>i. hasTab i s) ids
           then (Inl (ProviderError ''No tab with id''), s)
           else (let groupId = freshGroupId s in
             (Inr groupId,
              s\<lparr>chrome_tabs := map (\<lambda>t. if ct_id t \<in> set ids then t\<lparr>ct_groupId := groupId\<rparr> else t)
                                 (chrome_tabs s),
                chrome_tabGroups := chrome_tabGroups s @
                   [\<lparr>cg_id = groupId, cg_title = None, cg_color = Grey, cg_collapsed = False\<rparr>]\<rparr>)))"

definition alarms_clear :: "string \<Rightarrow> unit action" where
  "alarms_clear name = modify (\<lambda>s. s\<lparr>chrome_alarms := (chrome_alarms s)(name := None)\<rparr>)"

definition alarms_create :: "string \<Rightarrow> rat \<Rightarrow> unit action" where
  "alarms_create name periodInMinutes =
     modify (\<lambda>s. s\<lparr>chrome_alarms := (chrome_alarms s)(name \<mapsto> periodInMinutes)\<rparr>)"

definition action_setBadgeText :: "string \<Rightarrow> unit action" where
  "action_setBadgeText text = modify (\<lambda>s. s\<lparr>chrome_badgeText := text\<rparr>)"

definition action_setBadgeBackgroundColor :: "string \<Rightarrow> unit action" where
  "action_setBadgeBackgroundColor color = modify (\<lambda>s. s\<lparr>chrome_badgeColor := color\<rparr>)"

section \<open>Storage wrapper (lib/storage.ts)\<close>

text \<open>\<^verbatim>\<open>storage.get(key)\<close> is \<^verbatim>\<open>data[key] ?? DEFAULT_STORAGE_DATA[key]\<close>.\<close>

definition readSettings :: "State \<Rightarrow> Settings" where
  "readSettings s = (case sd_settings (chrome_storage s) of None \<Rightarrow> DEFAULT_SETTINGS | Some v \<Rightarrow> v)"

definition readSessions :: "State \<Rightarrow> Session list" where
  "readSessions s = (case sd_sessions (chrome_storage s) of None \<Rightarrow> DEFAULT_sessions s | Some v \<Rightarrow> v)"

definition storage_getSettings :: "Settings action" where
  "storage_getSettings = gets readSettings"

definition storage_getSessions :: "Session list action" where
  "storage_getSessions = gets readSessions"

definition storage_getActiveGroupId :: "string option action" where
  "storage_getActiveGroupId = gets (\<lambda>s. sd_activeGroupId (chrome_storage s))"

definition storage_setSettings :: "Settings \<Rightarrow> unit action" where
  "storage_setSettings v = modify (\<lambda>s. s\<lparr>chrome_storage := (chrome_storage s)\<lparr>sd_settings := Some v\<rparr>\<rparr>)"

definition storage_setSessions :: "Session list \<Rightarrow> unit action" where
  "storage_setSessions v = modify (\<lambda>s. s\<lparr>chrome_storage := (chrome_storage s)\<lparr>sd_sessions := Some v\<rparr>\<rparr>)"

definition storage_setActiveGroupId :: "string option \<Rightarrow> unit action" where
  "storage_setActiveGroupId groupId =
     modify (\<lambda>s. s\<lparr>chrome_storage := (chrome_storage s)\<lparr>sd_activeGroupId := groupId\<rparr>\<rparr>)"

definition storage_saveGroups :: "int \<Rightarrow> TabGroup list \<Rightarrow> unit action" where
  "storage_saveGroups now groups =
     modify (\<lambda>s. s\<lparr>chrome_storage := (chrome_storage s)\<lparr>sd_groups := Some groups, sd_lastSaveTime := Some now\<rparr>\<rparr>)"

text \<open>
  \<^verbatim>\<open>Partial<Settings>\<close>: for each key, \<open>None\<close> when the payload lacks it. A payload arrives
  through the message channel, which drops keys whose value is \<^verbatim>\<open>undefined\<close>.
\<close>

record SettingsUpdate =
  upd_viewOneGroupAtATime :: "bool option"
  upd_autoSaveEnabled :: "bool option"
  upd_autoSaveInterval :: "int option"
  upd_autoGroupByDomain :: "bool option"
  upd_autoGroupThreshold :: "int option"
  upd_suspensionTimeout :: "int option"
  upd_suspensionWhitelist :: "string list option"
  upd_showTabCountBadge :: "bool option"
  upd_maxSessions :: "int option"
  upd_showUngroupedTabs :: "bool option"

definition spreadKey :: "'a \<Rightarrow> 'a option \<Rightarrow> 'a" where
  \<comment> \<open>one key of \<^verbatim>\<open>{ ...current, ...updates }\<close>\<close>
  "spreadKey cur upd = (case upd of None \<Rightarrow> cur | Some v \<Rightarrow> v)"

definition spreadSettings :: "Settings \<Rightarrow> SettingsUpdate \<Rightarrow> Settings" where
  "spreadSettings current updates =
     \<lparr> viewOneGroupAtATime = spreadKey (viewOneGroupAtATime current) (upd_viewOneGroupAtATime updates),
       autoSaveEnabled = spreadKey (autoSaveEnabled current) (upd_autoSaveEnabled updates),
       autoSaveInterval = spreadKey (autoSaveInterval current) (upd_autoSaveInterval updates),
       autoGroupByDomain_setting = spreadKey (autoGroupByDomain_setting current) (upd_autoGroupByDomain updates),
       autoGroupThreshold =
         (case upd_autoGroupThreshold updates of None \<Rightarrow> autoGroupThreshold current | Some v \<Rightarrow> Some v),
       suspensionTimeout = spreadKey (suspensionTimeout current) (upd_suspensionTimeout updates),
       suspensionWhitelist = spreadKey (suspensionWhitelist current) (upd_suspensionWhitelist updates),
       showTabCountBadge = spreadKey (showTabCountBadge current) (upd_showTabCountBadge updates),
       maxSessions = spreadKey (maxSessions current) (upd_maxSessions updates),
       showUngroupedTabs = spreadKey (showUngroupedTabs current) (upd_showUngroupedTabs updates) \<rparr>"

definition storage_updateSettings :: "SettingsUpdate \<Rightarrow> Settings action" where
  "storage_updateSettings updates =
     andThen storage_getSettings (\<lambda>current.
       let updated = spreadSettings current updates in
       andThen (storage_setSettings updated) (\<lambda>_. succeed updated))"

text \<open>
  \<^verbatim>\<open>storage.saveSession\<close>. \<^verbatim>\<open>unshift\<close> and the assignment to \<^verbatim>\<open>length\<close> change the array
  that \<^verbatim>\<open>getSessions\<close> returned; when the key was absent that array is the default one,
  which stays changed. Assigning a negative length throws a RangeError (after the
  \<^verbatim>\<open>unshift\<close>); \<open>maxSessions\<close> is an integer here.
\<close>

definition mutateSessions :: "Session list \<Rightarrow> unit action" where
  "mutateSessions v =
     modify (\<lambda>s. if sd_sessions (chrome_storage s) = None then s\<lparr>DEFAULT_sessions := v\<rparr> else s)"

definition storage_saveSession :: "Session \<Rightarrow> unit action" where
  "storage_saveSession session =
     andThen storage_getSessions (\<lambda>sessions.
     andThen storage_getSettings (\<lambda>settings.
     andThen (mutateSessions (session # sessions)) (\<lambda>_.
       if int (length (session # sessions)) > maxSessions settings then
         (if maxSessions settings < 0 then fail (RangeError ''Invalid array length'')
          else andThen (mutateSessions (take (nat (maxSessions settings)) (session # sessions))) (\<lambda>_.
               storage_setSessions (take (nat (maxSessions settings)) (session # sessions))))
       else storage_setSessions (session # sessions))))"

definition storage_deleteSession :: "string \<Rightarrow> unit action" where
  "storage_deleteSession sessionId =
     andThen storage_getSessions (\<lambda>sessions.
       storage_setSessions (filter (\<lambda>s. ses_id s \<noteq> sessionId) sessions))"

section \<open>Service worker (background/service-worker.ts)\<close>

subsection \<open>getTabGroups, updateBadge\<close>

definition getTabGroups :: "int \<Rightarrow> TabGroup list action" where
  "getTabGroups now =
     andThen tabs_query_currentWindow (\<lambda>tabs.
     andThen tabGroups_query (\<lambda>chromeGroups.
       let groups = buildGroups now tabs chromeGroups in
       andThen (modify (\<lambda>s. s\<lparr>cachedGroups := groups\<rparr>)) (\<lambda>_. succeed groups)))"

definition badgeByCount :: "unit action" where
  "badgeByCount =
     andThen tabs_query_currentWindow (\<lambda>tabs.
       let count = length tabs in
       andThen (action_setBadgeText (natToString count)) (\<lambda>_.
         action_setBadgeBackgroundColor
           (if count \<ge> 30 then ''#d93025'' else if count \<ge> 10 then ''#f9ab00'' else ''#1e8e3e'')))"

definition updateBadge :: "int \<Rightarrow> unit action" where
  "updateBadge now =
     andThen storage_getSettings (\<lambda>settings.
       if \<not> showTabCountBadge settings then action_setBadgeText []
       else andThen (gets activeGroupId) (\<lambda>active.
         if truthy active then
           andThen (getTabGroups now) (\<lambda>groups.
             case find (\<lambda>g. Some (tg_id g) = active) groups of
               Some activeGroup \<Rightarrow>
                 andThen (action_setBadgeText (natToString (length (tg_tabs activeGroup)))) (\<lambda>_.
                   action_setBadgeBackgroundColor ''#1a73e8'')
             | None \<Rightarrow> badgeByCount)
         else badgeByCount))"

subsection \<open>Focus controller: hideOtherGroups, showAllGroups\<close>

definition hideGroup :: "string \<Rightarrow> Settings \<Rightarrow> TabGroup \<Rightarrow> unit action" where
  \<comment> \<open>the body of the loop over the groups in \<^verbatim>\<open>hideOtherGroups\<close>\<close>
  "hideGroup groupId settings grp =
     (if tg_id grp = groupId then succeed ()
      else if tg_id grp = ''ungrouped'' \<and> showUngroupedTabs settings then succeed ()
      else
        andThen (forEach (tg_tabs grp) (\<lambda>tab.
          if tab_pinned tab \<noteq> Some True then
            andThen (tabs_update_active (tab_id tab) False) (\<lambda>_.
              modify (\<lambda>s. s\<lparr>hiddenTabIds := insert (tab_id tab) (hiddenTabIds s)\<rparr>))
          else succeed ())) (\<lambda>_.
        if tg_chromeGroupId grp > 0 then tabGroups_update_collapsed (tg_chromeGroupId grp) True
        else succeed ()))"

definition hideOtherGroups :: "int \<Rightarrow> string \<Rightarrow> unit action" where
  "hideOtherGroups now groupId =
     andThen (getTabGroups now) (\<lambda>groups.
       case find (\<lambda>g. tg_id g = groupId) groups of
         None \<Rightarrow> fail (Error ''Group not found'')
       | Some targetGroup \<Rightarrow>
           andThen storage_getSettings (\<lambda>settings.
           andThen (modify (\<lambda>s. s\<lparr>hiddenTabIds := {}\<rparr>)) (\<lambda>_.
           andThen (forEach groups (hideGroup groupId settings)) (\<lambda>_.
           andThen (if tg_chromeGroupId targetGroup > 0
                    then tabGroups_update_collapsed (tg_chromeGroupId targetGroup) False
                    else succeed ()) (\<lambda>_.
           andThen (case tg_tabs targetGroup of
                      [] \<Rightarrow> succeed ()
                    | first # _ \<Rightarrow> tabs_update_active (tab_id first) True) (\<lambda>_.
           andThen (modify (\<lambda>s. s\<lparr>activeGroupId := Some groupId\<rparr>)) (\<lambda>_.
           andThen (storage_setActiveGroupId (Some groupId)) (\<lambda>_.
           updateBadge now))))))))"

definition showAllGroups :: "int \<Rightarrow> unit action" where
  "showAllGroups now =
     andThen (getTabGroups now) (\<lambda>groups.
     andThen (forEach groups (\<lambda>grp.
       if tg_chromeGroupId grp > 0 then tabGroups_update_collapsed (tg_chromeGroupId grp) False
       else succeed ())) (\<lambda>_.
     andThen (modify (\<lambda>s. s\<lparr>hiddenTabIds := {}\<rparr>)) (\<lambda>_.
     andThen (modify (\<lambda>s. s\<lparr>activeGroupId := None\<rparr>)) (\<lambda>_.
     andThen (storage_setActiveGroupId None) (\<lambda>_.
     updateBadge now)))))"

section \<open>Utilities (lib/utils.ts)\<close>

subsection \<open>Domain hash colour\<close>

text \<open>
  JavaScript's bitwise operators work on the 32-bit two's complement reading of a number.
  \<open>toInt32\<close> is that conversion on the (exact) integer value.
\<close>

definition toInt32 :: "int \<Rightarrow> int" where
  "toInt32 x = (x + 2 ^ 31) mod 2 ^ 32 - 2 ^ 31"

definition shiftLeft32 :: "int \<Rightarrow> nat \<Rightarrow> int" where
  \<comment> \<open>\<^verbatim>\<open>x << n\<close>\<close>
  "shiftLeft32 x n = toInt32 (toInt32 x * 2 ^ (n mod 32))"

definition hashStep :: "int \<Rightarrow> char \<Rightarrow> int" where
  \<comment> \<open>the loop body: \<^verbatim>\<open>hash = ((hash << 5) - hash) + char; hash = hash & hash\<close>\<close>
  "hashStep hash c = toInt32 ((shiftLeft32 hash 5 - hash) + of_char c)"

definition domainHash :: "string \<Rightarrow> int" where
  "domainHash domain = foldl hashStep 0 domain"

definition hashColors :: "TabGroupColor list" where
  "hashColors = [Blue, Red, Yellow, Green, Pink, Purple, Cyan]"

definition getColorFromDomainHash :: "string \<Rightarrow> TabGroupColor" where
  "getColorFromDomainHash domain =
     (let hash = domainHash domain;
          index = nat (\<bar>hash\<bar> mod int (length hashColors))
      in hashColors ! index)"

definition getColorFromFaviconWithFallback :: "string option \<Rightarrow> string \<Rightarrow> TabGroupColor" where
  "getColorFromFaviconWithFallback faviconUrl domain = getColorFromDomainHash domain"

section \<open>Platform functions\<close>

text \<open>
  The parts of a parsed \<^verbatim>\<open>URL\<close> object that the code reads, and the platform functions
  the code calls: the URL constructor (\<open>None\<close> when it throws), \<^verbatim>\<open>encodeURIComponent\<close> and
  \<^verbatim>\<open>chrome.runtime.getURL\<close>. They belong to the browser, not to the repository, so the
  functions of the code take them as a parameter.
\<close>

record URL =
  url_protocol :: string
  url_host :: string
  url_hostname :: string
  url_pathname :: string
  url_search :: string

record Platform =
  newURL :: "string \<Rightarrow> URL option"
  encodeURIComponent :: "string \<Rightarrow> string"
  runtime_getURL :: "string \<Rightarrow> string"

subsection \<open>String methods\<close>

definition startsWith :: "string \<Rightarrow> string \<Rightarrow> bool" where
  "startsWith s p \<longleftrightarrow> take (length p) s = p"

fun includesStr :: "string \<Rightarrow> string \<Rightarrow> bool" where
  "includesStr [] sub = (sub = [])"
| "includesStr (c # cs) sub = (startsWith (c # cs) sub \<or> includesStr cs sub)"

definition stripWww :: "string \<Rightarrow> string" where
  \<comment> \<open>\<^verbatim>\<open>hostname.replace(/^www\./, '')\<close>\<close>
  "stripWww h = (if startsWith h ''www.'' then drop 4 h else h)"

definition stripTrailingSlash :: "string \<Rightarrow> string" where
  \<comment> \<open>\<^verbatim>\<open>s.replace(/\/$/, '')\<close>\<close>
  "stripTrailingSlash s = (if s \<noteq> [] \<and> last s = CHR ''/'' then butlast s else s)"

subsection \<open>A JavaScript Map with string keys\<close>

text \<open>A \<^verbatim>\<open>Map\<close> iterates in insertion order; \<^verbatim>\<open>set\<close> on a present key keeps its place.\<close>

type_synonym 'v jsMap = "(string \<times> 'v) list"

definition Map_get :: "'v jsMap \<Rightarrow> string \<Rightarrow> 'v option" where
  "Map_get m k = map_of m k"

fun Map_set :: "'v jsMap \<Rightarrow> string \<Rightarrow> 'v \<Rightarrow> 'v jsMap" where
  "Map_set [] k v = [(k, v)]"
| "Map_set (e # m) k v = (if fst e = k then (k, v) # m else e # Map_set m k v)"

subsection \<open>normalizeUrl (lib/utils.ts)\<close>

definition normalizeUrl :: "Platform \<Rightarrow> string \<Rightarrow> bool \<Rightarrow> string" where
  "normalizeUrl pf url ignoreQueryParams =
     (case newURL pf url of
        None \<Rightarrow> url
      | Some parsed \<Rightarrow>
          (let normalized = url_protocol parsed @ ''//'' @ url_host parsed @ url_pathname parsed;
               normalized' = (if \<not> ignoreQueryParams \<and> url_search parsed \<noteq> []
                              then normalized @ url_search parsed else normalized)
           in stripTrailingSlash normalized'))"

subsection \<open>Duplicate detector: findDuplicates\<close>

definition addToUrlMap :: "Platform \<Rightarrow> bool \<Rightarrow> Tab list jsMap \<Rightarrow> Tab \<Rightarrow> Tab list jsMap" where
  \<comment> \<open>the body of the inner loop\<close>
  "addToUrlMap pf ignoreQueryParams urlMap tab =
     (let normalizedUrl = normalizeUrl pf (tab_url tab) ignoreQueryParams;
          existing = mapGetOrEmpty (Map_get urlMap) normalizedUrl
      in Map_set urlMap normalizedUrl (existing @ [tab]))"

definition buildUrlMap :: "Platform \<Rightarrow> bool \<Rightarrow> TabGroup list \<Rightarrow> Tab list jsMap" where
  "buildUrlMap pf ignoreQueryParams groups =
     foldl (\<lambda>urlMap grp. foldl (addToUrlMap pf ignoreQueryParams) urlMap (tg_tabs grp)) [] groups"

definition onlyDuplicates :: "Tab list jsMap \<Rightarrow> Tab list jsMap" where
  \<comment> \<open>the second loop: copy the entries with more than one tab\<close>
  "onlyDuplicates urlMap =
     foldl (\<lambda>duplicates e. if length (snd e) > 1 then Map_set duplicates (fst e) (snd e) else duplicates)
       [] urlMap"

definition findDuplicates :: "Platform \<Rightarrow> int \<Rightarrow> bool \<Rightarrow> Tab list jsMap action" where
  "findDuplicates pf now ignoreQueryParams =
     andThen (getTabGroups now) (\<lambda>groups.
       succeed (onlyDuplicates (buildUrlMap pf ignoreQueryParams groups)))"

subsection \<open>Domain clustering: autoGroupByDomain, checkAutoGroupByDomain\<close>

record DomainEntry =
  de_tabIds :: "int list"
  de_favicon :: "string option"

definition addToDomainMap :: "Platform \<Rightarrow> DomainEntry jsMap \<Rightarrow> ChromeTab \<Rightarrow> string \<Rightarrow> DomainEntry jsMap" where
  \<comment> \<open>the \<^verbatim>\<open>try\<close> block of both bucketing loops; \<open>tabUrl\<close> is the tab's (non-empty) url\<close>
  "addToDomainMap pf domainMap tab tabUrl =
     (case newURL pf tabUrl of
        None \<Rightarrow> domainMap
      | Some url \<Rightarrow>
          (let domain = stripWww (url_hostname url);
               existing = (case Map_get domainMap domain of
                             None \<Rightarrow> \<lparr> de_tabIds = [], de_favicon = None \<rparr>
                           | Some e \<Rightarrow> e);
               pushed = existing \<lparr> de_tabIds := de_tabIds existing @ [ct_id tab] \<rparr>;
               withIcon = (if \<not> truthy (de_favicon pushed) \<and> truthy (ct_favIconUrl tab)
                           then pushed \<lparr> de_favicon := ct_favIconUrl tab \<rparr> else pushed)
           in Map_set domainMap domain withIcon))"

definition bucketAll :: "Platform \<Rightarrow> DomainEntry jsMap \<Rightarrow> ChromeTab \<Rightarrow> DomainEntry jsMap" where
  \<comment> \<open>the loop body of \<^verbatim>\<open>autoGroupByDomain\<close>\<close>
  "bucketAll pf domainMap tab =
     (if \<not> truthy (ct_url tab) \<or> ct_id tab = 0 then domainMap
      else addToDomainMap pf domainMap tab (the (ct_url tab)))"

definition bucketChecked :: "Platform \<Rightarrow> DomainEntry jsMap \<Rightarrow> ChromeTab \<Rightarrow> DomainEntry jsMap" where
  \<comment> \<open>the loop body of \<^verbatim>\<open>checkAutoGroupByDomain\<close>\<close>
  "bucketChecked pf domainMap tab =
     (if \<not> truthy (ct_url tab) \<or> ct_id tab = 0 then domainMap
      else if startsWith (the (ct_url tab)) ''chrome://''
            \<or> startsWith (the (ct_url tab)) ''chrome-extension://'' then domainMap
      else addToDomainMap pf domainMap tab (the (ct_url tab)))"

definition groupDomain :: "string \<Rightarrow> DomainEntry \<Rightarrow> unit action" where
  \<comment> \<open>colour, \<^verbatim>\<open>chrome.tabs.group\<close>, \<^verbatim>\<open>chrome.tabGroups.update\<close>\<close>
  "groupDomain domain entry =
     (let color = getColorFromFaviconWithFallback (de_favicon entry) domain in
      andThen (tabs_group (de_tabIds entry)) (\<lambda>groupId.
        tabGroups_update_title_color groupId domain color))"

fun groupDomains :: "DomainEntry jsMap \<Rightarrow> int \<Rightarrow> int action" where
  "groupDomains [] groupsCreated = succeed groupsCreated"
| "groupDomains (e # rest) groupsCreated =
     (if length (de_tabIds (snd e)) \<ge> 2
      then andThen (groupDomain (fst e) (snd e)) (\<lambda>_. groupDomains rest (groupsCreated + 1))
      else groupDomains rest groupsCreated)"

definition autoGroupByDomain :: "Platform \<Rightarrow> int action" where
  "autoGroupByDomain pf =
     andThen tabs_query_ungrouped (\<lambda>tabs.
       groupDomains (foldl (bucketAll pf) [] tabs) 0)"

definition targetDomainOf :: "Platform \<Rightarrow> string option \<Rightarrow> string option" where
  "targetDomainOf pf tabUrl =
     (if truthy tabUrl
      then (case newURL pf (the tabUrl) of None \<Rightarrow> None | Some url \<Rightarrow> Some (stripWww (url_hostname url)))
      else None)"

fun checkDomains :: "string option \<Rightarrow> int \<Rightarrow> DomainEntry jsMap \<Rightarrow> unit action" where
  "checkDomains targetDomain threshold [] = succeed ()"
| "checkDomains targetDomain threshold (e # rest) =
     (if truthy targetDomain \<and> Some (fst e) \<noteq> targetDomain
      then checkDomains targetDomain threshold rest
      else if int (length (de_tabIds (snd e))) \<ge> threshold
      then groupDomain (fst e) (snd e)
      else checkDomains targetDomain threshold rest)"

definition thresholdOf :: "Settings \<Rightarrow> int" where
  \<comment> \<open>\<^verbatim>\<open>settings.autoGroupThreshold || 3\<close>\<close>
  "thresholdOf settings =
     (case autoGroupThreshold settings of None \<Rightarrow> 3 | Some t \<Rightarrow> if t = 0 then 3 else t)"

definition checkAutoGroupByDomain :: "Platform \<Rightarrow> string option \<Rightarrow> unit action" where
  "checkAutoGroupByDomain pf tabUrl =
     andThen storage_getSettings (\<lambda>settings.
       if \<not> autoGroupByDomain_setting settings then succeed ()
       else
         (let threshold = thresholdOf settings in
          andThen tabs_query_ungrouped (\<lambda>tabs.
            checkDomains (targetDomainOf pf tabUrl) threshold (foldl (bucketChecked pf) [] tabs))))"

subsection \<open>Suspension engine: suspendTab, checkIdleTabs, unsuspendTab\<close>

definition whitelisted :: "Platform \<Rightarrow> Settings \<Rightarrow> string \<Rightarrow> bool" where
  \<comment> \<open>the whitelist check of \<^verbatim>\<open>suspendTab\<close>: true where the code returns early\<close>
  "whitelisted pf settings tabUrl \<longleftrightarrow>
     length (suspensionWhitelist settings) > 0 \<and>
     (case newURL pf tabUrl of
        None \<Rightarrow> False
      | Some url \<Rightarrow> list_ex (\<lambda>d. includesStr (stripWww (url_hostname url)) d)
                     (suspensionWhitelist settings))"

definition suspendedUrl :: "Platform \<Rightarrow> ChromeTab \<Rightarrow> string \<Rightarrow> string" where
  "suspendedUrl pf tab tabUrl =
     runtime_getURL pf
       (''suspended/suspended.html?url='' @ encodeURIComponent pf tabUrl
        @ ''&title='' @ encodeURIComponent pf (strOr (ct_title tab) ''Untitled'')
        @ ''&favicon='' @ encodeURIComponent pf (strOr (ct_favIconUrl tab) []))"

definition suspendTab :: "Platform \<Rightarrow> int \<Rightarrow> unit action" where
  "suspendTab pf tabId =
     andThen (tabs_get tabId) (\<lambda>tab.
       if ct_pinned tab \<or> ct_active tab \<or> \<not> truthy (ct_url tab)
          \<or> startsWith (the (ct_url tab)) ''chrome://''
          \<or> startsWith (the (ct_url tab)) ''chrome-extension://''
          \<or> includesStr (the (ct_url tab)) ''suspended/suspended.html''
       then succeed ()
       else
         andThen storage_getSettings (\<lambda>settings.
           if whitelisted pf settings (the (ct_url tab)) then succeed ()
           else
             andThen (modify (\<lambda>s. s\<lparr>suspendedTabs := (suspendedTabs s)(tabId \<mapsto>
                        \<lparr> si_originalUrl = the (ct_url tab),
                          si_title = strOr (ct_title tab) ''Untitled'',
                          si_favicon = strOr (ct_favIconUrl tab) [] \<rparr>)\<rparr>)) (\<lambda>_.
             tabs_update_url tabId (suspendedUrl pf tab (the (ct_url tab))))))"

definition checkIdleTab :: "Platform \<Rightarrow> int \<Rightarrow> int \<Rightarrow> ChromeTab \<Rightarrow> unit action" where
  \<comment> \<open>the loop body of \<^verbatim>\<open>checkIdleTabs\<close>; \<^verbatim>\<open>!lastActive\<close> holds for a missing entry and for 0\<close>
  "checkIdleTab pf now timeoutMs tab =
     (if ct_id tab = 0 then succeed ()
      else
        andThen (gets (\<lambda>s. tabLastActiveTime s (ct_id tab))) (\<lambda>lastActive.
          if lastActive = None \<or> lastActive = Some 0
          then modify (\<lambda>s. s\<lparr>tabLastActiveTime := (tabLastActiveTime s)(ct_id tab \<mapsto> now)\<rparr>)
          else if now - the lastActive > timeoutMs then suspendTab pf (ct_id tab)
          else succeed ()))"

definition checkIdleTabs :: "Platform \<Rightarrow> int \<Rightarrow> unit action" where
  "checkIdleTabs pf now =
     andThen storage_getSettings (\<lambda>settings.
       if suspensionTimeout settings \<le> 0 then succeed ()
       else
         (let timeoutMs = suspensionTimeout settings * 60 * 1000 in
          andThen tabs_query_currentWindow (\<lambda>tabs.
            forEach tabs (checkIdleTab pf now timeoutMs))))"

definition updateTabActivity :: "int \<Rightarrow> int \<Rightarrow> unit action" where
  "updateTabActivity now tabId =
     modify (\<lambda>s. s\<lparr>tabLastActiveTime := (tabLastActiveTime s)(tabId \<mapsto> now)\<rparr>)"

definition unsuspendTab :: "int \<Rightarrow> unit action" where
  "unsuspendTab tabId =
     andThen (gets (\<lambda>s. suspendedTabs s tabId)) (\<lambda>info.
       case info of
         None \<Rightarrow> succeed ()
       | Some i \<Rightarrow>
           andThen (tabs_update_url tabId (si_originalUrl i)) (\<lambda>_.
             modify (\<lambda>s. s\<lparr>suspendedTabs := (suspendedTabs s)(tabId := None)\<rparr>)))"

subsection \<open>Session manager: saveSession\<close>

definition saveSession :: "int \<Rightarrow> string \<Rightarrow> string \<Rightarrow> Session action" where
  \<comment> \<open>\<open>now\<close> is \<^verbatim>\<open>Date.now()\<close>, \<open>newId\<close> the result of \<^verbatim>\<open>generateId()\<close>\<close>
  "saveSession now newId name =
     andThen (getTabGroups now) (\<lambda>groups.
       let tabCount = foldl (\<lambda>sum g. sum + int (length (tg_tabs g))) 0 groups;
           session = \<lparr> ses_id = newId, ses_name = name, ses_groups = groups,
                       ses_createdAt = now, ses_tabCount = tabCount \<rparr>
       in andThen (storage_saveSession session) (\<lambda>_. succeed session))"

subsection \<open>Dispatcher: handleMessage\<close>

text \<open>
  The messages whose handlers are modelled, with their payloads. \<^verbatim>\<open>GET_DUPLICATES\<close> carries
  an optional flag (\<^verbatim>\<open>ignoreQueryParams ?? false\<close>).
\<close>

datatype Message =
    GET_GROUPS
  | HIDE_OTHER_GROUPS string
  | SHOW_ALL_GROUPS
  | SAVE_SESSION string
  | GET_SESSIONS
  | DELETE_SESSION string
  | GET_SETTINGS
  | UPDATE_SETTINGS SettingsUpdate
  | AUTO_GROUP_BY_DOMAIN
  | GET_DUPLICATES "bool option"
  | SUSPEND_TAB int
  | UNSUSPEND_TAB int

datatype ResponseData =
    NoData
  | GroupsData "TabGroup list" "string option"
  | SessionData Session
  | SessionsData "Session list"
  | SettingsData Settings
  | GroupsCreatedData int
  | DuplicatesData "Tab list jsMap"

record MessageResponse =
  success :: bool
  response_data :: ResponseData
  response_error :: "string option"

definition setupAutoSaveAlarm :: "int \<Rightarrow> unit action" where
  "setupAutoSaveAlarm intervalSeconds =
     andThen (alarms_clear ''auto-save'') (\<lambda>_.
       alarms_create ''auto-save'' (of_int intervalSeconds / 60))"

definition adjustToSettings :: "int \<Rightarrow> SettingsUpdate \<Rightarrow> Settings \<Rightarrow> unit action" where
  \<comment> \<open>the three \<^verbatim>\<open>if\<close> statements of \<^verbatim>\<open>case 'UPDATE_SETTINGS'\<close>: alarms and badge\<close>
  "adjustToSettings now updates settings =
     andThen (if (upd_autoSaveInterval updates \<noteq> None \<and> upd_autoSaveInterval updates \<noteq> Some 0)
                 \<or> upd_autoSaveEnabled updates \<noteq> None
              then (if autoSaveEnabled settings then setupAutoSaveAlarm (autoSaveInterval settings)
                    else alarms_clear ''auto-save'')
              else succeed ()) (\<lambda>_.
     andThen (if upd_suspensionTimeout updates \<noteq> None
              then (if suspensionTimeout settings > 0 then alarms_create ''idle-check'' 1
                    else alarms_clear ''idle-check'')
              else succeed ()) (\<lambda>_.
     if upd_showTabCountBadge updates \<noteq> None then updateBadge now else succeed ()))"

definition updateSettingsCase :: "int \<Rightarrow> SettingsUpdate \<Rightarrow> ResponseData action" where
  \<comment> \<open>\<^verbatim>\<open>case 'UPDATE_SETTINGS'\<close>\<close>
  "updateSettingsCase now updates =
     andThen (storage_updateSettings updates) (\<lambda>settings.
     andThen (adjustToSettings now updates settings) (\<lambda>_.
     succeed (SettingsData settings)))"

fun dispatch :: "Platform \<Rightarrow> int \<Rightarrow> string \<Rightarrow> Message \<Rightarrow> ResponseData action" where
  "dispatch pf now newId GET_GROUPS =
     andThen (getTabGroups now) (\<lambda>groups.
     andThen (gets activeGroupId) (\<lambda>active. succeed (GroupsData groups active)))"
| "dispatch pf now newId (HIDE_OTHER_GROUPS groupId) =
     andThen (hideOtherGroups now groupId) (\<lambda>_. succeed NoData)"
| "dispatch pf now newId SHOW_ALL_GROUPS =
     andThen (showAllGroups now) (\<lambda>_. succeed NoData)"
| "dispatch pf now newId (SAVE_SESSION name) =
     andThen (saveSession now newId name) (\<lambda>session. succeed (SessionData session))"
| "dispatch pf now newId GET_SESSIONS =
     andThen storage_getSessions (\<lambda>sessions. succeed (SessionsData sessions))"
| "dispatch pf now newId (DELETE_SESSION sessionId) =
     andThen (storage_deleteSession sessionId) (\<lambda>_. succeed NoData)"
| "dispatch pf now newId GET_SETTINGS =
     andThen storage_getSettings (\<lambda>settings. succeed (SettingsData settings))"
| "dispatch pf now newId (UPDATE_SETTINGS updates) = updateSettingsCase now updates"
| "dispatch pf now newId AUTO_GROUP_BY_DOMAIN =
     andThen (autoGroupByDomain pf) (\<lambda>groupsCreated. succeed (GroupsCreatedData groupsCreated))"
| "dispatch pf now newId (GET_DUPLICATES ignoreQueryParams) =
     andThen (findDuplicates pf now (case ignoreQueryParams of None \<Rightarrow> False | Some b \<Rightarrow> b))
       (\<lambda>duplicates. succeed (DuplicatesData duplicates))"
| "dispatch pf now newId (SUSPEND_TAB tabId) =
     andThen (suspendTab pf tabId) (\<lambda>_. succeed NoData)"
| "dispatch pf now newId (UNSUSPEND_TAB tabId) =
     andThen (unsuspendTab tabId) (\<lambda>_. succeed NoData)"

definition handleMessage ::
  "Platform \<Rightarrow> int \<Rightarrow> string \<Rightarrow> Message \<Rightarrow> State \<Rightarrow> MessageResponse \<times> State" where
  \<comment> \<open>the \<^verbatim>\<open>try\<close>/\<^verbatim>\<open>catch\<close> around the switch: the response that is sent, and the state left\<close>
  "handleMessage pf now newId message s =
     (case dispatch pf now newId message s of
        (Inr d, s') \<Rightarrow> (\<lparr> success = True, response_data = d, response_error = None \<rparr>, s')
      | (Inl e, s') \<Rightarrow>
          (\<lparr> success = False, response_data = NoData, response_error = Some (errorMessage e) \<rparr>, s'))"

section \<open>A concrete platform\<close>

text \<open>
  A model of the browser's URL parser for the inputs of the examples: an absolute URL
  \<^verbatim>\<open>scheme://[userinfo@]host[:port][/path][?query][#fragment]\<close> or \<^verbatim>\<open>scheme:path\<close> with a
  non-special scheme. The scheme and, for the special schemes, the host are lower-cased, a
  default port is dropped and an empty path of a special scheme reads \<^verbatim>\<open>/\<close>. Percent
  encoding, dot segments, IPv6 hosts and the parser's leniency with malformed input are
  not modelled; the general theorems hold for every parser.
\<close>

definition isAlpha :: "char \<Rightarrow> bool" where
  "isAlpha c \<longleftrightarrow> (let n = (of_char c :: nat) in (65 \<le> n \<and> n \<le> 90) \<or> (97 \<le> n \<and> n \<le> 122))"

definition isDigit :: "char \<Rightarrow> bool" where
  "isDigit c \<longleftrightarrow> (let n = (of_char c :: nat) in 48 \<le> n \<and> n \<le> 57)"

definition toLowerChar :: "char \<Rightarrow> char" where
  "toLowerChar c = (let n = (of_char c :: nat) in if 65 \<le> n \<and> n \<le> 90 then char_of (n + 32) else c)"

definition isSchemeChar :: "char \<Rightarrow> bool" where
  "isSchemeChar c \<longleftrightarrow> isAlpha c \<or> isDigit c \<or> c \<in> set ''+-.''"

definition specialSchemes :: "string list" where
  "specialSchemes = [''http'', ''https'', ''ftp'', ''ws'', ''wss'', ''file'']"

definition defaultPort :: "string \<Rightarrow> string" where
  "defaultPort scheme =
     (if scheme = ''http'' \<or> scheme = ''ws'' then ''80''
      else if scheme = ''https'' \<or> scheme = ''wss'' then ''443''
      else if scheme = ''ftp'' then ''21'' else [])"

definition parseAuthorityURL :: "string \<Rightarrow> bool \<Rightarrow> string \<Rightarrow> URL option" where
  \<comment> \<open>\<open>rest\<close> is what follows \<^verbatim>\<open>scheme://\<close>\<close>
  "parseAuthorityURL scheme special rest =
     (let authority = takeWhile (\<lambda>c. c \<notin> set ''/?#'') rest;
          afterAuthority = dropWhile (\<lambda>c. c \<notin> set ''/?#'') rest;
          path = takeWhile (\<lambda>c. c \<notin> set ''?#'') afterAuthority;
          afterPath = dropWhile (\<lambda>c. c \<notin> set ''?#'') afterAuthority;
          query = (if startsWith afterPath ''?''
                   then takeWhile (\<lambda>c. c \<noteq> CHR ''#'') (tl afterPath) else []);
          hostport = rev (takeWhile (\<lambda>c. c \<noteq> CHR ''@'') (rev authority));
          hostname0 = takeWhile (\<lambda>c. c \<noteq> CHR '':'') hostport;
          port0 = drop 1 (dropWhile (\<lambda>c. c \<noteq> CHR '':'') hostport);
          hostname = (if special then map toLowerChar hostname0 else hostname0);
          port = (if port0 = defaultPort scheme then [] else port0)
      in if \<not> list_all isDigit port0 \<or> (special \<and> scheme \<noteq> ''file'' \<and> hostname = []) then None
         else Some \<lparr> url_protocol = scheme @ '':'',
                     url_host = hostname @ (if port = [] then [] else CHR '':'' # port),
                     url_hostname = hostname,
                     url_pathname = (if special \<and> path = [] then ''/'' else path),
                     url_search = (if query = [] then [] else CHR ''?'' # query) \<rparr>)"

definition parseURL :: "string \<Rightarrow> URL option" where
  "parseURL input =
     (let scheme0 = takeWhile (\<lambda>c. c \<noteq> CHR '':'') input;
          rest0 = dropWhile (\<lambda>c. c \<noteq> CHR '':'') input
      in if rest0 = [] \<or> scheme0 = [] \<or> \<not> isAlpha (hd scheme0) \<or> \<not> list_all isSchemeChar scheme0
         then None
         else
           (let scheme = map toLowerChar scheme0;
                rest = tl rest0;
                special = (scheme \<in> set specialSchemes)
            in if startsWith rest ''//'' then parseAuthorityURL scheme special (drop 2 rest)
               else if special then None
               else
                 (let path = takeWhile (\<lambda>c. c \<notin> set ''?#'') rest;
                      afterPath = dropWhile (\<lambda>c. c \<notin> set ''?#'') rest;
                      query = (if startsWith afterPath ''?''
                               then takeWhile (\<lambda>c. c \<noteq> CHR ''#'') (tl afterPath) else [])
                  in Some \<lparr> url_protocol = scheme @ '':'', url_host = [], url_hostname = [],
                             url_pathname = path,
                             url_search = (if query = [] then [] else CHR ''?'' # query) \<rparr>)))"

definition hexDigit :: "nat \<Rightarrow> char" where
  "hexDigit n = (if n < 10 then char_of (48 + n) else char_of (55 + n))"

definition isUnreserved :: "char \<Rightarrow> bool" where
  "isUnreserved c \<longleftrightarrow> isAlpha c \<or> isDigit c \<or> c \<in> set (CHR 0x27 # ''-_.!~*()'')"

definition percentEncode :: "string \<Rightarrow> string" where
  \<comment> \<open>\<^verbatim>\<open>encodeURIComponent\<close> on a string of bytes\<close>
  "percentEncode s =
     concat (map (\<lambda>c. if isUnreserved c then [c]
                       else [CHR ''%'', hexDigit (of_char c div 16), hexDigit (of_char c mod 16)]) s)"

definition chromePlatform :: Platform where
  "chromePlatform =
     \<lparr> newURL = parseURL,
       encodeURIComponent = percentEncode,
       runtime_getURL = (\<lambda>path. ''chrome-extension://abcdefghijklmnopabcdefghijklmnop/'' @ path) \<rparr>"

section \<open>Descriptions used in the statements and proofs\<close>

text \<open>
  None of these is code of the repository. They name what a statement talks about: the tabs
  of a provider group, the bucket of a key, the origin under which the checking path
  buckets a tab, the session a save builds, the condition under which \<open>suspendTab\<close> returns
  early, and the relation between two states that the sweep keeps.
\<close>

definition tabsOfGroup :: "int \<Rightarrow> ChromeTab list \<Rightarrow> Tab list" where
  "tabsOfGroup g tabs = map tabData (filter (\<lambda>t. hasGroup t \<and> ct_groupId t = g) tabs)"

definition tabsUngrouped :: "ChromeTab list \<Rightarrow> Tab list" where
  "tabsUngrouped tabs = map tabData (filter (\<lambda>t. \<not> hasGroup t) tabs)"

definition expandAll :: "int set \<Rightarrow> ChromeGroup list \<Rightarrow> ChromeGroup list" where
  "expandAll ids gs = map (\<lambda>g. if cg_id g \<in> ids then g\<lparr>cg_collapsed := False\<rparr> else g) gs"

definition expandGroup :: "TabGroup \<Rightarrow> unit action" where
  "expandGroup grp =
     (if tg_chromeGroupId grp > 0 then tabGroups_update_collapsed (tg_chromeGroupId grp) False
      else succeed ())"

definition urlBucket :: "Platform \<Rightarrow> bool \<Rightarrow> string \<Rightarrow> Tab list \<Rightarrow> Tab list" where
  "urlBucket pf ign k ts = filter (\<lambda>t. normalizeUrl pf (tab_url t) ign = k) ts"

definition originOf :: "Platform \<Rightarrow> string \<Rightarrow> string option" where
  "originOf pf u = (case newURL pf u of None \<Rightarrow> None | Some url \<Rightarrow> Some (stripWww (url_hostname url)))"

definition isSystemUrl :: "string \<Rightarrow> bool" where
  "isSystemUrl u \<longleftrightarrow> startsWith u ''chrome://'' \<or> startsWith u ''chrome-extension://''"

definition checkedOrigin :: "Platform \<Rightarrow> ChromeTab \<Rightarrow> string option" where
  "checkedOrigin pf t =
     (if \<not> truthy (ct_url t) \<or> ct_id t = 0 \<or> isSystemUrl (the (ct_url t)) then None
      else originOf pf (the (ct_url t)))"

definition bucketIds :: "Platform \<Rightarrow> string \<Rightarrow> ChromeTab list \<Rightarrow> int list" where
  "bucketIds pf d tabs =
     map ct_id (filter (\<lambda>t. ct_groupId t = TAB_GROUP_ID_NONE \<and> checkedOrigin pf t = Some d) tabs)"

definition entryIds :: "DomainEntry option \<Rightarrow> int list" where
  "entryIds e = (case e of None \<Rightarrow> [] | Some x \<Rightarrow> de_tabIds x)"

definition newSession :: "int \<Rightarrow> string \<Rightarrow> string \<Rightarrow> State \<Rightarrow> Session" where
  "newSession now newId name s =
     \<lparr> ses_id = newId, ses_name = name,
       ses_groups = buildGroups now (chrome_tabs s) (chrome_tabGroups s),
       ses_createdAt = now,
       ses_tabCount = foldl (\<lambda>sum g. sum + int (length (tg_tabs g))) 0
                        (buildGroups now (chrome_tabs s) (chrome_tabGroups s)) \<rparr>"

definition suspendSkips :: "Platform \<Rightarrow> Settings \<Rightarrow> ChromeTab \<Rightarrow> bool" where
  "suspendSkips pf settings t \<longleftrightarrow>
     ct_pinned t \<or> ct_active t \<or> \<not> truthy (ct_url t)
     \<or> startsWith (the (ct_url t)) ''chrome://''
     \<or> startsWith (the (ct_url t)) ''chrome-extension://''
     \<or> includesStr (the (ct_url t)) ''suspended/suspended.html''
     \<or> whitelisted pf settings (the (ct_url t))"

definition suspendedInfoOf :: "ChromeTab \<Rightarrow> SuspendedInfo" where
  "suspendedInfoOf t =
     \<lparr> si_originalUrl = the (ct_url t),
       si_title = strOr (ct_title t) ''Untitled'',
       si_favicon = strOr (ct_favIconUrl t) [] \<rparr>"

definition navigate :: "int \<Rightarrow> string \<Rightarrow> ChromeTab list \<Rightarrow> ChromeTab list" where
  "navigate tabId u tabs = map (\<lambda>t. if ct_id t = tabId then t\<lparr>ct_url := Some u\<rparr> else t) tabs"

definition pinnedKept :: "State \<Rightarrow> State \<Rightarrow> bool" where
  "pinnedKept s s' \<longleftrightarrow>
     map ct_id (chrome_tabs s') = map ct_id (chrome_tabs s)
     \<and> (\<forall>i<length (chrome_tabs s). ct_pinned (chrome_tabs s ! i) \<longrightarrow>
            chrome_tabs s' ! i = chrome_tabs s ! i
          \<and> suspendedTabs s' (ct_id (chrome_tabs s ! i)) = suspendedTabs s (ct_id (chrome_tabs s ! i)))"

section \<open>Example states\<close>

definition mkTab :: "int \<Rightarrow> string \<Rightarrow> bool \<Rightarrow> bool \<Rightarrow> int \<Rightarrow> ChromeTab" where
  "mkTab i u p a g =
     \<lparr> ct_id = i, ct_url = Some u, ct_title = Some ''Page'', ct_favIconUrl = None,
       ct_pinned = p, ct_active = a, ct_groupId = g \<rparr>"

definition emptyStorage :: StorageData where
  "emptyStorage =
     \<lparr> sd_groups = None, sd_sessions = None, sd_settings = None, sd_activeGroupId = None,
       sd_lastSaveTime = None \<rparr>"

definition initialState :: "ChromeTab list \<Rightarrow> ChromeGroup list \<Rightarrow> StorageData \<Rightarrow> State" where
  "initialState tabs groups stored =
     \<lparr> chrome_tabs = tabs, chrome_tabGroups = groups, chrome_alarms = Map.empty,
       chrome_badgeText = [], chrome_badgeColor = [], chrome_storage = stored,
       DEFAULT_sessions = [], cachedGroups = [], activeGroupId = None, hiddenTabIds = {},
       tabLastActiveTime = Map.empty, suspendedTabs = Map.empty \<rparr>"

definition exampleTabs :: "ChromeTab list" where
  "exampleTabs =
     [ mkTab 1 ''https://a.com/x?x=1'' False False 5,
       mkTab 2 ''https://a.com/x?x=2'' True False 7,
       mkTab 3 ''https://b.com'' False True (- 1),
       mkTab 4 ''https://c.org/'' False False 7 ]"

definition exampleGroups :: "ChromeGroup list" where
  "exampleGroups =
     [ \<lparr> cg_id = 5, cg_title = Some ''Work'', cg_color = Blue, cg_collapsed = False \<rparr>,
       \<lparr> cg_id = 7, cg_title = None, cg_color = Red, cg_collapsed = True \<rparr> ]"

definition exampleState :: State where
  "exampleState = initialState exampleTabs exampleGroups emptyStorage"

definition mkSession :: "string \<Rightarrow> Session" where
  "mkSession n = \<lparr> ses_id = n, ses_name = n, ses_groups = [], ses_createdAt = 0, ses_tabCount = 0 \<rparr>"

definition twoSessionStorage :: StorageData where
  "twoSessionStorage = emptyStorage \<lparr> sd_settings := Some (DEFAULT_SETTINGS \<lparr> maxSessions := 2 \<rparr>),
       sd_sessions := Some [mkSession ''old''] \<rparr>"

definition retentionState :: State where
  "retentionState = initialState [] [] twoSessionStorage"

definition noUpdates :: SettingsUpdate where
  "noUpdates =
     \<lparr> upd_viewOneGroupAtATime = None, upd_autoSaveEnabled = None, upd_autoSaveInterval = None,
       upd_autoGroupByDomain = None, upd_autoGroupThreshold = None, upd_suspensionTimeout = None,
       upd_suspensionWhitelist = None, upd_showTabCountBadge = None, upd_maxSessions = None,
       upd_showUngroupedTabs = None \<rparr>"

definition duplicateTabs :: "ChromeTab list" where
  "duplicateTabs =
     [ mkTab 1 ''https://a.com/x?x=1'' False True (- 1),
       mkTab 2 ''https://a.com/x?x=2'' False False (- 1),
       mkTab 3 ''https://b.com'' False False (- 1) ]"

definition duplicatesState :: State where
  "duplicatesState = initialState duplicateTabs [] emptyStorage"

definition slashTabs :: "ChromeTab list" where
  "slashTabs =
     [ mkTab 1 ''https://a.com/x/'' False True (- 1),
       mkTab 2 ''https://a.com/x'' False False (- 1),
       mkTab 3 ''https://b.com/'' False False (- 1),
       mkTab 4 ''https://b.com'' False False (- 1),
       mkTab 5 ''https://a.com/x/?q=1'' False False (- 1) ]"

definition slashState :: State where
  "slashState = initialState slashTabs [] emptyStorage"

definition systemTabsState :: State where
  "systemTabsState =
     initialState
       [ mkTab 1 ''chrome://settings/'' False True (- 1),
         mkTab 2 ''chrome://settings/appearance'' False False (- 1),
         mkTab 3 ''https://b.com'' False False (- 1) ]
       [] emptyStorage"

definition groupingSettings :: "int \<Rightarrow> Settings" where
  "groupingSettings threshold =
     DEFAULT_SETTINGS \<lparr> autoGroupByDomain_setting := True, autoGroupThreshold := Some threshold \<rparr>"

definition shopTabs :: "ChromeTab list" where
  "shopTabs =
     [ mkTab 1 ''about:blank'' False True (- 1),
       mkTab 2 ''https://news.example.org/1'' False False (- 1),
       mkTab 3 ''https://shop.example.com/a'' False False (- 1),
       mkTab 4 ''https://news.example.org/2'' False False (- 1),
       mkTab 5 ''https://www.shop.example.com/b'' False False (- 1),
       mkTab 6 ''https://news.example.org/3'' False False (- 1),
       mkTab 7 ''https://shop.example.com/c'' False False (- 1),
       mkTab 8 ''chrome://settings/'' False False (- 1) ]"

definition shopState :: State where
  "shopState =
     initialState shopTabs [] (emptyStorage \<lparr> sd_settings := Some (groupingSettings 3) \<rparr>)"

definition idleState :: State where
  "idleState = exampleState \<lparr> tabLastActiveTime := (\<lambda>i. Some 1) \<rparr>"

section \<open>Properties\<close>

lemma toInt32_range: "- (2 ^ 31) \<le> toInt32 x \<and> toInt32 x < 2 ^ 31"
  unfolding toInt32_def
  using pos_mod_bound [of "2 ^ 32" "x + 2 ^ 31"] pos_mod_sign [of "2 ^ 32" "x + 2 ^ 31"]
  by simp

lemma foldl_hashStep_range:
  "- (2 ^ 31) \<le> h \<and> h < 2 ^ 31 \<Longrightarrow>
   - (2 ^ 31) \<le> foldl hashStep h cs \<and> foldl hashStep h cs < 2 ^ 31"
proof (induction cs arbitrary: h)
  case Nil
  then show ?case by simp
next
  case (Cons c cs)
  have "- (2 ^ 31) \<le> hashStep h c \<and> hashStep h c < 2 ^ 31"
    unfolding hashStep_def by (rule toInt32_range)
  from Cons.IH [OF this] show ?case by simp
qed

lemma domainHash_range: "- (2 ^ 31) \<le> domainHash d \<and> domainHash d < 2 ^ 31"
  unfolding domainHash_def by (rule foldl_hashStep_range) simp

lemma hashColors_index:
  "nat (\<bar>h\<bar> mod int (length hashColors)) < length hashColors"
  by (simp add: hashColors_def)

lemma getColorFromDomainHash_palette:
  "getColorFromDomainHash d \<in> set hashColors"
  unfolding getColorFromDomainHash_def Let_def
  by (rule nth_mem) (rule hashColors_index)

text \<open>
  C9. The colour of an auto-created group is a function of the origin string alone: the
  favicon argument is ignored, the hash stays in the signed 32-bit range, the index is the
  absolute hash modulo 7, and the colour is one of the seven non-grey colours.
\<close>

theorem C9_domain_color_deterministic_non_grey:
  "getColorFromFaviconWithFallback favicon domain = getColorFromDomainHash domain
   \<and> getColorFromFaviconWithFallback favicon' domain = getColorFromFaviconWithFallback favicon domain
   \<and> getColorFromDomainHash domain = hashColors ! nat (\<bar>domainHash domain\<bar> mod 7)
   \<and> - (2 ^ 31) \<le> domainHash domain \<and> domainHash domain < 2 ^ 31
   \<and> getColorFromDomainHash domain \<in> {Blue, Red, Yellow, Green, Pink, Purple, Cyan}
   \<and> getColorFromDomainHash domain \<noteq> Grey"
proof -
  have pal: "getColorFromDomainHash domain \<in> set hashColors"
    by (rule getColorFromDomainHash_palette)
  have idx: "getColorFromDomainHash domain = hashColors ! nat (\<bar>domainHash domain\<bar> mod 7)"
    by (simp add: getColorFromDomainHash_def hashColors_def)
  from pal have mem: "getColorFromDomainHash domain \<in> {Blue, Red, Yellow, Green, Pink, Purple, Cyan}"
    by (simp add: hashColors_def)
  then have ng: "getColorFromDomainHash domain \<noteq> Grey" by auto
  show ?thesis
    using idx mem ng domainHash_range [of domain]
    by (simp add: getColorFromFaviconWithFallback_def)
qed

subsection \<open>Snapshot builder\<close>

lemma organize_snd:
  "snd (foldl organizeTab acc tabs) = snd acc @ tabsUngrouped tabs"
  by (induction tabs arbitrary: acc) (simp_all add: organizeTab_def tabsUngrouped_def Let_def)

lemma organize_fst:
  "mapGetOrEmpty (fst (foldl organizeTab acc tabs)) g = mapGetOrEmpty (fst acc) g @ tabsOfGroup g tabs"
  by (induction tabs arbitrary: acc) (simp_all add: organizeTab_def tabsOfGroup_def Let_def mapGetOrEmpty_def)

lemma buildGroups_eq:
  "buildGroups now tabs cgs =
     map (\<lambda>cg. \<lparr> tg_id = ''chrome-'' @ numberToString (cg_id cg),
       tg_chromeGroupId = cg_id cg,
       tg_name = strOr (cg_title cg) ''Unnamed Group'',
       tg_color = cg_color cg,
       tg_tabs = tabsOfGroup (cg_id cg) tabs,
       tg_collapsed = cg_collapsed cg,
       tg_createdAt = now \<rparr>) cgs
     @ (if tabsUngrouped tabs = [] then [] else [ungroupedGroup (tabsUngrouped tabs)])"
proof -
  have a: "snd (organizeTabs tabs) = tabsUngrouped tabs"
    by (simp add: organizeTabs_def organize_snd)
  have b: "mapGetOrEmpty (fst (organizeTabs tabs)) g = tabsOfGroup g tabs" for g
    using organize_fst [of "(Map.empty, [])" tabs g]
    by (simp add: organizeTabs_def mapGetOrEmpty_def)
  show ?thesis
    using a b by (simp add: buildGroups_def Let_def chromeTabGroup_def)
qed

lemma tabData_mem:
  assumes "distinct (map ct_id tabs)" "t \<in> set tabs"
  shows "tabData t \<in> set (map tabData (filter P tabs)) \<longleftrightarrow> P t"
proof
  assume "tabData t \<in> set (map tabData (filter P tabs))"
  then obtain t' where t': "t' \<in> set tabs" "P t'" "tabData t' = tabData t" by auto
  then have "ct_id t' = ct_id t" by (metis Tab.select_convs(1) tabData_def)
  with assms t' have "t' = t" by (meson distinct_map inj_onD)
  with t' show "P t" by simp
next
  assume "P t" with assms show "tabData t \<in> set (map tabData (filter P tabs))" by simp
qed

lemma buildGroups_length:
  "length (buildGroups now tabs cgs) = length cgs + (if tabsUngrouped tabs = [] then 0 else 1)"
  by (simp add: buildGroups_eq)

lemma buildGroups_nth_real:
  "i < length cgs \<Longrightarrow> tg_tabs (buildGroups now tabs cgs ! i) = tabsOfGroup (cg_id (cgs ! i)) tabs
     \<and> tg_chromeGroupId (buildGroups now tabs cgs ! i) = cg_id (cgs ! i)
     \<and> tg_id (buildGroups now tabs cgs ! i) = ''chrome-'' @ numberToString (cg_id (cgs ! i))"
  by (simp add: buildGroups_eq nth_append)

lemma buildGroups_nth_bucket:
  "tabsUngrouped tabs \<noteq> [] \<Longrightarrow>
     buildGroups now tabs cgs ! length cgs = ungroupedGroup (tabsUngrouped tabs)"
  by (simp add: buildGroups_eq nth_append)

lemma tabsUngrouped_empty: "tabsUngrouped tabs = [] \<longleftrightarrow> (\<forall>t\<in>set tabs. hasGroup t)"
  by (auto simp: tabsUngrouped_def filter_empty_conv)

lemma in_group_iff:
  assumes d: "distinct (map ct_id tabs)" and t: "t \<in> set tabs"
    and i: "i < length (buildGroups now tabs cgs)"
  shows "tabData t \<in> set (tg_tabs (buildGroups now tabs cgs ! i)) \<longleftrightarrow>
         (if i < length cgs then hasGroup t \<and> ct_groupId t = cg_id (cgs ! i) else \<not> hasGroup t)"
proof (cases "i < length cgs")
  case True
  then show ?thesis
    using buildGroups_nth_real [OF True, of now tabs] tabData_mem [OF d t]
    by (simp add: tabsOfGroup_def)
next
  case False
  with i have ne: "tabsUngrouped tabs \<noteq> []" and ieq: "i = length cgs"
    by (auto simp: buildGroups_length split: if_splits)
  show ?thesis
    using buildGroups_nth_bucket [OF ne, of now cgs] tabData_mem [OF d t] False ieq
    by (simp add: tabsUngrouped_def ungroupedGroup_def)
qed

lemma exactly_one_group:
  assumes d: "distinct (map ct_id tabs)" and dg: "distinct (map cg_id cgs)"
    and ex: "\<forall>t\<in>set tabs. hasGroup t \<longrightarrow> ct_groupId t \<in> set (map cg_id cgs)"
    and t: "t \<in> set tabs"
  shows "\<exists>!i. i < length (buildGroups now tabs cgs)
           \<and> tabData t \<in> set (tg_tabs (buildGroups now tabs cgs ! i))"
proof (cases "hasGroup t")
  case True
  with ex t have "ct_groupId t \<in> set (map cg_id cgs)" by blast
  then obtain j where j: "j < length cgs" "cg_id (cgs ! j) = ct_groupId t"
    by (metis in_set_conv_nth length_map nth_map)
  have uniq: "k = j" if "k < length cgs" "cg_id (cgs ! k) = ct_groupId t" for k
    using that j dg by (metis distinct_conv_nth length_map nth_map)
  show ?thesis
  proof (rule ex1I [of _ j])
    show "j < length (buildGroups now tabs cgs) \<and> tabData t \<in> set (tg_tabs (buildGroups now tabs cgs ! j))"
      using j True in_group_iff [OF d t, of j now cgs] by (simp add: buildGroups_length)
  next
    fix k assume k: "k < length (buildGroups now tabs cgs) \<and> tabData t \<in> set (tg_tabs (buildGroups now tabs cgs ! k))"
    then show "k = j"
      using in_group_iff [OF d t, of k now cgs] True uniq by (auto split: if_splits)
  qed
next
  case False
  with t have ne: "tabsUngrouped tabs \<noteq> []" by (auto simp: tabsUngrouped_empty)
  show ?thesis
  proof (rule ex1I [of _ "length cgs"])
    show "length cgs < length (buildGroups now tabs cgs) \<and> tabData t \<in> set (tg_tabs (buildGroups now tabs cgs ! length cgs))"
      using ne False in_group_iff [OF d t, of "length cgs" now cgs] by (simp add: buildGroups_length)
  next
    fix k assume k: "k < length (buildGroups now tabs cgs) \<and> tabData t \<in> set (tg_tabs (buildGroups now tabs cgs ! k))"
    then show "k = length cgs"
      using in_group_iff [OF d t, of k now cgs] False by (auto simp: buildGroups_length split: if_splits)
  qed
qed

lemma mset_filter_groups:
  assumes dg: "distinct (map cg_id cgs)"
  shows "mset (concat (map (\<lambda>cg. filter (\<lambda>t. hasGroup t \<and> ct_groupId t = cg_id cg) tabs) cgs))
         = mset (filter (\<lambda>t. hasGroup t \<and> ct_groupId t \<in> set (map cg_id cgs)) tabs)"
  using dg
proof (induction cgs)
  case Nil
  then show ?case by simp
next
  case (Cons c cs)
  have "mset (filter (\<lambda>t. hasGroup t \<and> ct_groupId t \<in> set (map cg_id (c # cs))) tabs)
      = mset (filter (\<lambda>t. hasGroup t \<and> ct_groupId t = cg_id c) tabs)
        + mset (filter (\<lambda>t. hasGroup t \<and> ct_groupId t \<in> set (map cg_id cs)) tabs)"
    using Cons.prems
    by (induction tabs) auto
  with Cons show ?case by simp
qed

lemma concat_map_map: "concat (map (\<lambda>x. map f (g x)) xs) = map f (concat (map g xs))"
  by (induction xs) simp_all

lemma mset_snapshot:
  assumes dg: "distinct (map cg_id cgs)"
    and ex: "\<forall>t\<in>set tabs. hasGroup t \<longrightarrow> ct_groupId t \<in> set (map cg_id cgs)"
  shows "mset (concat (map tg_tabs (buildGroups now tabs cgs))) = mset (map tabData tabs)"
proof -
  have f: "filter (\<lambda>t. hasGroup t \<and> ct_groupId t \<in> set (map cg_id cgs)) tabs = filter hasGroup tabs"
    using ex by (intro filter_cong) auto
  have c: "concat (map tg_tabs (buildGroups now tabs cgs))
         = map tabData (concat (map (\<lambda>cg. filter (\<lambda>t. hasGroup t \<and> ct_groupId t = cg_id cg) tabs) cgs))
           @ tabsUngrouped tabs"
    by (simp add: buildGroups_eq o_def tabsOfGroup_def concat_map_map ungroupedGroup_def)
  have g: "mset (concat (map (\<lambda>cg. filter (\<lambda>t. hasGroup t \<and> ct_groupId t = cg_id cg) tabs) cgs))
         = mset (filter hasGroup tabs)"
    using mset_filter_groups [OF dg, of tabs] by (simp only: f)
  have "mset (concat (map tg_tabs (buildGroups now tabs cgs)))
      = image_mset tabData (mset (filter hasGroup tabs)) + image_mset tabData (mset (filter (\<lambda>t. \<not> hasGroup t) tabs))"
    unfolding c mset_append mset_map g by (simp add: tabsUngrouped_def)
  also have "\<dots> = image_mset tabData (mset tabs)"
    by (metis image_mset_union mset_filter multiset_partition)
  finally show ?thesis by simp
qed

lemma chrome_id_not_ungrouped: "''chrome-'' @ x \<noteq> ''ungrouped''"
  by simp

lemma bucket_present_iff:
  "(\<exists>g\<in>set (buildGroups now tabs cgs). tg_id g = ''ungrouped'') \<longleftrightarrow> (\<exists>t\<in>set tabs. \<not> hasGroup t)"
  using tabsUngrouped_empty [of tabs]
  by (auto simp: buildGroups_eq ungroupedGroup_def)

lemma bucket_is_last:
  assumes "i < length (buildGroups now tabs cgs)" "tg_id (buildGroups now tabs cgs ! i) = ''ungrouped''"
  shows "Suc i = length (buildGroups now tabs cgs)
        \<and> buildGroups now tabs cgs ! i = ungroupedGroup (tabsUngrouped tabs)"
proof (cases "i < length cgs")
  case True
  from buildGroups_nth_real [OF True, of now tabs] assms(2) show ?thesis by simp
next
  case False
  with assms(1) have ne: "tabsUngrouped tabs \<noteq> []" and ieq: "i = length cgs"
    by (auto simp: buildGroups_length split: if_splits)
  then show ?thesis using buildGroups_nth_bucket [OF ne, of now cgs] by (simp add: buildGroups_length)
qed

lemma getTabGroups_eq:
  "getTabGroups now s =
     (Inr (buildGroups now (chrome_tabs s) (chrome_tabGroups s)),
      s\<lparr>cachedGroups := buildGroups now (chrome_tabs s) (chrome_tabGroups s)\<rparr>)"
  by (simp add: getTabGroups_def andThen_def tabs_query_currentWindow_def tabGroups_query_def
      gets_def modify_def succeed_def Let_def)

lemma snapshot_partition_consistent:
  assumes d: "distinct (map ct_id (chrome_tabs s))"
    and dg: "distinct (map cg_id (chrome_tabGroups s))"
    and ex: "\<forall>t\<in>set (chrome_tabs s). hasGroup t \<longrightarrow> ct_groupId t \<in> set (map cg_id (chrome_tabGroups s))"
  shows "\<exists>G. fst (getTabGroups now s) = Inr G
     \<and> (\<forall>t\<in>set (chrome_tabs s). \<exists>!i. i < length G \<and> tabData t \<in> set (tg_tabs (G ! i)))
     \<and> (\<forall>t\<in>set (chrome_tabs s). \<forall>i<length G. tabData t \<in> set (tg_tabs (G ! i)) \<longrightarrow>
           (if hasGroup t
            then i < length (chrome_tabGroups s) \<and> tg_chromeGroupId (G ! i) = ct_groupId t
               \<and> tg_id (G ! i) = ''chrome-'' @ numberToString (ct_groupId t)
            else tg_id (G ! i) = ''ungrouped''))
     \<and> mset (concat (map tg_tabs G)) = mset (map tabData (chrome_tabs s))
     \<and> ((\<exists>g\<in>set G. tg_id g = ''ungrouped'') \<longleftrightarrow> (\<exists>t\<in>set (chrome_tabs s). \<not> hasGroup t))
     \<and> (\<forall>i<length G. tg_id (G ! i) = ''ungrouped'' \<longrightarrow>
           Suc i = length G
         \<and> G ! i = \<lparr> tg_id = ''ungrouped'', tg_chromeGroupId = - 1, tg_name = ''Ungrouped'',
                     tg_color = Grey,
                     tg_tabs = map tabData (filter (\<lambda>t. \<not> hasGroup t) (chrome_tabs s)),
                     tg_collapsed = False, tg_createdAt = 0 \<rparr>)"
proof -
  let ?G = "buildGroups now (chrome_tabs s) (chrome_tabGroups s)"
  have 1: "fst (getTabGroups now s) = Inr ?G" by (simp add: getTabGroups_eq)
  have 2: "\<forall>t\<in>set (chrome_tabs s). \<exists>!i. i < length ?G \<and> tabData t \<in> set (tg_tabs (?G ! i))"
    using exactly_one_group [OF d dg ex] by blast
  have 3: "\<forall>t\<in>set (chrome_tabs s). \<forall>i<length ?G. tabData t \<in> set (tg_tabs (?G ! i)) \<longrightarrow>
           (if hasGroup t
            then i < length (chrome_tabGroups s) \<and> tg_chromeGroupId (?G ! i) = ct_groupId t
               \<and> tg_id (?G ! i) = ''chrome-'' @ numberToString (ct_groupId t)
            else tg_id (?G ! i) = ''ungrouped'')"
  proof (intro ballI allI impI)
    fix t i assume t: "t \<in> set (chrome_tabs s)" and i: "i < length ?G"
      and m: "tabData t \<in> set (tg_tabs (?G ! i))"
    show "if hasGroup t
            then i < length (chrome_tabGroups s) \<and> tg_chromeGroupId (?G ! i) = ct_groupId t
               \<and> tg_id (?G ! i) = ''chrome-'' @ numberToString (ct_groupId t)
            else tg_id (?G ! i) = ''ungrouped''"
    proof (cases "i < length (chrome_tabGroups s)")
      case True
      with in_group_iff [OF d t i] m buildGroups_nth_real [OF True, of now "chrome_tabs s"]
      show ?thesis by simp
    next
      case False
      with i have ne: "tabsUngrouped (chrome_tabs s) \<noteq> []" and ieq: "i = length (chrome_tabGroups s)"
        by (auto simp: buildGroups_length split: if_splits)
      with in_group_iff [OF d t i] m False buildGroups_nth_bucket [OF ne, of now "chrome_tabGroups s"]
      show ?thesis by (simp add: ungroupedGroup_def)
    qed
  qed
  have 4: "mset (concat (map tg_tabs ?G)) = mset (map tabData (chrome_tabs s))"
    by (rule mset_snapshot [OF dg ex])
  have 5: "(\<exists>g\<in>set ?G. tg_id g = ''ungrouped'') \<longleftrightarrow> (\<exists>t\<in>set (chrome_tabs s). \<not> hasGroup t)"
    by (rule bucket_present_iff)
  have 6: "\<forall>i<length ?G. tg_id (?G ! i) = ''ungrouped'' \<longrightarrow>
           Suc i = length ?G
         \<and> ?G ! i = \<lparr> tg_id = ''ungrouped'', tg_chromeGroupId = - 1, tg_name = ''Ungrouped'',
                     tg_color = Grey,
                     tg_tabs = map tabData (filter (\<lambda>t. \<not> hasGroup t) (chrome_tabs s)),
                     tg_collapsed = False, tg_createdAt = 0 \<rparr>"
    using bucket_is_last [of _ now "chrome_tabs s" "chrome_tabGroups s"]
    by (simp add: ungroupedGroup_def tabsUngrouped_def)
  from 1 2 3 4 5 6 show ?thesis by blast
qed

text \<open>
  C1. The snapshot has the synthetic bucket exactly when some tab has no group (the code's
  test: \<^verbatim>\<open>groupId\<close> is 0 or \<^verbatim>\<open>TAB_GROUP_ID_NONE\<close>); a group with id "ungrouped" is the last
  element and has name "Ungrouped", colour grey, provider id -1 and the ungrouped tabs.
  For tabs and groups as the provider holds them (tab ids distinct, group ids distinct,
  every grouped tab's group among the groups), every tab is in exactly one group of the
  snapshot: a tab with a group in the group with that provider id, any other tab in the
  bucket; and the groups together hold the tabs and nothing else.
\<close>

theorem C1_snapshot_partition:
  "\<exists>G. fst (getTabGroups now s) = Inr G
     \<and> ((\<exists>g\<in>set G. tg_id g = ''ungrouped'') \<longleftrightarrow> (\<exists>t\<in>set (chrome_tabs s). \<not> hasGroup t))
     \<and> (\<forall>i<length G. tg_id (G ! i) = ''ungrouped'' \<longrightarrow>
           Suc i = length G
         \<and> G ! i = \<lparr> tg_id = ''ungrouped'', tg_chromeGroupId = - 1, tg_name = ''Ungrouped'',
                     tg_color = Grey,
                     tg_tabs = map tabData (filter (\<lambda>t. \<not> hasGroup t) (chrome_tabs s)),
                     tg_collapsed = False, tg_createdAt = 0 \<rparr>)
     \<and> (distinct (map ct_id (chrome_tabs s))
          \<and> distinct (map cg_id (chrome_tabGroups s))
          \<and> (\<forall>t\<in>set (chrome_tabs s). hasGroup t \<longrightarrow>
                 ct_groupId t \<in> set (map cg_id (chrome_tabGroups s)))
        \<longrightarrow>
          (\<forall>t\<in>set (chrome_tabs s). \<exists>!i. i < length G \<and> tabData t \<in> set (tg_tabs (G ! i)))
        \<and> (\<forall>t\<in>set (chrome_tabs s). \<forall>i<length G. tabData t \<in> set (tg_tabs (G ! i)) \<longrightarrow>
              (if hasGroup t
               then i < length (chrome_tabGroups s) \<and> tg_chromeGroupId (G ! i) = ct_groupId t
                  \<and> tg_id (G ! i) = ''chrome-'' @ numberToString (ct_groupId t)
               else tg_id (G ! i) = ''ungrouped''))
        \<and> mset (concat (map tg_tabs G)) = mset (map tabData (chrome_tabs s)))"
proof -
  let ?G = "buildGroups now (chrome_tabs s) (chrome_tabGroups s)"
  have 1: "fst (getTabGroups now s) = Inr ?G" by (simp add: getTabGroups_eq)
  have 5: "(\<exists>g\<in>set ?G. tg_id g = ''ungrouped'') \<longleftrightarrow> (\<exists>t\<in>set (chrome_tabs s). \<not> hasGroup t)"
    by (rule bucket_present_iff)
  have 6: "\<forall>i<length ?G. tg_id (?G ! i) = ''ungrouped'' \<longrightarrow>
           Suc i = length ?G
         \<and> ?G ! i = \<lparr> tg_id = ''ungrouped'', tg_chromeGroupId = - 1, tg_name = ''Ungrouped'',
                     tg_color = Grey,
                     tg_tabs = map tabData (filter (\<lambda>t. \<not> hasGroup t) (chrome_tabs s)),
                     tg_collapsed = False, tg_createdAt = 0 \<rparr>"
    using bucket_is_last [of _ now "chrome_tabs s" "chrome_tabGroups s"]
    by (simp add: ungroupedGroup_def tabsUngrouped_def)
  have 7: "distinct (map ct_id (chrome_tabs s))
          \<and> distinct (map cg_id (chrome_tabGroups s))
          \<and> (\<forall>t\<in>set (chrome_tabs s). hasGroup t \<longrightarrow>
                 ct_groupId t \<in> set (map cg_id (chrome_tabGroups s)))
        \<longrightarrow>
          (\<forall>t\<in>set (chrome_tabs s). \<exists>!i. i < length ?G \<and> tabData t \<in> set (tg_tabs (?G ! i)))
        \<and> (\<forall>t\<in>set (chrome_tabs s). \<forall>i<length ?G. tabData t \<in> set (tg_tabs (?G ! i)) \<longrightarrow>
              (if hasGroup t
               then i < length (chrome_tabGroups s) \<and> tg_chromeGroupId (?G ! i) = ct_groupId t
                  \<and> tg_id (?G ! i) = ''chrome-'' @ numberToString (ct_groupId t)
               else tg_id (?G ! i) = ''ungrouped''))
        \<and> mset (concat (map tg_tabs ?G)) = mset (map tabData (chrome_tabs s))"
  proof (intro impI, elim conjE)
    assume d: "distinct (map ct_id (chrome_tabs s))"
      and dg: "distinct (map cg_id (chrome_tabGroups s))"
      and ex: "\<forall>t\<in>set (chrome_tabs s). hasGroup t \<longrightarrow>
                 ct_groupId t \<in> set (map cg_id (chrome_tabGroups s))"
    from snapshot_partition_consistent [OF d dg ex, of now] 1
    show "(\<forall>t\<in>set (chrome_tabs s). \<exists>!i. i < length ?G \<and> tabData t \<in> set (tg_tabs (?G ! i)))
        \<and> (\<forall>t\<in>set (chrome_tabs s). \<forall>i<length ?G. tabData t \<in> set (tg_tabs (?G ! i)) \<longrightarrow>
              (if hasGroup t
               then i < length (chrome_tabGroups s) \<and> tg_chromeGroupId (?G ! i) = ct_groupId t
                  \<and> tg_id (?G ! i) = ''chrome-'' @ numberToString (ct_groupId t)
               else tg_id (?G ! i) = ''ungrouped''))
        \<and> mset (concat (map tg_tabs ?G)) = mset (map tabData (chrome_tabs s))"
      by auto
  qed
  show ?thesis
    by (rule exI [of _ ?G]) (intro conjI 1 5 6 7)
qed

lemma exampleState_sel:
  "chrome_tabs exampleState = exampleTabs" "chrome_tabGroups exampleState = exampleGroups"
  by (simp_all add: exampleState_def initialState_def)


lemma exampleState_snapshot:
  "map tg_id (buildGroups 100 exampleTabs exampleGroups) = [''chrome-5'', ''chrome-7'', ''ungrouped'']
   \<and> map (\<lambda>g. map tab_id (tg_tabs g)) (buildGroups 100 exampleTabs exampleGroups) = [[1], [2, 4], [3]]"
  by code_simp

theorem C1_snapshot_partition_witness:
  "distinct (map ct_id (chrome_tabs exampleState))
   \<and> distinct (map cg_id (chrome_tabGroups exampleState))
   \<and> map ct_groupId (filter hasGroup (chrome_tabs exampleState)) = [5, 7, 7]
   \<and> map cg_id (chrome_tabGroups exampleState) = [5, 7]
   \<and> (\<exists>G. fst (getTabGroups 100 exampleState) = Inr G
        \<and> map tg_id G = [''chrome-5'', ''chrome-7'', ''ungrouped'']
        \<and> map (\<lambda>g. map tab_id (tg_tabs g)) G = [[1], [2, 4], [3]]
        \<and> mset (concat (map tg_tabs G)) = mset (map tabData (chrome_tabs exampleState)))"
proof -
  have h1: "distinct (map ct_id (chrome_tabs exampleState))"
    by (simp add: exampleState_sel exampleTabs_def mkTab_def)
  have h2: "distinct (map cg_id (chrome_tabGroups exampleState))"
    by (simp add: exampleState_sel exampleGroups_def)
  have h3: "map ct_groupId (filter hasGroup (chrome_tabs exampleState)) = [5, 7, 7]"
    by (simp add: exampleState_sel exampleTabs_def mkTab_def hasGroup_def TAB_GROUP_ID_NONE_def)
  have h4: "map cg_id (chrome_tabGroups exampleState) = [5, 7]"
    by (simp add: exampleState_sel exampleGroups_def)
  have h5: "\<forall>t\<in>set (chrome_tabs exampleState). hasGroup t \<longrightarrow>
              ct_groupId t \<in> set (map cg_id (chrome_tabGroups exampleState))"
    unfolding h4
    by (simp add: exampleState_sel exampleTabs_def mkTab_def hasGroup_def TAB_GROUP_ID_NONE_def)
  from C1_snapshot_partition [of 100 exampleState] h1 h2 h5 obtain G where
    G: "fst (getTabGroups 100 exampleState) = Inr G"
       "mset (concat (map tg_tabs G)) = mset (map tabData (chrome_tabs exampleState))"
    by blast
  from G(1) have "G = buildGroups 100 exampleTabs exampleGroups"
    by (simp add: getTabGroups_eq exampleState_sel)
  with G exampleState_snapshot h1 h2 h3 h4 show ?thesis by simp
qed

subsection \<open>Sequencing\<close>

lemma andThen_succeed [simp]: "andThen (succeed a) f = f a"
  by (simp add: andThen_def succeed_def)

lemma andThen_fail [simp]: "andThen (fail e) f = fail e"
  by (simp add: andThen_def fail_def)

lemma andThen_gets [simp]: "andThen (gets g) f s = f (g s) s"
  by (simp add: andThen_def gets_def)

lemma andThen_modify [simp]: "andThen (modify g) f s = f () (g s)"
  by (simp add: andThen_def modify_def)

lemma andThen_Inr: "m s = (Inr a, s') \<Longrightarrow> andThen m f s = f a s'"
  by (simp add: andThen_def)

lemma andThen_Inl: "m s = (Inl e, s') \<Longrightarrow> andThen m f s = (Inl e, s')"
  by (simp add: andThen_def)

lemma succeed_apply: "succeed a s = (Inr a, s)"
  by (simp add: succeed_def)

lemma fail_apply: "fail e s = (Inl e, s)"
  by (simp add: fail_def)

lemma gets_apply: "gets g s = (Inr (g s), s)"
  by (simp add: gets_def)

lemma modify_apply: "modify g s = (Inr (), g s)"
  by (simp add: modify_def)

lemmas action_apply = succeed_apply fail_apply gets_apply modify_apply

subsection \<open>Session retention\<close>

lemma readSessions_set [simp]:
  "readSessions (s\<lparr>chrome_storage := (chrome_storage s)\<lparr>sd_sessions := Some v\<rparr>\<rparr>) = v"
  by (simp add: readSessions_def)

lemma storage_saveSession_ok:
  assumes "0 \<le> maxSessions (readSettings s)"
  shows "\<exists>s'. storage_saveSession session s = (Inr (), s')
           \<and> sd_sessions (chrome_storage s')
               = Some (take (nat (maxSessions (readSettings s))) (session # readSessions s))
           \<and> readSettings s' = readSettings s"
  using assms
  by (simp add: storage_saveSession_def storage_getSessions_def storage_getSettings_def
      mutateSessions_def storage_setSessions_def action_apply readSettings_def)

lemma take_append_take: "take m (xs @ take m ys) = take m (xs @ ys)"
  by (simp add: min_def)

lemma saveAll:
  assumes "0 \<le> maxSessions (readSettings s)"
  shows "\<exists>s'. forEach ss storage_saveSession s = (Inr (), s')
           \<and> readSessions s' = (if ss = [] then readSessions s
                else take (nat (maxSessions (readSettings s))) (rev ss @ readSessions s))
           \<and> readSettings s' = readSettings s
           \<and> (ss = [] \<or> sd_sessions (chrome_storage s') = Some (readSessions s'))"
  using assms
proof (induction ss arbitrary: s)
  case Nil
  then show ?case by (simp add: succeed_def)
next
  case (Cons x xs)
  let ?m = "nat (maxSessions (readSettings s))"
  from storage_saveSession_ok [OF Cons.prems, of x] obtain s1 where
    s1: "storage_saveSession x s = (Inr (), s1)"
        "sd_sessions (chrome_storage s1) = Some (take ?m (x # readSessions s))"
        "readSettings s1 = readSettings s"
    by blast
  then have r1: "readSessions s1 = take ?m (x # readSessions s)"
    by (simp add: readSessions_def)
  from Cons.prems s1(3) have "0 \<le> maxSessions (readSettings s1)" by simp
  from Cons.IH [OF this] obtain s2 where
    s2: "forEach xs storage_saveSession s1 = (Inr (), s2)"
        "readSessions s2 = (if xs = [] then readSessions s1
                else take (nat (maxSessions (readSettings s1))) (rev xs @ readSessions s1))"
        "readSettings s2 = readSettings s1"
        "xs = [] \<or> sd_sessions (chrome_storage s2) = Some (readSessions s2)"
    by blast
  have st1: "sd_sessions (chrome_storage s1) = Some (readSessions s1)"
    using s1(2) r1 by simp
  have s2eq: "xs = [] \<Longrightarrow> s2 = s1"
    using s2(1) by (simp add: succeed_apply)
  have "forEach (x # xs) storage_saveSession s = (Inr (), s2)"
    using s1(1) s2(1) by (simp add: andThen_Inr)
  moreover have "readSessions s2 = take ?m (rev (x # xs) @ readSessions s)"
  proof (cases "xs = []")
    case True
    with s2(2) r1 show ?thesis by simp
  next
    case False
    with s2(2) r1 s1(3) have "readSessions s2 = take ?m (rev xs @ take ?m (x # readSessions s))"
      by simp
    then show ?thesis by (simp only: take_append_take) simp
  qed
  moreover have "sd_sessions (chrome_storage s2) = Some (readSessions s2)"
    using s2(4) s2eq st1 by auto
  ultimately show ?case using s2(3) s1(3) by simp
qed

text \<open>
  C3. With \<open>maxSessions \<ge> 1\<close>, one save stores the new session in front of the list that
  \<open>getSessions\<close> reads (the stored list, or the default array when the key is absent), cut
  to \<open>maxSessions\<close> entries. Saving \<open>maxSessions + 1\<close> sessions one after
  the other, from any state, succeeds and leaves exactly \<open>maxSessions\<close> entries: the sessions
  saved, latest first, without the first one saved.
\<close>

theorem C3_session_retention:
  assumes m: "1 \<le> maxSessions (readSettings s)"
    and len: "length ss = nat (maxSessions (readSettings s)) + 1"
  shows "(\<exists>s'. storage_saveSession session s = (Inr (), s')
            \<and> sd_sessions (chrome_storage s')
                = Some (take (nat (maxSessions (readSettings s))) (session # readSessions s)))
       \<and> (\<exists>s'. forEach ss storage_saveSession s = (Inr (), s')
            \<and> sd_sessions (chrome_storage s') = Some (readSessions s')
            \<and> length (readSessions s') = nat (maxSessions (readSettings s))
            \<and> readSessions s' = rev (tl ss)
            \<and> ss = hd ss # tl ss)"
proof -
  from m have m0: "0 \<le> maxSessions (readSettings s)" by simp
  let ?m = "nat (maxSessions (readSettings s))"
  from len have ne: "ss \<noteq> []" by auto
  then have hd_tl: "ss = hd ss # tl ss" by simp
  from len have ltl: "length (tl ss) = ?m" by simp
  from storage_saveSession_ok [OF m0, of session] have A:
    "\<exists>s'. storage_saveSession session s = (Inr (), s')
            \<and> sd_sessions (chrome_storage s') = Some (take ?m (session # readSessions s))"
    by blast
  from saveAll [OF m0, of ss] ne obtain s' where
    s': "forEach ss storage_saveSession s = (Inr (), s')"
        "readSessions s' = take ?m (rev ss @ readSessions s)"
        "sd_sessions (chrome_storage s') = Some (readSessions s')"
    by auto
  have "rev ss = rev (tl ss) @ [hd ss]" using hd_tl by (metis rev.simps(2))
  with s'(2) ltl have r: "readSessions s' = rev (tl ss)" by simp
  show ?thesis using A s' r ltl hd_tl by auto
qed


theorem C3_session_retention_witness:
  "maxSessions (readSettings retentionState) = 2
   \<and> readSessions retentionState = [mkSession ''old'']
   \<and> (\<exists>s'. forEach [mkSession ''a'', mkSession ''b'', mkSession ''c''] storage_saveSession retentionState
               = (Inr (), s')
          \<and> readSessions s' = [mkSession ''c'', mkSession ''b''])"
proof -
  have m: "maxSessions (readSettings retentionState) = 2"
    by (simp add: retentionState_def initialState_def twoSessionStorage_def emptyStorage_def
        readSettings_def)
  have r: "readSessions retentionState = [mkSession ''old'']"
    by (simp add: retentionState_def initialState_def twoSessionStorage_def emptyStorage_def
        readSessions_def)
  have h1: "1 \<le> maxSessions (readSettings retentionState)" using m by simp
  have h2: "length [mkSession ''a'', mkSession ''b'', mkSession ''c'']
              = nat (maxSessions (readSettings retentionState)) + 1"
    using m by simp
  from C3_session_retention [OF h1 h2] m r show ?thesis by auto
qed

subsection \<open>Actions that return, and what they keep\<close>

lemma returnsD: "returns m \<Longrightarrow> \<exists>a s'. m s = (Inr a, s')"
  by (simp add: returns_def)

lemma keepsD: "keeps f m \<Longrightarrow> m s = (r, s') \<Longrightarrow> f s' = f s"
  by (metis keeps_def snd_conv)

lemma returns_succeed: "returns (succeed a)"
  by (simp add: returns_def succeed_def)

lemma returns_gets: "returns (gets g)"
  by (simp add: returns_def gets_def)

lemma returns_modify: "returns (modify g)"
  by (simp add: returns_def modify_def)

lemma returns_andThen: "returns m \<Longrightarrow> (\<And>a. returns (g a)) \<Longrightarrow> returns (andThen m g)"
  unfolding returns_def andThen_def
  by (metis (no_types, lifting) old.prod.case old.sum.simps(6))

lemma returns_if: "returns a \<Longrightarrow> returns b \<Longrightarrow> returns (if c then a else b)"
  by simp

lemma returns_option: "returns a \<Longrightarrow> (\<And>x. returns (b x)) \<Longrightarrow> returns (case v of None \<Rightarrow> a | Some x \<Rightarrow> b x)"
  by (cases v) simp_all

lemma returns_Let: "returns (g v) \<Longrightarrow> returns (Let v g)"
  by simp

lemma returns_forEach: "(\<And>x. returns (body x)) \<Longrightarrow> returns (forEach xs body)"
  by (induction xs) (simp_all add: returns_succeed returns_andThen)

lemmas returns_intros = returns_succeed returns_gets returns_modify returns_andThen returns_if
  returns_option returns_Let returns_forEach

lemma keeps_succeed: "keeps f (succeed a)"
  by (simp add: keeps_def succeed_def)

lemma keeps_fail: "keeps f (fail e)"
  by (simp add: keeps_def fail_def)

lemma keeps_gets: "keeps f (gets g)"
  by (simp add: keeps_def gets_def)

lemma keeps_modify: "(\<And>s. f (g s) = f s) \<Longrightarrow> keeps f (modify g)"
  by (simp add: keeps_def modify_def)

lemma keeps_andThen: "keeps f m \<Longrightarrow> (\<And>a. keeps f (g a)) \<Longrightarrow> keeps f (andThen m g)"
  unfolding keeps_def andThen_def
  by (auto split: prod.split sum.split) (metis snd_conv)+

lemma keeps_if: "keeps f a \<Longrightarrow> keeps f b \<Longrightarrow> keeps f (if c then a else b)"
  by simp

lemma keeps_option: "keeps f a \<Longrightarrow> (\<And>x. keeps f (b x)) \<Longrightarrow> keeps f (case v of None \<Rightarrow> a | Some x \<Rightarrow> b x)"
  by (cases v) simp_all

lemma keeps_list: "keeps f a \<Longrightarrow> (\<And>x xs. keeps f (b x xs)) \<Longrightarrow> keeps f (case v of [] \<Rightarrow> a | x # xs \<Rightarrow> b x xs)"
  by (cases v) simp_all

lemma keeps_Let: "keeps f (g v) \<Longrightarrow> keeps f (Let v g)"
  by simp

lemma keeps_forEach: "(\<And>x. keeps f (body x)) \<Longrightarrow> keeps f (forEach xs body)"
  by (induction xs) (simp_all add: keeps_succeed keeps_andThen)

lemmas keeps_intros = keeps_succeed keeps_fail keeps_gets keeps_modify keeps_andThen keeps_if
  keeps_option keeps_list keeps_Let keeps_forEach

lemmas badge_defs = updateBadge_def badgeByCount_def getTabGroups_def storage_getSettings_def
  tabs_query_currentWindow_def tabGroups_query_def action_setBadgeText_def
  action_setBadgeBackgroundColor_def

lemma returns_updateBadge: "returns (updateBadge now)"
  unfolding badge_defs by (intro returns_intros)

lemma keeps_updateBadge:
  "keeps chrome_storage (updateBadge now)" "keeps chrome_tabs (updateBadge now)"
  "keeps chrome_tabGroups (updateBadge now)" "keeps activeGroupId (updateBadge now)"
  "keeps hiddenTabIds (updateBadge now)" "keeps suspendedTabs (updateBadge now)"
  "keeps chrome_alarms (updateBadge now)"
  unfolding badge_defs by (intro keeps_intros; simp)+

subsection \<open>Settings update\<close>

lemma storage_updateSettings_apply:
  "storage_updateSettings updates s =
     (Inr (spreadSettings (readSettings s) updates),
      s\<lparr>chrome_storage := (chrome_storage s)\<lparr>sd_settings := Some (spreadSettings (readSettings s) updates)\<rparr>\<rparr>)"
  by (simp add: storage_updateSettings_def storage_getSettings_def storage_setSettings_def
      Let_def action_apply)

lemmas alarm_defs = setupAutoSaveAlarm_def alarms_clear_def alarms_create_def

lemma returns_adjustToSettings: "returns (adjustToSettings now updates settings)"
  unfolding adjustToSettings_def alarm_defs
  by (intro returns_intros returns_updateBadge)

lemma keeps_adjustToSettings:
  "keeps chrome_storage (adjustToSettings now updates settings)"
  "keeps chrome_tabs (adjustToSettings now updates settings)"
  "keeps chrome_tabGroups (adjustToSettings now updates settings)"
  unfolding adjustToSettings_def alarm_defs
  by (intro keeps_intros keeps_updateBadge; simp)+

lemma updateSettingsCase_ok:
  "\<exists>s'. updateSettingsCase now updates s = (Inr (SettingsData (spreadSettings (readSettings s) updates)), s')
        \<and> chrome_storage s' = (chrome_storage s)\<lparr>sd_settings := Some (spreadSettings (readSettings s) updates)\<rparr>
        \<and> chrome_tabs s' = chrome_tabs s \<and> chrome_tabGroups s' = chrome_tabGroups s"
proof -
  let ?m = "spreadSettings (readSettings s) updates"
  let ?s1 = "s\<lparr>chrome_storage := (chrome_storage s)\<lparr>sd_settings := Some ?m\<rparr>\<rparr>"
  obtain u s2 where s2: "adjustToSettings now updates ?m ?s1 = (Inr u, s2)"
    using returnsD [OF returns_adjustToSettings] by blast
  have "updateSettingsCase now updates s = (Inr (SettingsData ?m), s2)"
    unfolding updateSettingsCase_def
    by (simp add: andThen_Inr [OF storage_updateSettings_apply]
        andThen_Inr [of "adjustToSettings now updates ?m", OF s2] succeed_apply)
  moreover have "chrome_storage s2 = chrome_storage ?s1" "chrome_tabs s2 = chrome_tabs ?s1"
    "chrome_tabGroups s2 = chrome_tabGroups ?s1"
    using keeps_adjustToSettings [THEN keepsD, OF s2] by auto
  ultimately show ?thesis by simp
qed

text \<open>
  C10. \<open>storage.updateSettings\<close> stores and returns the current settings overwritten by the
  keys of the payload: nothing else in the state changes, and every settings field whose key
  the payload lacks keeps its value. The \<^verbatim>\<open>UPDATE_SETTINGS\<close> command answers with success
  and that same value, and the store still holds it when the command is done.
\<close>

theorem C10_update_settings_frame:
  "\<exists>merged s' r s''.
     merged = spreadSettings (readSettings s) updates
   \<and> storage_updateSettings updates s = (Inr merged, s')
   \<and> s' = s\<lparr>chrome_storage := (chrome_storage s)\<lparr>sd_settings := Some merged\<rparr>\<rparr>
   \<and> readSettings s' = merged
   \<and> handleMessage pf now newId (UPDATE_SETTINGS updates) s = (r, s'')
   \<and> r = \<lparr> success = True, response_data = SettingsData merged, response_error = None \<rparr>
   \<and> readSettings s'' = merged
   \<and> (upd_viewOneGroupAtATime updates = None \<longrightarrow> viewOneGroupAtATime merged = viewOneGroupAtATime (readSettings s))
   \<and> (upd_autoSaveEnabled updates = None \<longrightarrow> autoSaveEnabled merged = autoSaveEnabled (readSettings s))
   \<and> (upd_autoSaveInterval updates = None \<longrightarrow> autoSaveInterval merged = autoSaveInterval (readSettings s))
   \<and> (upd_autoGroupByDomain updates = None \<longrightarrow> autoGroupByDomain_setting merged = autoGroupByDomain_setting (readSettings s))
   \<and> (upd_autoGroupThreshold updates = None \<longrightarrow> autoGroupThreshold merged = autoGroupThreshold (readSettings s))
   \<and> (upd_suspensionTimeout updates = None \<longrightarrow> suspensionTimeout merged = suspensionTimeout (readSettings s))
   \<and> (upd_suspensionWhitelist updates = None \<longrightarrow> suspensionWhitelist merged = suspensionWhitelist (readSettings s))
   \<and> (upd_showTabCountBadge updates = None \<longrightarrow> showTabCountBadge merged = showTabCountBadge (readSettings s))
   \<and> (upd_maxSessions updates = None \<longrightarrow> maxSessions merged = maxSessions (readSettings s))
   \<and> (upd_showUngroupedTabs updates = None \<longrightarrow> showUngroupedTabs merged = showUngroupedTabs (readSettings s))"
proof -
  let ?m = "spreadSettings (readSettings s) updates"
  obtain s'' where h: "updateSettingsCase now updates s = (Inr (SettingsData ?m), s'')"
      "chrome_storage s'' = (chrome_storage s)\<lparr>sd_settings := Some ?m\<rparr>"
    using updateSettingsCase_ok [of now updates s] by blast
  have hm: "handleMessage pf now newId (UPDATE_SETTINGS updates) s
      = (\<lparr> success = True, response_data = SettingsData ?m, response_error = None \<rparr>, s'')"
    by (simp add: handleMessage_def h(1))
  have r: "readSettings s'' = ?m" using h(2) by (simp add: readSettings_def)
  have frame: "(upd_viewOneGroupAtATime updates = None \<longrightarrow> viewOneGroupAtATime ?m = viewOneGroupAtATime (readSettings s))
   \<and> (upd_autoSaveEnabled updates = None \<longrightarrow> autoSaveEnabled ?m = autoSaveEnabled (readSettings s))
   \<and> (upd_autoSaveInterval updates = None \<longrightarrow> autoSaveInterval ?m = autoSaveInterval (readSettings s))
   \<and> (upd_autoGroupByDomain updates = None \<longrightarrow> autoGroupByDomain_setting ?m = autoGroupByDomain_setting (readSettings s))
   \<and> (upd_autoGroupThreshold updates = None \<longrightarrow> autoGroupThreshold ?m = autoGroupThreshold (readSettings s))
   \<and> (upd_suspensionTimeout updates = None \<longrightarrow> suspensionTimeout ?m = suspensionTimeout (readSettings s))
   \<and> (upd_suspensionWhitelist updates = None \<longrightarrow> suspensionWhitelist ?m = suspensionWhitelist (readSettings s))
   \<and> (upd_showTabCountBadge updates = None \<longrightarrow> showTabCountBadge ?m = showTabCountBadge (readSettings s))
   \<and> (upd_maxSessions updates = None \<longrightarrow> maxSessions ?m = maxSessions (readSettings s))
   \<and> (upd_showUngroupedTabs updates = None \<longrightarrow> showUngroupedTabs ?m = showUngroupedTabs (readSettings s))"
    by (simp add: spreadSettings_def spreadKey_def)
  have su: "storage_updateSettings updates s = (Inr ?m, s\<lparr>chrome_storage := (chrome_storage s)\<lparr>sd_settings := Some ?m\<rparr>\<rparr>)"
    by (rule storage_updateSettings_apply)
  have rs: "readSettings (s\<lparr>chrome_storage := (chrome_storage s)\<lparr>sd_settings := Some ?m\<rparr>\<rparr>) = ?m"
    by (simp add: readSettings_def)
  show ?thesis
    apply (rule exI [of _ ?m])
    apply (rule exI [of _ "s\<lparr>chrome_storage := (chrome_storage s)\<lparr>sd_settings := Some ?m\<rparr>\<rparr>"])
    apply (rule exI [of _ "\<lparr> success = True, response_data = SettingsData ?m, response_error = None \<rparr>"])
    apply (rule exI [of _ s''])
    apply (intro conjI refl su rs hm r)
    using frame apply simp_all
    done
qed

theorem C10_update_settings_frame_witness:
  "upd_showUngroupedTabs (noUpdates \<lparr> upd_maxSessions := Some 5, upd_showTabCountBadge := Some False \<rparr>) = None
   \<and> showUngroupedTabs (readSettings retentionState) = True
   \<and> maxSessions (readSettings retentionState) = 2
   \<and> (\<exists>merged s'.
        handleMessage chromePlatform 0 [] (UPDATE_SETTINGS (noUpdates \<lparr> upd_maxSessions := Some 5, upd_showTabCountBadge := Some False \<rparr>)) retentionState
          = (\<lparr> success = True, response_data = SettingsData merged, response_error = None \<rparr>, s')
      \<and> readSettings s' = merged
      \<and> maxSessions merged = 5 \<and> showTabCountBadge merged = False
      \<and> showUngroupedTabs merged = True \<and> autoSaveInterval merged = 30)"
proof -
  let ?u = "noUpdates \<lparr> upd_maxSessions := Some 5, upd_showTabCountBadge := Some False \<rparr>"
  have rs: "readSettings retentionState = DEFAULT_SETTINGS \<lparr> maxSessions := 2 \<rparr>"
    by (simp add: retentionState_def initialState_def twoSessionStorage_def emptyStorage_def
        readSettings_def)
  have u: "upd_showUngroupedTabs ?u = None" "upd_autoSaveInterval ?u = None"
    by (simp_all add: noUpdates_def)
  have m: "maxSessions (spreadSettings (readSettings retentionState) ?u) = 5"
      "showTabCountBadge (spreadSettings (readSettings retentionState) ?u) = False"
    by (simp_all add: spreadSettings_def spreadKey_def noUpdates_def)
  from C10_update_settings_frame [of retentionState ?u chromePlatform 0 "[]"] u m rs
  show ?thesis by (auto simp: DEFAULT_SETTINGS_def)
qed

subsection \<open>Focus controller\<close>

lemma expandAll_ids [simp]: "map cg_id (expandAll ids gs) = map cg_id gs"
  by (simp add: expandAll_def)

lemma expandAll_empty [simp]: "expandAll {} gs = gs"
  by (simp add: expandAll_def)

lemma expandAll_insert:
  "expandAll ids (map (\<lambda>g. if cg_id g = i then g\<lparr>cg_collapsed := False\<rparr> else g) gs)
     = expandAll (insert i ids) gs"
  by (simp add: expandAll_def)

lemma ids_update_collapsed:
  "map cg_id (map (\<lambda>g. if P g then g\<lparr>cg_collapsed := c\<rparr> else g) gs) = map cg_id gs"
  by (induction gs) auto

lemma hasTabGroup_update_collapsed:
  "hasTabGroup i (s\<lparr>chrome_tabGroups := map (\<lambda>g. if P g then g\<lparr>cg_collapsed := c\<rparr> else g) (chrome_tabGroups s)\<rparr>)
     = hasTabGroup i s"
proof -
  have "chrome_tabGroups (s\<lparr>chrome_tabGroups := map (\<lambda>g. if P g then g\<lparr>cg_collapsed := c\<rparr> else g) (chrome_tabGroups s)\<rparr>)
      = map (\<lambda>g. if P g then g\<lparr>cg_collapsed := c\<rparr> else g) (chrome_tabGroups s)"
    by simp
  then show ?thesis
    unfolding hasTabGroup_def by (simp only: ids_update_collapsed)
qed

lemma tabGroups_update_collapsed_apply:
  "hasTabGroup i s \<Longrightarrow>
   tabGroups_update_collapsed i c s =
     (Inr (), s\<lparr>chrome_tabGroups :=
                   map (\<lambda>g. if cg_id g = i then g\<lparr>cg_collapsed := c\<rparr> else g) (chrome_tabGroups s)\<rparr>)"
  by (simp add: tabGroups_update_collapsed_def)

lemma expand_loop:
  assumes "\<forall>g\<in>set gs. tg_chromeGroupId g > 0 \<longrightarrow> hasTabGroup (tg_chromeGroupId g) s"
  shows "forEach gs expandGroup s =
     (Inr (), s\<lparr>chrome_tabGroups :=
        expandAll {i. i > 0 \<and> i \<in> tg_chromeGroupId ` set gs} (chrome_tabGroups s)\<rparr>)"
  using assms
proof (induction gs arbitrary: s)
  case Nil
  then show ?case by (simp add: succeed_apply)
next
  case (Cons x xs)
  show ?case
  proof (cases "tg_chromeGroupId x > 0")
    case True
    let ?s1 = "s\<lparr>chrome_tabGroups :=
                   map (\<lambda>g. if cg_id g = tg_chromeGroupId x then g\<lparr>cg_collapsed := False\<rparr> else g) (chrome_tabGroups s)\<rparr>"
    from True Cons.prems have h: "hasTabGroup (tg_chromeGroupId x) s" by simp
    have step: "expandGroup x s = (Inr (), ?s1)"
      using True by (simp add: expandGroup_def tabGroups_update_collapsed_apply [OF h])
    have pre: "\<forall>g\<in>set xs. tg_chromeGroupId g > 0 \<longrightarrow> hasTabGroup (tg_chromeGroupId g) ?s1"
      using Cons.prems by (simp add: hasTabGroup_update_collapsed)
    have ids: "{i. i > 0 \<and> i \<in> tg_chromeGroupId ` set (x # xs)}
             = insert (tg_chromeGroupId x) {i. i > 0 \<and> i \<in> tg_chromeGroupId ` set xs}"
      using True by auto
    show ?thesis
      by (simp only: forEach.simps andThen_Inr [of "expandGroup x", OF step] Cons.IH [OF pre] ids)
         (simp add: expandAll_insert)
  next
    case False
    have step: "expandGroup x s = (Inr (), s)"
      using False by (simp add: expandGroup_def succeed_apply)
    have pre: "\<forall>g\<in>set xs. tg_chromeGroupId g > 0 \<longrightarrow> hasTabGroup (tg_chromeGroupId g) s"
      using Cons.prems by simp
    have ids: "{i. i > 0 \<and> i \<in> tg_chromeGroupId ` set (x # xs)}
             = {i. i > 0 \<and> i \<in> tg_chromeGroupId ` set xs}"
      using False by auto
    show ?thesis
      by (simp only: forEach.simps andThen_Inr [of "expandGroup x", OF step] Cons.IH [OF pre] ids)
  qed
qed

lemma snapshot_real_ids:
  "{i. i > 0 \<and> i \<in> tg_chromeGroupId ` set (buildGroups now tabs cgs)} = {i. i > 0 \<and> i \<in> cg_id ` set cgs}"
  by (auto simp: buildGroups_eq ungroupedGroup_def image_iff)

lemma showAllGroups_unfold:
  "showAllGroups now =
     andThen (getTabGroups now) (\<lambda>groups.
     andThen (forEach groups expandGroup) (\<lambda>_.
     andThen (modify (\<lambda>s. s\<lparr>hiddenTabIds := {}\<rparr>)) (\<lambda>_.
     andThen (modify (\<lambda>s. s\<lparr>activeGroupId := None\<rparr>)) (\<lambda>_.
     andThen (storage_setActiveGroupId None) (\<lambda>_.
     updateBadge now)))))"
  unfolding showAllGroups_def expandGroup_def ..

lemma showAllGroups_ok:
  "\<exists>s'. showAllGroups now s = (Inr (), s')
     \<and> chrome_tabGroups s' = expandAll {i. i > 0 \<and> i \<in> cg_id ` set (chrome_tabGroups s)} (chrome_tabGroups s)
     \<and> hiddenTabIds s' = {} \<and> activeGroupId s' = None
     \<and> sd_activeGroupId (chrome_storage s') = None"
proof -
  let ?G = "buildGroups now (chrome_tabs s) (chrome_tabGroups s)"
  let ?s1 = "s\<lparr>cachedGroups := ?G\<rparr>"
  let ?E = "expandAll {i. i > 0 \<and> i \<in> cg_id ` set (chrome_tabGroups s)} (chrome_tabGroups s)"
  let ?s2 = "?s1\<lparr>chrome_tabGroups := ?E\<rparr>"
  let ?s3 = "?s2\<lparr>hiddenTabIds := {}, activeGroupId := None,
                 chrome_storage := (chrome_storage s)\<lparr>sd_activeGroupId := None\<rparr>\<rparr>"
  have pre: "\<forall>g\<in>set ?G. tg_chromeGroupId g > 0 \<longrightarrow> hasTabGroup (tg_chromeGroupId g) ?s1"
    by (auto simp: buildGroups_eq ungroupedGroup_def hasTabGroup_def)
  have loop: "forEach ?G expandGroup ?s1 = (Inr (), ?s2)"
    using expand_loop [OF pre] by (simp add: snapshot_real_ids)
  obtain u s4 where s4: "updateBadge now ?s3 = (Inr u, s4)"
    using returnsD [OF returns_updateBadge] by blast
  have run: "showAllGroups now s = (Inr (), s4)"
    unfolding showAllGroups_unfold
    by (simp add: andThen_Inr [OF getTabGroups_eq] andThen_Inr [of "forEach ?G expandGroup", OF loop]
        storage_setActiveGroupId_def s4)
  have "chrome_tabGroups s4 = chrome_tabGroups ?s3" "hiddenTabIds s4 = hiddenTabIds ?s3"
    "activeGroupId s4 = activeGroupId ?s3" "chrome_storage s4 = chrome_storage ?s3"
    using keeps_updateBadge [THEN keepsD, OF s4] by auto
  with run show ?thesis by simp
qed

lemma keeps_tabs_update_active:
  "(\<And>s t. f (s\<lparr>chrome_tabs := t\<rparr>) = f s) \<Longrightarrow> keeps f (tabs_update_active i b)"
  by (simp add: keeps_def tabs_update_active_def)

lemma keeps_ids_update_collapsed:
  "keeps (\<lambda>s. map cg_id (chrome_tabGroups s)) (tabGroups_update_collapsed i c)"
  by (simp add: keeps_def tabGroups_update_collapsed_def ids_update_collapsed)

lemma keeps_ids_updateBadge: "keeps (\<lambda>s. map cg_id (chrome_tabGroups s)) (updateBadge now)"
  using keeps_updateBadge(3) [of now] by (simp add: keeps_def)

lemma keeps_ids_hideOtherGroups:
  "keeps (\<lambda>s. map cg_id (chrome_tabGroups s)) (hideOtherGroups now groupId)"
  unfolding hideOtherGroups_def hideGroup_def getTabGroups_def storage_getSettings_def
    tabs_query_currentWindow_def tabGroups_query_def storage_setActiveGroupId_def
  by (intro keeps_intros keeps_tabs_update_active keeps_ids_update_collapsed keeps_ids_updateBadge; simp)

text \<open>
  C2. From any state and for any group id, \<open>hideOtherGroups\<close> (whether it succeeds or throws
  "Group not found") followed by \<open>showAllGroups\<close>: \<open>showAllGroups\<close> succeeds, the provider has the
  same groups as before, every group with a positive provider id (the code's test for a real
  group) is expanded, \<open>hiddenTabIds\<close> is empty, and \<open>activeGroupId\<close> is null in memory and in
  the store.
\<close>

theorem C2_focus_unfocus:
  "\<exists>r1 s1 s2.
      hideOtherGroups now1 groupId s = (r1, s1)
    \<and> showAllGroups now2 s1 = (Inr (), s2)
    \<and> map cg_id (chrome_tabGroups s2) = map cg_id (chrome_tabGroups s)
    \<and> (\<forall>g\<in>set (chrome_tabGroups s2). cg_id g > 0 \<longrightarrow> \<not> cg_collapsed g)
    \<and> hiddenTabIds s2 = {}
    \<and> activeGroupId s2 = None
    \<and> sd_activeGroupId (chrome_storage s2) = None"
proof -
  obtain r1 s1 where h: "hideOtherGroups now1 groupId s = (r1, s1)"
    by (cases "hideOtherGroups now1 groupId s")
  from keepsD [OF keeps_ids_hideOtherGroups h]
  have ids1: "map cg_id (chrome_tabGroups s1) = map cg_id (chrome_tabGroups s)" .
  from showAllGroups_ok [of now2 s1] obtain s2 where
    u: "showAllGroups now2 s1 = (Inr (), s2)"
       "chrome_tabGroups s2 = expandAll {i. i > 0 \<and> i \<in> cg_id ` set (chrome_tabGroups s1)} (chrome_tabGroups s1)"
       "hiddenTabIds s2 = {}" "activeGroupId s2 = None"
       "sd_activeGroupId (chrome_storage s2) = None"
    by blast
  have ids2: "map cg_id (chrome_tabGroups s2) = map cg_id (chrome_tabGroups s)"
    using u(2) ids1 by simp
  have open_all: "\<forall>g\<in>set (chrome_tabGroups s2). cg_id g > 0 \<longrightarrow> \<not> cg_collapsed g"
    unfolding u(2) expandAll_def by auto
  from h u ids2 open_all show ?thesis by simp
qed

theorem C2_focus_unfocus_witness:
  "\<exists>r1 s1 s2.
      hideOtherGroups 1 ''chrome-5'' exampleState = (r1, s1)
    \<and> showAllGroups 2 s1 = (Inr (), s2)
    \<and> map cg_id (chrome_tabGroups s2) = [5, 7]
    \<and> map cg_collapsed (chrome_tabGroups exampleState) = [False, True]
    \<and> list_all (\<lambda>g. \<not> cg_collapsed g) (chrome_tabGroups s2)
    \<and> hiddenTabIds s2 = {}
    \<and> activeGroupId s2 = None
    \<and> sd_activeGroupId (chrome_storage s2) = None"
proof -
  from C2_focus_unfocus [of 1 "''chrome-5''" exampleState 2] obtain r1 s1 s2 where
    h: "hideOtherGroups 1 ''chrome-5'' exampleState = (r1, s1)"
       "showAllGroups 2 s1 = (Inr (), s2)"
       "map cg_id (chrome_tabGroups s2) = map cg_id (chrome_tabGroups exampleState)"
       "\<forall>g\<in>set (chrome_tabGroups s2). cg_id g > 0 \<longrightarrow> \<not> cg_collapsed g"
       "hiddenTabIds s2 = {}" "activeGroupId s2 = None"
       "sd_activeGroupId (chrome_storage s2) = None"
    by blast
  have ids: "map cg_id (chrome_tabGroups s2) = [5, 7]"
    using h(3) by (simp add: exampleState_sel exampleGroups_def)
  have pos: "cg_id g > 0" if "g \<in> set (chrome_tabGroups s2)" for g
  proof -
    from that have "cg_id g \<in> set (map cg_id (chrome_tabGroups s2))" by simp
    then show ?thesis unfolding ids by auto
  qed
  have all: "list_all (\<lambda>g. \<not> cg_collapsed g) (chrome_tabGroups s2)"
    using h(4) pos by (simp add: list_all_iff)
  have before: "map cg_collapsed (chrome_tabGroups exampleState) = [False, True]"
    by (simp add: exampleState_sel exampleGroups_def)
  show ?thesis
    by (rule exI [of _ r1], rule exI [of _ s1], rule exI [of _ s2])
       (intro conjI h(1) h(2) h(5) h(6) h(7) ids all before)
qed

subsection \<open>Duplicate detector\<close>

lemma Map_get_set: "Map_get (Map_set m k v) k' = (if k' = k then Some v else Map_get m k')"
  unfolding Map_get_def by (induction m) auto

lemma Map_set_keys: "set (map fst (Map_set m k v)) = insert k (set (map fst m))"
  by (induction m) auto

lemma Map_set_distinct: "distinct (map fst m) \<Longrightarrow> distinct (map fst (Map_set m k v))"
proof (induction m)
  case Nil
  then show ?case by simp
next
  case (Cons e m)
  have "set (map fst (Map_set m k v)) = insert k (set (map fst m))" by (rule Map_set_keys)
  with Cons show ?case by auto
qed

lemma Map_set_fresh: "k \<notin> set (map fst m) \<Longrightarrow> Map_set m k v = m @ [(k, v)]"
  by (induction m) auto

lemma urlMap_fold:
  assumes "distinct (map fst m)"
  shows "distinct (map fst (foldl (addToUrlMap pf ign) m ts))
       \<and> (\<forall>k. Map_get (foldl (addToUrlMap pf ign) m ts) k =
             (if urlBucket pf ign k ts = [] then Map_get m k
              else Some (mapGetOrEmpty (Map_get m) k @ urlBucket pf ign k ts)))"
  using assms
proof (induction ts arbitrary: m)
  case Nil
  then show ?case by (simp add: urlBucket_def)
next
  case (Cons t ts)
  let ?m1 = "addToUrlMap pf ign m t"
  have d1: "distinct (map fst ?m1)"
    using Cons.prems by (simp add: addToUrlMap_def Let_def Map_set_distinct)
  have g1: "Map_get ?m1 k = (if k = normalizeUrl pf (tab_url t) ign
               then Some (mapGetOrEmpty (Map_get m) k @ [t]) else Map_get m k)" for k
    by (simp add: addToUrlMap_def Let_def Map_get_set)
  from Cons.IH [OF d1] have ih:
    "distinct (map fst (foldl (addToUrlMap pf ign) ?m1 ts))"
    "\<And>k. Map_get (foldl (addToUrlMap pf ign) ?m1 ts) k =
             (if urlBucket pf ign k ts = [] then Map_get ?m1 k
              else Some (mapGetOrEmpty (Map_get ?m1) k @ urlBucket pf ign k ts))"
    by auto
  show ?case
  proof (intro conjI allI)
    show "distinct (map fst (foldl (addToUrlMap pf ign) m (t # ts)))" using ih(1) by simp
  next
    fix k
    show "Map_get (foldl (addToUrlMap pf ign) m (t # ts)) k =
             (if urlBucket pf ign k (t # ts) = [] then Map_get m k
              else Some (mapGetOrEmpty (Map_get m) k @ urlBucket pf ign k (t # ts)))"
      using ih(2) [of k] g1 [of k]
      by (auto simp: urlBucket_def mapGetOrEmpty_def)
  qed
qed

lemma foldl_concat: "foldl (\<lambda>a xs. foldl f a xs) a xss = foldl f a (concat xss)"
  by (induction xss arbitrary: a) simp_all

lemma buildUrlMap_eq:
  "buildUrlMap pf ign groups = foldl (addToUrlMap pf ign) [] (concat (map tg_tabs groups))"
proof -
  have "foldl (\<lambda>urlMap grp. foldl (addToUrlMap pf ign) urlMap (tg_tabs grp)) a groups
      = foldl (\<lambda>a xs. foldl (addToUrlMap pf ign) a xs) a (map tg_tabs groups)" for a
    by (induction groups arbitrary: a) simp_all
  then show ?thesis by (simp add: buildUrlMap_def foldl_concat)
qed

lemma onlyDuplicates_fold:
  assumes "distinct (map fst (d @ es))"
  shows "foldl (\<lambda>duplicates e. if length (snd e) > 1 then Map_set duplicates (fst e) (snd e) else duplicates) d es
       = d @ filter (\<lambda>e. length (snd e) > 1) es"
  using assms
proof (induction es arbitrary: d)
  case Nil
  then show ?case by simp
next
  case (Cons e es)
  from Cons.prems have fresh: "fst e \<notin> set (map fst d)" by auto
  show ?case
  proof (cases "length (snd e) > 1")
    case True
    have d': "distinct (map fst ((d @ [e]) @ es))" using Cons.prems by simp
    from True show ?thesis
      using Cons.IH [OF d'] by (simp add: Map_set_fresh [OF fresh])
  next
    case False
    have d': "distinct (map fst (d @ es))" using Cons.prems by simp
    from False show ?thesis using Cons.IH [OF d'] by simp
  qed
qed

lemma onlyDuplicates_eq:
  "distinct (map fst m) \<Longrightarrow> onlyDuplicates m = filter (\<lambda>e. length (snd e) > 1) m"
  using onlyDuplicates_fold [of "[]" m] by (simp add: onlyDuplicates_def)

lemma Map_get_filter:
  "distinct (map fst m) \<Longrightarrow>
   Map_get (filter (\<lambda>e. P (snd e)) m) k =
     (case Map_get m k of None \<Rightarrow> None | Some v \<Rightarrow> if P v then Some v else None)"
  unfolding Map_get_def
proof (induction m)
  case Nil
  then show ?case by simp
next
  case (Cons e m)
  then show ?case
    by (cases e) (auto split: option.splits dest: map_of_SomeD simp: rev_image_eqI)
qed

lemma findDuplicates_general:
  "\<exists>D s'. findDuplicates pf now ign s = (Inr D, s')
     \<and> distinct (map fst D)
     \<and> list_all (\<lambda>e. length (snd e) \<ge> 2) D
     \<and> (\<forall>k. Map_get D k =
          (let bucket = urlBucket pf ign k
                 (concat (map tg_tabs (buildGroups now (chrome_tabs s) (chrome_tabGroups s))))
           in if length bucket \<ge> 2 then Some bucket else None))"
proof -
  let ?G = "buildGroups now (chrome_tabs s) (chrome_tabGroups s)"
  let ?ts = "concat (map tg_tabs ?G)"
  let ?m = "buildUrlMap pf ign ?G"
  let ?D = "onlyDuplicates ?m"
  have run: "findDuplicates pf now ign s = (Inr ?D, s\<lparr>cachedGroups := ?G\<rparr>)"
    by (simp add: findDuplicates_def andThen_Inr [OF getTabGroups_eq] succeed_apply)
  from urlMap_fold [of "[]" pf ign ?ts] have
    dm: "distinct (map fst ?m)" and
    gm: "\<And>k. Map_get ?m k = (if urlBucket pf ign k ?ts = [] then None else Some (urlBucket pf ign k ?ts))"
    by (simp_all add: buildUrlMap_eq Map_get_def mapGetOrEmpty_def)
  have De: "?D = filter (\<lambda>e. length (snd e) > 1) ?m" by (rule onlyDuplicates_eq [OF dm])
  have dD: "distinct (map fst ?D)" unfolding De using dm by (simp add: distinct_map_filter)
  have lD: "list_all (\<lambda>e. length (snd e) \<ge> 2) ?D" unfolding De by (simp add: list_all_iff)
  have gD: "Map_get ?D k = (let bucket = urlBucket pf ign k ?ts
                             in if length bucket \<ge> 2 then Some bucket else None)" for k
    unfolding De Map_get_filter [OF dm, of "\<lambda>v. length v > 1"] gm
    by (auto simp: Let_def)
  from run dD lD gD show ?thesis by blast
qed

lemma normalizeUrl_parsed:
  "newURL pf u = Some p \<Longrightarrow>
   normalizeUrl pf u ign =
     stripTrailingSlash (url_protocol p @ ''//'' @ url_host p @ url_pathname p
                         @ (if ign then [] else url_search p))"
  by (simp add: normalizeUrl_def Let_def)

lemma findDuplicates_fst:
  "fst (findDuplicates pf now ign s)
     = Inr (onlyDuplicates (buildUrlMap pf ign (buildGroups now (chrome_tabs s) (chrome_tabGroups s))))"
  by (simp add: findDuplicates_def andThen_Inr [OF getTabGroups_eq] succeed_apply)

lemma duplicatesState_snapshot:
  "buildGroups now (chrome_tabs duplicatesState) (chrome_tabGroups duplicatesState)
     = [ungroupedGroup (map tabData duplicateTabs)]"
  by (simp add: buildGroups_eq duplicatesState_def initialState_def tabsUngrouped_def
      duplicateTabs_def mkTab_def hasGroup_def TAB_GROUP_ID_NONE_def)

lemma duplicates_ignoring_query:
  "onlyDuplicates (buildUrlMap chromePlatform True [ungroupedGroup (map tabData duplicateTabs)])
     = [(''https://a.com/x'', [tabData (duplicateTabs ! 0), tabData (duplicateTabs ! 1)])]"
  by code_simp

lemma duplicates_with_query:
  "onlyDuplicates (buildUrlMap chromePlatform False [ungroupedGroup (map tabData duplicateTabs)]) = []"
  by code_simp

lemma stripTrailingSlash_append_slash:
  "stripTrailingSlash (n @ ''/'') = n"
  by (simp add: stripTrailingSlash_def)

lemma stripTrailingSlash_no_slash:
  "n \<noteq> [] \<Longrightarrow> last n \<noteq> CHR ''/'' \<Longrightarrow> stripTrailingSlash n = n"
  by (simp add: stripTrailingSlash_def)

lemma normalizeUrl_trailing_slash:
  assumes p1: "newURL pf u1 = Some p1" and p2: "newURL pf u2 = Some p2"
    and pr: "url_protocol p2 = url_protocol p1" and h: "url_host p2 = url_host p1"
    and ne: "url_pathname p1 \<noteq> []" and l: "last (url_pathname p1) \<noteq> CHR ''/''"
    and pa: "url_pathname p2 = url_pathname p1 @ ''/''"
    and q: "ign \<or> (url_search p1 = [] \<and> url_search p2 = [])"
  shows "normalizeUrl pf u2 ign = url_protocol p1 @ ''//'' @ url_host p1 @ url_pathname p1"
    and "normalizeUrl pf u1 ign = url_protocol p1 @ ''//'' @ url_host p1 @ url_pathname p1"
proof -
  let ?n = "url_protocol p1 @ ''//'' @ url_host p1 @ url_pathname p1"
  from q have e1: "(if ign then [] else url_search p1) = []"
    and e2: "(if ign then [] else url_search p2) = []" by auto
  have "normalizeUrl pf u2 ign = stripTrailingSlash (?n @ ''/'')"
    by (simp add: normalizeUrl_parsed [OF p2] e2 pr h pa)
  then show "normalizeUrl pf u2 ign = ?n" by (simp only: stripTrailingSlash_append_slash)
  from ne l have "?n \<noteq> []" "last ?n \<noteq> CHR ''/''" by simp_all
  then have "stripTrailingSlash ?n = ?n" by (rule stripTrailingSlash_no_slash)
  then show "normalizeUrl pf u1 ign = ?n"
    by (simp add: normalizeUrl_parsed [OF p1] e1)
qed

lemma slashState_snapshot:
  "buildGroups now (chrome_tabs slashState) (chrome_tabGroups slashState)
     = [ungroupedGroup (map tabData slashTabs)]"
  by (simp add: buildGroups_eq slashState_def initialState_def tabsUngrouped_def
      slashTabs_def mkTab_def hasGroup_def TAB_GROUP_ID_NONE_def)

lemma slash_duplicates_with_query:
  "onlyDuplicates (buildUrlMap chromePlatform False [ungroupedGroup (map tabData slashTabs)])
     = [(''https://a.com/x'', [tabData (slashTabs ! 0), tabData (slashTabs ! 1)]),
        (''https://b.com'', [tabData (slashTabs ! 2), tabData (slashTabs ! 3)])]"
  by code_simp

lemma slash_duplicates_ignoring_query:
  "onlyDuplicates (buildUrlMap chromePlatform True [ungroupedGroup (map tabData slashTabs)])
     = [(''https://a.com/x'', [tabData (slashTabs ! 0), tabData (slashTabs ! 1), tabData (slashTabs ! 4)]),
        (''https://b.com'', [tabData (slashTabs ! 2), tabData (slashTabs ! 3)])]"
  by code_simp

text \<open>
  C4. \<open>findDuplicates\<close> returns a mapping (keys distinct) whose buckets all hold at least two
  tabs; the bucket of a key is exactly the snapshot's tabs whose normalized URL is that key,
  in the order met, and it is in the result exactly when it has two tabs or more. The
  normalized URL of a URL that parses is protocol, host and path, with the query string
  unless \<open>ignoreQueryParams\<close>, and when that string ends in a slash, without this one last
  character; a URL that does not parse is its own key. So two URLs that parse alike but for
  one slash at the end of the path, the query dropped or absent, have the same key, which is
  the string without that slash. For the three tabs of the example, ignoring the query gives the one bucket
  keyed \<^verbatim>\<open>https://a.com/x\<close> with both a.com tabs, and keeping it gives the empty mapping.
  For the tabs \<^verbatim>\<open>https://a.com/x/\<close>, \<^verbatim>\<open>https://a.com/x\<close>, \<^verbatim>\<open>https://b.com/\<close>, \<^verbatim>\<open>https://b.com\<close> and
  \<^verbatim>\<open>https://a.com/x/?q=1\<close>, keeping the query gives the buckets keyed \<^verbatim>\<open>https://a.com/x\<close> and
  \<^verbatim>\<open>https://b.com\<close>, each with its two tabs, and ignoring it adds the fifth tab to the first.
\<close>

theorem C4_find_duplicates:
  "(\<exists>D s'. findDuplicates pf now ign s = (Inr D, s')
      \<and> distinct (map fst D)
      \<and> list_all (\<lambda>e. length (snd e) \<ge> 2) D
      \<and> (\<forall>k. Map_get D k =
           (let bucket = filter (\<lambda>t. normalizeUrl pf (tab_url t) ign = k)
                  (concat (map tg_tabs (buildGroups now (chrome_tabs s) (chrome_tabGroups s))))
            in if length bucket \<ge> 2 then Some bucket else None)))
   \<and> (\<forall>u p. newURL pf u = Some p \<longrightarrow>
         normalizeUrl pf u ign =
           (let n = url_protocol p @ ''//'' @ url_host p @ url_pathname p
                    @ (if ign then [] else url_search p)
            in if n \<noteq> [] \<and> last n = CHR ''/'' then butlast n else n))
   \<and> (\<forall>u. newURL pf u = None \<longrightarrow> normalizeUrl pf u ign = u)
   \<and> (\<forall>u1 u2 p1 p2.
         newURL pf u1 = Some p1 \<and> newURL pf u2 = Some p2
         \<and> url_protocol p2 = url_protocol p1 \<and> url_host p2 = url_host p1
         \<and> url_pathname p1 \<noteq> [] \<and> last (url_pathname p1) \<noteq> CHR ''/''
         \<and> url_pathname p2 = url_pathname p1 @ ''/''
         \<and> (ign \<or> (url_search p1 = [] \<and> url_search p2 = []))
         \<longrightarrow> normalizeUrl pf u2 ign = url_protocol p1 @ ''//'' @ url_host p1 @ url_pathname p1
           \<and> normalizeUrl pf u1 ign = normalizeUrl pf u2 ign)
   \<and> map ct_url (chrome_tabs duplicatesState)
         = [Some ''https://a.com/x?x=1'', Some ''https://a.com/x?x=2'', Some ''https://b.com'']
   \<and> fst (findDuplicates chromePlatform now True duplicatesState)
         = Inr [(''https://a.com/x'',
                 [tabData (chrome_tabs duplicatesState ! 0), tabData (chrome_tabs duplicatesState ! 1)])]
   \<and> fst (findDuplicates chromePlatform now False duplicatesState) = Inr []
   \<and> map ct_url (chrome_tabs slashState)
         = [Some ''https://a.com/x/'', Some ''https://a.com/x'', Some ''https://b.com/'',
            Some ''https://b.com'', Some ''https://a.com/x/?q=1'']
   \<and> fst (findDuplicates chromePlatform now False slashState)
         = Inr [(''https://a.com/x'',
                 [tabData (chrome_tabs slashState ! 0), tabData (chrome_tabs slashState ! 1)]),
                (''https://b.com'',
                 [tabData (chrome_tabs slashState ! 2), tabData (chrome_tabs slashState ! 3)])]
   \<and> fst (findDuplicates chromePlatform now True slashState)
         = Inr [(''https://a.com/x'',
                 [tabData (chrome_tabs slashState ! 0), tabData (chrome_tabs slashState ! 1),
                  tabData (chrome_tabs slashState ! 4)]),
                (''https://b.com'',
                 [tabData (chrome_tabs slashState ! 2), tabData (chrome_tabs slashState ! 3)])]"
proof -
  have tabs: "chrome_tabs duplicatesState = duplicateTabs"
    by (simp add: duplicatesState_def initialState_def)
  have urls: "map ct_url (chrome_tabs duplicatesState)
         = [Some ''https://a.com/x?x=1'', Some ''https://a.com/x?x=2'', Some ''https://b.com'']"
    by (simp add: tabs duplicateTabs_def mkTab_def)
  have stabs: "chrome_tabs slashState = slashTabs"
    by (simp add: slashState_def initialState_def)
  have surls: "map ct_url (chrome_tabs slashState)
         = [Some ''https://a.com/x/'', Some ''https://a.com/x'', Some ''https://b.com/'',
            Some ''https://b.com'', Some ''https://a.com/x/?q=1'']"
    by (simp add: stabs slashTabs_def mkTab_def)
  have gen: "\<exists>D s'. findDuplicates pf now ign s = (Inr D, s')
      \<and> distinct (map fst D)
      \<and> list_all (\<lambda>e. length (snd e) \<ge> 2) D
      \<and> (\<forall>k. Map_get D k =
           (let bucket = filter (\<lambda>t. normalizeUrl pf (tab_url t) ign = k)
                  (concat (map tg_tabs (buildGroups now (chrome_tabs s) (chrome_tabGroups s))))
            in if length bucket \<ge> 2 then Some bucket else None))"
    using findDuplicates_general [of pf now ign s] by (simp add: urlBucket_def)
  have n1: "\<forall>u p. newURL pf u = Some p \<longrightarrow>
         normalizeUrl pf u ign =
           (let n = url_protocol p @ ''//'' @ url_host p @ url_pathname p
                    @ (if ign then [] else url_search p)
            in if n \<noteq> [] \<and> last n = CHR ''/'' then butlast n else n)"
    by (simp add: normalizeUrl_parsed stripTrailingSlash_def Let_def)
  have n2: "\<forall>u. newURL pf u = None \<longrightarrow> normalizeUrl pf u ign = u"
    by (simp add: normalizeUrl_def)
  have n3: "\<forall>u1 u2 p1 p2.
         newURL pf u1 = Some p1 \<and> newURL pf u2 = Some p2
         \<and> url_protocol p2 = url_protocol p1 \<and> url_host p2 = url_host p1
         \<and> url_pathname p1 \<noteq> [] \<and> last (url_pathname p1) \<noteq> CHR ''/''
         \<and> url_pathname p2 = url_pathname p1 @ ''/''
         \<and> (ign \<or> (url_search p1 = [] \<and> url_search p2 = []))
         \<longrightarrow> normalizeUrl pf u2 ign = url_protocol p1 @ ''//'' @ url_host p1 @ url_pathname p1
           \<and> normalizeUrl pf u1 ign = normalizeUrl pf u2 ign"
  proof (intro allI impI)
    fix u1 u2 p1 p2
    assume a: "newURL pf u1 = Some p1 \<and> newURL pf u2 = Some p2
         \<and> url_protocol p2 = url_protocol p1 \<and> url_host p2 = url_host p1
         \<and> url_pathname p1 \<noteq> [] \<and> last (url_pathname p1) \<noteq> CHR ''/''
         \<and> url_pathname p2 = url_pathname p1 @ ''/''
         \<and> (ign \<or> (url_search p1 = [] \<and> url_search p2 = []))"
    then have k: "normalizeUrl pf u2 ign = url_protocol p1 @ ''//'' @ url_host p1 @ url_pathname p1"
       "normalizeUrl pf u1 ign = url_protocol p1 @ ''//'' @ url_host p1 @ url_pathname p1"
      using normalizeUrl_trailing_slash [of pf u1 p1 u2 p2 ign] by simp_all
    then show "normalizeUrl pf u2 ign = url_protocol p1 @ ''//'' @ url_host p1 @ url_pathname p1
           \<and> normalizeUrl pf u1 ign = normalizeUrl pf u2 ign"
      by simp
  qed
  have c1: "fst (findDuplicates chromePlatform now True duplicatesState)
         = Inr [(''https://a.com/x'',
                 [tabData (chrome_tabs duplicatesState ! 0), tabData (chrome_tabs duplicatesState ! 1)])]"
    unfolding findDuplicates_fst duplicatesState_snapshot
    by (simp only: duplicates_ignoring_query tabs)
  have c2: "fst (findDuplicates chromePlatform now False duplicatesState) = Inr []"
    unfolding findDuplicates_fst duplicatesState_snapshot
    by (simp only: duplicates_with_query)
  have c3: "fst (findDuplicates chromePlatform now False slashState)
         = Inr [(''https://a.com/x'',
                 [tabData (chrome_tabs slashState ! 0), tabData (chrome_tabs slashState ! 1)]),
                (''https://b.com'',
                 [tabData (chrome_tabs slashState ! 2), tabData (chrome_tabs slashState ! 3)])]"
    unfolding findDuplicates_fst slashState_snapshot
    by (simp only: slash_duplicates_with_query stabs)
  have c4: "fst (findDuplicates chromePlatform now True slashState)
         = Inr [(''https://a.com/x'',
                 [tabData (chrome_tabs slashState ! 0), tabData (chrome_tabs slashState ! 1),
                  tabData (chrome_tabs slashState ! 4)]),
                (''https://b.com'',
                 [tabData (chrome_tabs slashState ! 2), tabData (chrome_tabs slashState ! 3)])]"
    unfolding findDuplicates_fst slashState_snapshot
    by (simp only: slash_duplicates_ignoring_query stabs)
  from gen n1 n2 n3 urls c1 c2 surls c3 c4 show ?thesis by (intro conjI)
qed

lemma slash_bucket:
  "filter (\<lambda>t. normalizeUrl chromePlatform (tab_url t) False = ''https://a.com/x'')
     (concat (map tg_tabs [ungroupedGroup (map tabData slashTabs)]))
   = [tabData (slashTabs ! 0), tabData (slashTabs ! 1)]"
  by code_simp

lemma slash_parse:
  "newURL chromePlatform ''https://a.com/x''
     = Some \<lparr> url_protocol = ''https:'', url_host = ''a.com'', url_hostname = ''a.com'',
              url_pathname = ''/x'', url_search = [] \<rparr>"
  "newURL chromePlatform ''https://a.com/x/''
     = Some \<lparr> url_protocol = ''https:'', url_host = ''a.com'', url_hostname = ''a.com'',
              url_pathname = ''/x/'', url_search = [] \<rparr>"
  "newURL chromePlatform ''https://b.com''
     = Some \<lparr> url_protocol = ''https:'', url_host = ''b.com'', url_hostname = ''b.com'',
              url_pathname = ''/'', url_search = [] \<rparr>"
  "newURL chromePlatform ''https://a.com/x/?q=1''
     = Some \<lparr> url_protocol = ''https:'', url_host = ''a.com'', url_hostname = ''a.com'',
              url_pathname = ''/x/'', url_search = ''?q=1'' \<rparr>"
  "newURL chromePlatform ''not a url'' = None"
  by code_simp+

theorem C4_find_duplicates_witness:
  "newURL chromePlatform ''https://b.com''
     = Some \<lparr> url_protocol = ''https:'', url_host = ''b.com'', url_hostname = ''b.com'',
              url_pathname = ''/'', url_search = [] \<rparr>
   \<and> normalizeUrl chromePlatform ''https://b.com'' False = ''https://b.com''
   \<and> newURL chromePlatform ''https://a.com/x/?q=1''
     = Some \<lparr> url_protocol = ''https:'', url_host = ''a.com'', url_hostname = ''a.com'',
              url_pathname = ''/x/'', url_search = ''?q=1'' \<rparr>
   \<and> normalizeUrl chromePlatform ''https://a.com/x/?q=1'' False = ''https://a.com/x/?q=1''
   \<and> newURL chromePlatform ''not a url'' = None
   \<and> normalizeUrl chromePlatform ''not a url'' False = ''not a url''
   \<and> newURL chromePlatform ''https://a.com/x''
     = Some \<lparr> url_protocol = ''https:'', url_host = ''a.com'', url_hostname = ''a.com'',
              url_pathname = ''/x'', url_search = [] \<rparr>
   \<and> newURL chromePlatform ''https://a.com/x/''
     = Some \<lparr> url_protocol = ''https:'', url_host = ''a.com'', url_hostname = ''a.com'',
              url_pathname = ''/x/'', url_search = [] \<rparr>
   \<and> normalizeUrl chromePlatform ''https://a.com/x/'' False = ''https://a.com/x''
   \<and> normalizeUrl chromePlatform ''https://a.com/x'' False = ''https://a.com/x''
   \<and> (\<exists>D s'. findDuplicates chromePlatform 0 False slashState = (Inr D, s')
        \<and> Map_get D ''https://a.com/x'' = Some [tabData (slashTabs ! 0), tabData (slashTabs ! 1)])"
proof -
  note t = C4_find_duplicates [of chromePlatform 0 False slashState]
  note t1 = t [THEN conjunct1]
  note t2 = t [THEN conjunct2, THEN conjunct1]
  note t3 = t [THEN conjunct2, THEN conjunct2, THEN conjunct1]
  note t4 = t [THEN conjunct2, THEN conjunct2, THEN conjunct2, THEN conjunct1]
  let ?p1 = "\<lparr> url_protocol = ''https:'', url_host = ''a.com'', url_hostname = ''a.com'',
              url_pathname = ''/x'', url_search = [] \<rparr>"
  let ?p2 = "\<lparr> url_protocol = ''https:'', url_host = ''a.com'', url_hostname = ''a.com'',
              url_pathname = ''/x/'', url_search = [] \<rparr>"
  from t1 obtain D s' where
    D: "findDuplicates chromePlatform 0 False slashState = (Inr D, s')"
       "\<forall>k. Map_get D k =
           (let bucket = filter (\<lambda>t. normalizeUrl chromePlatform (tab_url t) False = k)
                  (concat (map tg_tabs (buildGroups 0 (chrome_tabs slashState) (chrome_tabGroups slashState))))
            in if length bucket \<ge> 2 then Some bucket else None)"
    by (elim exE conjE)
  have bk: "filter (\<lambda>t. normalizeUrl chromePlatform (tab_url t) False = ''https://a.com/x'')
              (concat (map tg_tabs (buildGroups 0 (chrome_tabs slashState) (chrome_tabGroups slashState))))
            = [tabData (slashTabs ! 0), tabData (slashTabs ! 1)]"
    unfolding slashState_snapshot by (rule slash_bucket)
  have le: "(let bucket = [a, b] in if length bucket \<ge> 2 then Some bucket else None) = Some [a, b]"
    for a b :: Tab
    by (simp add: Let_def)
  from D(2) have "Map_get D ''https://a.com/x'' =
           (let bucket = filter (\<lambda>t. normalizeUrl chromePlatform (tab_url t) False = ''https://a.com/x'')
                  (concat (map tg_tabs (buildGroups 0 (chrome_tabs slashState) (chrome_tabGroups slashState))))
            in if length bucket \<ge> 2 then Some bucket else None)"
    by (rule spec)
  also have "\<dots> = (let bucket = [tabData (slashTabs ! 0), tabData (slashTabs ! 1)]
            in if length bucket \<ge> 2 then Some bucket else None)"
    by (simp only: bk)
  also have "\<dots> = Some [tabData (slashTabs ! 0), tabData (slashTabs ! 1)]"
    by (rule le)
  finally have g: "Map_get D ''https://a.com/x'' = Some [tabData (slashTabs ! 0), tabData (slashTabs ! 1)]" .
  from t2 [rule_format, OF slash_parse(3)]
  have b: "normalizeUrl chromePlatform ''https://b.com'' False = ''https://b.com''"
    by (simp add: Let_def)
  from t2 [rule_format, OF slash_parse(4)]
  have q: "normalizeUrl chromePlatform ''https://a.com/x/?q=1'' False = ''https://a.com/x/?q=1''"
    by (simp add: Let_def)
  from t3 [rule_format, OF slash_parse(5)]
  have u: "normalizeUrl chromePlatform ''not a url'' False = ''not a url''" .
  note t4' = t4 [THEN spec [of _ "''https://a.com/x''"], THEN spec [of _ "''https://a.com/x/''"],
                 THEN spec [of _ ?p1], THEN spec [of _ ?p2], THEN mp]
  have pre: "newURL chromePlatform ''https://a.com/x'' = Some ?p1
         \<and> newURL chromePlatform ''https://a.com/x/'' = Some ?p2
         \<and> url_protocol ?p2 = url_protocol ?p1 \<and> url_host ?p2 = url_host ?p1
         \<and> url_pathname ?p1 \<noteq> [] \<and> last (url_pathname ?p1) \<noteq> CHR ''/''
         \<and> url_pathname ?p2 = url_pathname ?p1 @ ''/''
         \<and> (False \<or> (url_search ?p1 = [] \<and> url_search ?p2 = []))"
    by (simp add: slash_parse(1,2))
  from t4' [OF pre]
  have i1: "normalizeUrl chromePlatform ''https://a.com/x/'' False = ''https://a.com/x''"
    and i2: "normalizeUrl chromePlatform ''https://a.com/x'' False
               = normalizeUrl chromePlatform ''https://a.com/x/'' False"
    by simp_all
  from i2 have i3: "normalizeUrl chromePlatform ''https://a.com/x'' False = ''https://a.com/x''"
    by (simp only: i1)
  have e: "\<exists>D s'. findDuplicates chromePlatform 0 False slashState = (Inr D, s')
        \<and> Map_get D ''https://a.com/x'' = Some [tabData (slashTabs ! 0), tabData (slashTabs ! 1)]"
    by (rule exI [of _ D], rule exI [of _ s']) (intro conjI D(1) g)
  show ?thesis
    by (intro conjI slash_parse(3) b slash_parse(4) q slash_parse(5) u slash_parse(1) slash_parse(2) i1 i3 e)
qed

subsection \<open>Domain clustering\<close>

lemma bucketChecked_cases:
  "bucketChecked pf m t =
     (case checkedOrigin pf t of
        None \<Rightarrow> m
      | Some d \<Rightarrow> addToDomainMap pf m t (the (ct_url t)))"
  by (auto simp: bucketChecked_def checkedOrigin_def isSystemUrl_def originOf_def addToDomainMap_def
      split: option.splits)

lemma addToDomainMap_get:
  assumes "originOf pf u = Some d"
  shows "distinct (map fst m) \<Longrightarrow> distinct (map fst (addToDomainMap pf m t u))"
    and "entryIds (Map_get (addToDomainMap pf m t u) k)
           = (if k = d then entryIds (Map_get m d) @ [ct_id t] else entryIds (Map_get m k))"
    and "Map_get (addToDomainMap pf m t u) d \<noteq> None"
    and "k \<noteq> d \<Longrightarrow> Map_get (addToDomainMap pf m t u) k = Map_get m k"
  using assms
  by (auto simp: addToDomainMap_def originOf_def Let_def Map_set_distinct Map_get_set entryIds_def
      split: option.splits)

lemma domainMap_fold:
  assumes "distinct (map fst m)"
  shows "distinct (map fst (foldl (bucketChecked pf) m ts))
       \<and> (\<forall>d. entryIds (Map_get (foldl (bucketChecked pf) m ts) d)
               = entryIds (Map_get m d) @ map ct_id (filter (\<lambda>t. checkedOrigin pf t = Some d) ts))
       \<and> (\<forall>d. Map_get (foldl (bucketChecked pf) m ts) d = None \<longleftrightarrow>
               Map_get m d = None \<and> filter (\<lambda>t. checkedOrigin pf t = Some d) ts = [])"
  using assms
proof (induction ts arbitrary: m)
  case Nil
  then show ?case by simp
next
  case (Cons t ts)
  show ?case
  proof (cases "checkedOrigin pf t")
    case None
    then have "bucketChecked pf m t = m" by (simp add: bucketChecked_cases)
    with Cons None show ?thesis by simp
  next
    case (Some d0)
    let ?m1 = "addToDomainMap pf m t (the (ct_url t))"
    from Some have o: "originOf pf (the (ct_url t)) = Some d0"
      by (simp add: checkedOrigin_def split: if_splits)
    have b: "bucketChecked pf m t = ?m1" using Some by (simp add: bucketChecked_cases)
    note A = addToDomainMap_get [OF o, where m = m and t = t]
    from Cons.IH [OF A(1) [OF Cons.prems]] have ih:
      "distinct (map fst (foldl (bucketChecked pf) ?m1 ts))"
      "\<And>d. entryIds (Map_get (foldl (bucketChecked pf) ?m1 ts) d)
               = entryIds (Map_get ?m1 d) @ map ct_id (filter (\<lambda>t. checkedOrigin pf t = Some d) ts)"
      "\<And>d. Map_get (foldl (bucketChecked pf) ?m1 ts) d = None \<longleftrightarrow>
               Map_get ?m1 d = None \<and> filter (\<lambda>t. checkedOrigin pf t = Some d) ts = []"
      by auto
    show ?thesis
    proof (intro conjI allI)
      show "distinct (map fst (foldl (bucketChecked pf) m (t # ts)))" using ih(1) b by simp
    next
      fix d
      show "entryIds (Map_get (foldl (bucketChecked pf) m (t # ts)) d)
               = entryIds (Map_get m d) @ map ct_id (filter (\<lambda>t. checkedOrigin pf t = Some d) (t # ts))"
        using ih(2) [of d] A(2) [of d] b Some by simp
    next
      fix d
      show "Map_get (foldl (bucketChecked pf) m (t # ts)) d = None \<longleftrightarrow>
               Map_get m d = None \<and> filter (\<lambda>t. checkedOrigin pf t = Some d) (t # ts) = []"
        using ih(3) [of d] A(3) A(4) [of d] b Some by (cases "d = d0") auto
    qed
  qed
qed

lemma foldl_max_ge: "a \<le> foldl max a xs \<and> (\<forall>x\<in>set xs. x \<le> foldl max (a::int) xs)"
proof (induction xs arbitrary: a)
  case Nil
  then show ?case by simp
next
  case (Cons x xs)
  from Cons [of "max a x"] show ?case by auto
qed

lemma freshGroupId_new:
  "freshGroupId s \<notin> set (map cg_id (chrome_tabGroups s))"
  "freshGroupId s \<notin> set (map ct_groupId (chrome_tabs s))"
  "freshGroupId s > 0"
proof -
  let ?M = "foldl max 0 (map cg_id (chrome_tabGroups s) @ map ct_groupId (chrome_tabs s))"
  from foldl_max_ge [of 0 "map cg_id (chrome_tabGroups s) @ map ct_groupId (chrome_tabs s)"]
  have M: "0 \<le> ?M" "\<And>x. x \<in> set (map cg_id (chrome_tabGroups s)) \<Longrightarrow> x \<le> ?M"
    "\<And>x. x \<in> set (map ct_groupId (chrome_tabs s)) \<Longrightarrow> x \<le> ?M"
    by auto
  show "freshGroupId s \<notin> set (map cg_id (chrome_tabGroups s))"
    using M(2) [of "1 + ?M"] unfolding freshGroupId_def by auto
  show "freshGroupId s \<notin> set (map ct_groupId (chrome_tabs s))"
    using M(3) [of "1 + ?M"] unfolding freshGroupId_def by auto
  show "freshGroupId s > 0" using M(1) unfolding freshGroupId_def by simp
qed

lemma groupDomain_apply:
  assumes "ids \<noteq> []" "list_all (\<lambda>i. hasTab i s) ids" "de_tabIds e = ids"
  shows "groupDomain d e s =
     (Inr (), s\<lparr>chrome_tabs := map (\<lambda>t. if ct_id t \<in> set ids then t\<lparr>ct_groupId := freshGroupId s\<rparr> else t)
                                 (chrome_tabs s),
                chrome_tabGroups := chrome_tabGroups s @
                   [\<lparr>cg_id = freshGroupId s, cg_title = Some d,
                     cg_color = getColorFromDomainHash d, cg_collapsed = False\<rparr>]\<rparr>)"
proof -
  let ?g = "freshGroupId s"
  let ?s1 = "s\<lparr>chrome_tabs := map (\<lambda>t. if ct_id t \<in> set ids then t\<lparr>ct_groupId := ?g\<rparr> else t) (chrome_tabs s),
               chrome_tabGroups := chrome_tabGroups s @
                   [\<lparr>cg_id = ?g, cg_title = None, cg_color = Grey, cg_collapsed = False\<rparr>]\<rparr>"
  have a: "tabs_group ids s = (Inr ?g, ?s1)"
    using assms by (simp add: tabs_group_def Let_def)
  have same: "map (\<lambda>g. if cg_id g = ?g then g\<lparr>cg_title := Some d, cg_color := c\<rparr> else g) (chrome_tabGroups s)
            = chrome_tabGroups s" for c
  proof (intro map_idI)
    fix x assume "x \<in> set (chrome_tabGroups s)"
    then have "cg_id x \<in> set (map cg_id (chrome_tabGroups s))" by simp
    with freshGroupId_new(1) [of s] have "cg_id x \<noteq> ?g" by metis
    then show "(if cg_id x = ?g then x\<lparr>cg_title := Some d, cg_color := c\<rparr> else x) = x" by simp
  qed
  have b: "tabGroups_update_title_color ?g d c ?s1 =
     (Inr (), ?s1\<lparr>chrome_tabGroups := chrome_tabGroups s @
                   [\<lparr>cg_id = ?g, cg_title = Some d, cg_color = c, cg_collapsed = False\<rparr>]\<rparr>)" for c
    by (simp add: tabGroups_update_title_color_def hasTabGroup_def same)
  show ?thesis
    unfolding groupDomain_def Let_def assms(3) getColorFromFaviconWithFallback_def
    by (simp add: andThen_Inr [of "tabs_group ids", OF a] b)
qed

lemma groupDomain_one_group:
  "\<exists>r s'. groupDomain d e s = (r, s')
     \<and> (chrome_tabGroups s' = chrome_tabGroups s \<or> (\<exists>g. chrome_tabGroups s' = chrome_tabGroups s @ [g]))"
proof (cases "de_tabIds e \<noteq> [] \<and> list_all (\<lambda>i. hasTab i s) (de_tabIds e)")
  case True
  then show ?thesis using groupDomain_apply [of "de_tabIds e" s e d] by simp
next
  case False
  then have "tabs_group (de_tabIds e) s = (Inl (ProviderError ''No tab with id''), s)"
    by (auto simp: tabs_group_def)
  then have "groupDomain d e s = (Inl (ProviderError ''No tab with id''), s)"
    unfolding groupDomain_def Let_def by (rule andThen_Inl)
  then show ?thesis by simp
qed

lemma checkDomains_one_group:
  "\<exists>r s'. checkDomains target th m s = (r, s')
     \<and> (chrome_tabGroups s' = chrome_tabGroups s \<or> (\<exists>g. chrome_tabGroups s' = chrome_tabGroups s @ [g]))"
proof (induction m)
  case Nil
  then show ?case by (simp add: succeed_apply)
next
  case (Cons e m)
  then show ?case using groupDomain_one_group [of "fst e" "snd e" s] by simp
qed

lemma checkDomains_target:
  assumes "d \<noteq> []" "distinct (map fst m)"
  shows "checkDomains (Some d) th m =
     (case Map_get m d of
        None \<Rightarrow> succeed ()
      | Some e \<Rightarrow> if int (length (de_tabIds e)) \<ge> th then groupDomain d e else succeed ())"
  using assms(2)
proof (induction m)
  case Nil
  then show ?case by (simp add: Map_get_def)
next
  case (Cons e m)
  show ?case
  proof (cases "fst e = d")
    case True
    with Cons.prems have "Map_get m d = None"
      by (auto simp: Map_get_def map_of_eq_None_iff)
    with True assms(1) Cons show ?thesis
      by (cases e) (simp add: Map_get_def truthy_def)
  next
    case False
    with assms(1) Cons show ?thesis by (cases e) (simp add: Map_get_def truthy_def)
  qed
qed

lemma targetDomainOf_eq:
  "targetDomainOf pf tabUrl = (if truthy tabUrl then originOf pf (the tabUrl) else None)"
  by (simp add: targetDomainOf_def originOf_def)

lemma checkAutoGroupByDomain_apply:
  "checkAutoGroupByDomain pf tabUrl s =
     (if \<not> autoGroupByDomain_setting (readSettings s) then (Inr (), s)
      else checkDomains (targetDomainOf pf tabUrl) (thresholdOf (readSettings s))
             (foldl (bucketChecked pf) [] (filter (\<lambda>t. ct_groupId t = TAB_GROUP_ID_NONE) (chrome_tabs s))) s)"
  by (simp add: checkAutoGroupByDomain_def storage_getSettings_def tabs_query_ungrouped_def
      Let_def succeed_apply)

lemma bucketIds_hasTab: "list_all (\<lambda>i. hasTab i s) (bucketIds pf d (chrome_tabs s))"
  by (auto simp: list_all_iff bucketIds_def hasTab_def)

lemma checkAutoGroupByDomain_target:
  assumes t: "targetDomainOf pf tabUrl = Some d" and ne: "d \<noteq> []"
  shows "checkAutoGroupByDomain pf tabUrl s =
     (let ids = bucketIds pf d (chrome_tabs s); groupId = freshGroupId s in
      if autoGroupByDomain_setting (readSettings s) \<and> ids \<noteq> []
         \<and> thresholdOf (readSettings s) \<le> int (length ids)
      then (Inr (),
            s\<lparr>chrome_tabs := map (\<lambda>t. if ct_id t \<in> set ids then t\<lparr>ct_groupId := groupId\<rparr> else t)
                               (chrome_tabs s),
              chrome_tabGroups := chrome_tabGroups s @
                 [\<lparr>cg_id = groupId, cg_title = Some d,
                   cg_color = getColorFromDomainHash d, cg_collapsed = False\<rparr>]\<rparr>)
      else (Inr (), s))"
proof (cases "autoGroupByDomain_setting (readSettings s)")
  case False
  then show ?thesis by (simp add: checkAutoGroupByDomain_apply Let_def)
next
  case True
  let ?ts = "filter (\<lambda>t. ct_groupId t = TAB_GROUP_ID_NONE) (chrome_tabs s)"
  let ?M = "foldl (bucketChecked pf) [] ?ts"
  let ?ids = "bucketIds pf d (chrome_tabs s)"
  from domainMap_fold [of "[]" pf ?ts] have
    dM: "distinct (map fst ?M)" and
    eM: "entryIds (Map_get ?M d) = map ct_id (filter (\<lambda>t. checkedOrigin pf t = Some d) ?ts)" and
    nM: "Map_get ?M d = None \<longleftrightarrow> filter (\<lambda>t. checkedOrigin pf t = Some d) ?ts = []"
    by (simp_all add: Map_get_def entryIds_def)
  have ids: "map ct_id (filter (\<lambda>t. checkedOrigin pf t = Some d) ?ts) = ?ids"
    by (simp add: bucketIds_def)
  have run: "checkAutoGroupByDomain pf tabUrl s =
      (case Map_get ?M d of
         None \<Rightarrow> succeed ()
       | Some e \<Rightarrow> if int (length (de_tabIds e)) \<ge> thresholdOf (readSettings s)
                   then groupDomain d e else succeed ()) s"
    using True by (simp add: checkAutoGroupByDomain_apply t checkDomains_target [OF ne dM])
  show ?thesis
  proof (cases "Map_get ?M d")
    case None
    with nM ids have "?ids = []" by simp
    with None run show ?thesis by (simp add: succeed_apply Let_def)
  next
    case (Some e)
    with eM ids have e: "de_tabIds e = ?ids" by (simp add: entryIds_def)
    from Some nM ids have n: "?ids \<noteq> []" by auto
    show ?thesis
    proof (cases "thresholdOf (readSettings s) \<le> int (length ?ids)")
      case le: True
      with run Some e have "checkAutoGroupByDomain pf tabUrl s = groupDomain d e s" by simp
      with groupDomain_apply [OF n bucketIds_hasTab e, of d] True n le show ?thesis
        by (simp add: Let_def)
    next
      case gt: False
      with run Some e show ?thesis by (simp add: succeed_apply Let_def)
    qed
  qed
qed

lemma checkAutoGroupByDomain_one_group:
  "\<exists>r s'. checkAutoGroupByDomain pf tabUrl s = (r, s')
     \<and> (chrome_tabGroups s' = chrome_tabGroups s \<or> (\<exists>g. chrome_tabGroups s' = chrome_tabGroups s @ [g]))"
  using checkDomains_one_group [of "targetDomainOf pf tabUrl" "thresholdOf (readSettings s)" _ s]
  by (simp add: checkAutoGroupByDomain_apply)

text \<open>
  C5 (amended). Every invocation of \<open>checkAutoGroupByDomain\<close> leaves the provider's groups as
  they were or adds exactly one group at the end. When a triggering URL is given from which
  a non-empty origin \<open>d\<close> is derived (it parses, and its hostname less a leading "www." is
  not empty), only the bucket of \<open>d\<close> is acted on: if auto-grouping is on and that bucket
  (the ungrouped tabs with a URL, a non-zero id and no chrome:// or chrome-extension:// URL
  whose origin is \<open>d\<close>) is not empty and has reached the threshold
  (\<^verbatim>\<open>autoGroupThreshold || 3\<close>), one new group titled \<open>d\<close> is created, with an id no tab and no
  group had, holding the tabs of the bucket; otherwise nothing changes.
\<close>

theorem C5_check_auto_group_amended:
  "(\<exists>r s'. checkAutoGroupByDomain pf tabUrl s = (r, s')
      \<and> (chrome_tabGroups s' = chrome_tabGroups s \<or> (\<exists>g. chrome_tabGroups s' = chrome_tabGroups s @ [g])))
   \<and> (\<forall>d. targetDomainOf pf tabUrl = Some d \<and> d \<noteq> [] \<longrightarrow>
         checkAutoGroupByDomain pf tabUrl s =
           (let ids = bucketIds pf d (chrome_tabs s); groupId = freshGroupId s in
            if autoGroupByDomain_setting (readSettings s) \<and> ids \<noteq> []
               \<and> thresholdOf (readSettings s) \<le> int (length ids)
            then (Inr (),
                  s\<lparr>chrome_tabs := map (\<lambda>t. if ct_id t \<in> set ids then t\<lparr>ct_groupId := groupId\<rparr> else t)
                                     (chrome_tabs s),
                    chrome_tabGroups := chrome_tabGroups s @
                       [\<lparr>cg_id = groupId, cg_title = Some d,
                         cg_color = getColorFromDomainHash d, cg_collapsed = False\<rparr>]\<rparr>)
            else (Inr (), s)))
   \<and> freshGroupId s \<notin> set (map ct_groupId (chrome_tabs s))
   \<and> freshGroupId s \<notin> set (map cg_id (chrome_tabGroups s))"
  using checkAutoGroupByDomain_one_group [of pf tabUrl s] checkAutoGroupByDomain_target [of pf tabUrl _ s]
    freshGroupId_new [of s]
  by blast


lemma shopState_sel:
  "chrome_tabs shopState = shopTabs" "chrome_tabGroups shopState = []"
  "readSettings shopState = groupingSettings 3"
  by (simp_all add: shopState_def initialState_def readSettings_def emptyStorage_def)

lemma shop_facts:
  "targetDomainOf chromePlatform (Some ''https://shop.example.com/c'') = Some ''shop.example.com''"
  "bucketIds chromePlatform ''shop.example.com'' shopTabs = [3, 5, 7]"
  "bucketIds chromePlatform ''news.example.org'' shopTabs = [2, 4, 6]"
  "freshGroupId shopState = 1"
  "thresholdOf (groupingSettings 3) = 3"
  "autoGroupByDomain_setting (groupingSettings 3)"
  by code_simp+

theorem C5_check_auto_group_amended_witness:
  "targetDomainOf chromePlatform (Some ''https://shop.example.com/c'') = Some ''shop.example.com''
   \<and> bucketIds chromePlatform ''shop.example.com'' (chrome_tabs shopState) = [3, 5, 7]
   \<and> bucketIds chromePlatform ''news.example.org'' (chrome_tabs shopState) = [2, 4, 6]
   \<and> thresholdOf (readSettings shopState) = 3
   \<and> chrome_tabGroups shopState = []
   \<and> fst (checkAutoGroupByDomain chromePlatform (Some ''https://shop.example.com/c'') shopState) = Inr ()
   \<and> chrome_tabGroups (snd (checkAutoGroupByDomain chromePlatform (Some ''https://shop.example.com/c'') shopState))
        = [\<lparr>cg_id = 1, cg_title = Some ''shop.example.com'',
            cg_color = getColorFromDomainHash ''shop.example.com'', cg_collapsed = False\<rparr>]
   \<and> map ct_groupId (chrome_tabs (snd (checkAutoGroupByDomain chromePlatform (Some ''https://shop.example.com/c'') shopState)))
        = [- 1, - 1, 1, - 1, 1, - 1, 1, - 1]"
proof -
  note t = C5_check_auto_group_amended [of chromePlatform "Some ''https://shop.example.com/c''" shopState]
  from t shop_facts(1) have
    "checkAutoGroupByDomain chromePlatform (Some ''https://shop.example.com/c'') shopState =
           (let ids = bucketIds chromePlatform ''shop.example.com'' (chrome_tabs shopState);
                groupId = freshGroupId shopState in
            if autoGroupByDomain_setting (readSettings shopState) \<and> ids \<noteq> []
               \<and> thresholdOf (readSettings shopState) \<le> int (length ids)
            then (Inr (),
                  shopState\<lparr>chrome_tabs := map (\<lambda>t. if ct_id t \<in> set ids then t\<lparr>ct_groupId := groupId\<rparr> else t)
                                     (chrome_tabs shopState),
                    chrome_tabGroups := chrome_tabGroups shopState @
                       [\<lparr>cg_id = groupId, cg_title = Some ''shop.example.com'',
                         cg_color = getColorFromDomainHash ''shop.example.com'', cg_collapsed = False\<rparr>]\<rparr>)
            else (Inr (), shopState))"
    by simp
  then have run: "checkAutoGroupByDomain chromePlatform (Some ''https://shop.example.com/c'') shopState =
      (Inr (),
       shopState\<lparr>chrome_tabs := map (\<lambda>t. if ct_id t \<in> set [3, 5, 7] then t\<lparr>ct_groupId := 1\<rparr> else t) shopTabs,
                 chrome_tabGroups :=
                    [\<lparr>cg_id = 1, cg_title = Some ''shop.example.com'',
                      cg_color = getColorFromDomainHash ''shop.example.com'', cg_collapsed = False\<rparr>]\<rparr>)"
    by (simp add: shopState_sel shop_facts Let_def)
  have ids: "map ct_groupId (map (\<lambda>t. if ct_id t \<in> set [3, 5, 7] then t\<lparr>ct_groupId := 1\<rparr> else t) shopTabs)
      = [- 1, - 1, 1, - 1, 1, - 1, 1, - 1]"
    by (simp add: shopTabs_def mkTab_def)
  show ?thesis
    unfolding run using ids by (simp add: shopState_sel shop_facts)
qed

text \<open>
  C5 as stated fails: the triggering URL \<^verbatim>\<open>about:blank\<close> is given and has the origin \<^verbatim>\<open>""\<close>
  (an empty string is falsy, so the loop is not restricted), and the bucket acted on is
  that of \<^verbatim>\<open>news.example.org\<close>, the first to have reached the threshold.
\<close>

theorem C5_trigger_without_origin_counterexample:
  "targetDomainOf chromePlatform (Some ''about:blank'') = Some []
   \<and> map ct_url (chrome_tabs shopState) ! 0 = Some ''about:blank''
   \<and> fst (checkAutoGroupByDomain chromePlatform (Some ''about:blank'') shopState) = Inr ()
   \<and> map cg_title (chrome_tabGroups (snd (checkAutoGroupByDomain chromePlatform (Some ''about:blank'') shopState)))
        = [Some ''news.example.org'']
   \<and> map ct_groupId (chrome_tabs (snd (checkAutoGroupByDomain chromePlatform (Some ''about:blank'') shopState)))
        = [- 1, 1, - 1, 1, - 1, 1, - 1, - 1]"
  by code_simp

text \<open>
  The checking path never buckets a tab on a chrome:// or chrome-extension:// page: such a
  tab leaves the map of buckets as it is, and no bucket holds its id unless another tab
  has the same id.
\<close>

lemma bucketChecked_skips_system_tabs:
  "ct_url t = Some u \<Longrightarrow> isSystemUrl u \<Longrightarrow> bucketChecked pf m t = m"
  by (simp add: bucketChecked_cases checkedOrigin_def)

lemma bucketIds_not_system:
  assumes "i \<in> set (bucketIds pf d tabs)"
  shows "\<exists>t\<in>set tabs. ct_id t = i \<and> ct_groupId t = TAB_GROUP_ID_NONE \<and> truthy (ct_url t)
           \<and> \<not> isSystemUrl (the (ct_url t))"
  using assms by (auto simp: bucketIds_def checkedOrigin_def split: if_splits)

text \<open>
  C6. \<open>autoGroupByDomain\<close> has no test for system URLs: two ungrouped \<^verbatim>\<open>chrome://settings\<close>
  tabs are put into a bucket and into a new group titled "settings". On the same tabs
  \<open>checkAutoGroupByDomain\<close>, which skips chrome:// and chrome-extension:// URLs, groups
  nothing, with a threshold of 2.
\<close>

theorem C6_auto_group_all_groups_system_tabs:
  "map ct_url (chrome_tabs systemTabsState)
     = [Some ''chrome://settings/'', Some ''chrome://settings/appearance'', Some ''https://b.com'']
   \<and> fst (autoGroupByDomain chromePlatform systemTabsState) = Inr 1
   \<and> map cg_title (chrome_tabGroups (snd (autoGroupByDomain chromePlatform systemTabsState)))
        = [Some ''settings'']
   \<and> map ct_groupId (chrome_tabs (snd (autoGroupByDomain chromePlatform systemTabsState))) = [1, 1, - 1]
   \<and> map ct_groupId (chrome_tabs (snd (checkAutoGroupByDomain chromePlatform None
           (systemTabsState \<lparr> chrome_storage := emptyStorage \<lparr> sd_settings := Some (groupingSettings 2) \<rparr> \<rparr>))))
        = [- 1, - 1, - 1]"
  by code_simp

subsection \<open>Session save\<close>

lemma getTabGroups_reads:
  "readSessions (s\<lparr>cachedGroups := g\<rparr>) = readSessions s"
  "readSettings (s\<lparr>cachedGroups := g\<rparr>) = readSettings s"
  by (simp_all add: readSessions_def readSettings_def split: option.split)

lemma storage_saveSession_negative:
  assumes "maxSessions (readSettings s) < 0"
  shows "\<exists>s'. storage_saveSession session s = (Inl (RangeError ''Invalid array length''), s')
           \<and> sd_sessions (chrome_storage s') = sd_sessions (chrome_storage s)"
  using assms
  by (simp add: storage_saveSession_def storage_getSessions_def storage_getSettings_def
      mutateSessions_def storage_setSessions_def action_apply)

lemma saveSession_unfold:
  "saveSession now newId name s =
     andThen (storage_saveSession (newSession now newId name s))
       (\<lambda>_. succeed (newSession now newId name s))
       (s\<lparr>cachedGroups := buildGroups now (chrome_tabs s) (chrome_tabGroups s)\<rparr>)"
  by (simp add: saveSession_def andThen_Inr [OF getTabGroups_eq] Let_def newSession_def)

lemma saveSession_negative_maxSessions:
  assumes m: "maxSessions (readSettings s) < 0"
  shows "\<exists>s'. saveSession now newId name s = (Inl (RangeError ''Invalid array length''), s')
        \<and> sd_sessions (chrome_storage s') = sd_sessions (chrome_storage s)"
proof -
  let ?s0 = "s\<lparr>cachedGroups := buildGroups now (chrome_tabs s) (chrome_tabGroups s)\<rparr>"
  let ?x = "newSession now newId name s"
  from m have m0: "maxSessions (readSettings ?s0) < 0" by (simp add: getTabGroups_reads)
  from storage_saveSession_negative [OF m0, of ?x] obtain s' where
    s': "storage_saveSession ?x ?s0 = (Inl (RangeError ''Invalid array length''), s')"
        "sd_sessions (chrome_storage s') = sd_sessions (chrome_storage s)"
    by auto
  have "saveSession now newId name s = (Inl (RangeError ''Invalid array length''), s')"
    unfolding saveSession_unfold
    by (rule andThen_Inl [of "storage_saveSession ?x", OF s'(1)])
  with s'(2) show ?thesis by blast
qed





subsection \<open>Suspension engine\<close>

lemma tabs_get_apply:
  "tabs_get tabId s =
     (case find (\<lambda>t. ct_id t = tabId) (chrome_tabs s) of
        None \<Rightarrow> (Inl (ProviderError ''No tab with id''), s)
      | Some t \<Rightarrow> (Inr t, s))"
  by (simp add: tabs_get_def)

lemma tabs_get_Inr:
  "fst (tabs_get tabId s) = Inr t \<longleftrightarrow> find (\<lambda>t. ct_id t = tabId) (chrome_tabs s) = Some t"
  by (simp add: tabs_get_def split: option.split)

lemma find_hasTab: "find (\<lambda>t. ct_id t = tabId) (chrome_tabs s) = Some t \<Longrightarrow> hasTab tabId s"
  by (auto simp: hasTab_def find_Some_iff)

lemma find_navigate:
  "find (\<lambda>t. ct_id t = tabId) tabs = Some t \<Longrightarrow>
   find (\<lambda>t. ct_id t = tabId) (navigate tabId u tabs) = Some (t\<lparr>ct_url := Some u\<rparr>)"
  by (induction tabs) (auto simp: navigate_def)

lemma navigate_ids [simp]: "map ct_id (navigate tabId u tabs) = map ct_id tabs"
  by (induction tabs) (auto simp: navigate_def)

lemma hasTab_navigate:
  "hasTab i (s\<lparr>chrome_tabs := navigate tabId u (chrome_tabs s)\<rparr>) = hasTab i s"
proof -
  have "chrome_tabs (s\<lparr>chrome_tabs := navigate tabId u (chrome_tabs s)\<rparr>) = navigate tabId u (chrome_tabs s)"
    by simp
  then show ?thesis unfolding hasTab_def by (simp only: navigate_ids)
qed

lemma tabs_update_url_apply:
  "hasTab tabId s \<Longrightarrow>
   tabs_update_url tabId u s = (Inr (), s\<lparr>chrome_tabs := navigate tabId u (chrome_tabs s)\<rparr>)"
  by (simp add: tabs_update_url_def navigate_def)

lemma suspendTab_apply:
  assumes f: "find (\<lambda>t. ct_id t = tabId) (chrome_tabs s) = Some t"
  shows "suspendTab pf tabId s =
     (if suspendSkips pf (readSettings s) t then (Inr (), s)
      else (Inr (), s\<lparr>suspendedTabs := (suspendedTabs s)(tabId \<mapsto> suspendedInfoOf t),
                      chrome_tabs := navigate tabId (suspendedUrl pf t (the (ct_url t))) (chrome_tabs s)\<rparr>))"
proof -
  have g: "tabs_get tabId s = (Inr t, s)" using f by (simp add: tabs_get_def)
  have h: "hasTab tabId (s\<lparr>suspendedTabs := x\<rparr>)" for x
    using find_hasTab [OF f] by (simp add: hasTab_def)
  show ?thesis
    unfolding suspendTab_def
    by (simp add: andThen_Inr [of "tabs_get tabId", OF g] storage_getSettings_def succeed_apply
        suspendSkips_def suspendedInfoOf_def tabs_update_url_apply [OF h])
qed

lemma find_by_id:
  "distinct (map ct_id tabs) \<Longrightarrow> x \<in> set tabs \<Longrightarrow> find (\<lambda>t. ct_id t = ct_id x) tabs = Some x"
  by (induction tabs) (auto simp: rev_image_eqI)

lemma pinnedKept_refl: "pinnedKept s s"
  by (simp add: pinnedKept_def)

lemma pinnedKept_trans: "pinnedKept s s1 \<Longrightarrow> pinnedKept s1 s2 \<Longrightarrow> pinnedKept s s2"
  unfolding pinnedKept_def
  by (metis length_map)

lemma pinnedKept_suspend:
  assumes d: "distinct (map ct_id (chrome_tabs s))" and x: "x \<in> set (chrome_tabs s)"
    and np: "\<not> ct_pinned x"
  shows "pinnedKept s (s\<lparr>suspendedTabs := (suspendedTabs s)(ct_id x \<mapsto> info),
                         chrome_tabs := navigate (ct_id x) u (chrome_tabs s)\<rparr>)"
proof -
  have other: "ct_id (chrome_tabs s ! i) \<noteq> ct_id x"
    if "i < length (chrome_tabs s)" "ct_pinned (chrome_tabs s ! i)" for i
  proof
    assume e: "ct_id (chrome_tabs s ! i) = ct_id x"
    from that(1) have "chrome_tabs s ! i \<in> set (chrome_tabs s)" by simp
    with d x e have "chrome_tabs s ! i = x" by (meson distinct_map inj_onD)
    with that(2) np show False by simp
  qed
  show ?thesis
    unfolding pinnedKept_def using other by (simp add: navigate_def)
qed

lemma checkIdleTab_kept:
  assumes d: "distinct (map ct_id (chrome_tabs s))" and x: "ct_id x \<in> set (map ct_id (chrome_tabs s))"
  shows "\<exists>s'. checkIdleTab pf now tm x s = (Inr (), s') \<and> pinnedKept s s'"
proof -
  from x obtain y where y: "y \<in> set (chrome_tabs s)" "ct_id y = ct_id x" by auto
  from find_by_id [OF d y(1)] y(2)
  have f: "find (\<lambda>t. ct_id t = ct_id x) (chrome_tabs s) = Some y" by simp
  have keep1: "pinnedKept s (s\<lparr>tabLastActiveTime := m\<rparr>)" for m
    by (simp add: pinnedKept_def)
  have keep2: "\<not> suspendSkips pf (readSettings s) y \<Longrightarrow>
     pinnedKept s (s\<lparr>suspendedTabs := (suspendedTabs s)(ct_id x \<mapsto> suspendedInfoOf y),
                      chrome_tabs := navigate (ct_id x) (suspendedUrl pf y (the (ct_url y))) (chrome_tabs s)\<rparr>)"
    using pinnedKept_suspend [OF d y(1), where info = "suspendedInfoOf y"
        and u = "suspendedUrl pf y (the (ct_url y))"] y(2)
    by (simp add: suspendSkips_def)
  show ?thesis
    unfolding checkIdleTab_def
    using keep1 keep2
    by (auto simp: suspendTab_apply [OF f] action_apply pinnedKept_refl)
qed

lemma checkIdle_loop:
  assumes "distinct (map ct_id (chrome_tabs s))" "set (map ct_id ts) \<subseteq> set (map ct_id (chrome_tabs s))"
  shows "\<exists>s'. forEach ts (checkIdleTab pf now tm) s = (Inr (), s') \<and> pinnedKept s s'"
  using assms
proof (induction ts arbitrary: s)
  case Nil
  then show ?case by (simp add: succeed_apply pinnedKept_refl)
next
  case (Cons x xs)
  from Cons.prems(2) have xin: "ct_id x \<in> set (map ct_id (chrome_tabs s))" by simp
  from checkIdleTab_kept [OF Cons.prems(1) xin, of pf now tm] obtain s1 where
    s1: "checkIdleTab pf now tm x s = (Inr (), s1)" "pinnedKept s s1" by blast
  from s1(2) have ids: "map ct_id (chrome_tabs s1) = map ct_id (chrome_tabs s)"
    by (simp add: pinnedKept_def)
  have d1: "distinct (map ct_id (chrome_tabs s1))" using Cons.prems(1) ids by simp
  have sub1: "set (map ct_id xs) \<subseteq> set (map ct_id (chrome_tabs s1))"
    using Cons.prems(2) ids by simp
  from Cons.IH [OF d1 sub1] obtain s2 where
    s2: "forEach xs (checkIdleTab pf now tm) s1 = (Inr (), s2)" "pinnedKept s1 s2" by blast
  have "forEach (x # xs) (checkIdleTab pf now tm) s = (Inr (), s2)"
    by (simp add: andThen_Inr [of "checkIdleTab pf now tm x", OF s1(1)] s2(1))
  with pinnedKept_trans [OF s1(2) s2(2)] show ?case by blast
qed

lemma checkIdleTabs_kept:
  assumes "distinct (map ct_id (chrome_tabs s))"
  shows "\<exists>s'. checkIdleTabs pf now s = (Inr (), s') \<and> pinnedKept s s'"
proof (cases "suspensionTimeout (readSettings s) \<le> 0")
  case True
  then show ?thesis
    by (simp add: checkIdleTabs_def storage_getSettings_def succeed_apply pinnedKept_refl)
next
  case False
  from checkIdle_loop [OF assms, of "chrome_tabs s" pf now "suspensionTimeout (readSettings s) * 60 * 1000"]
  show ?thesis using False
    by (simp add: checkIdleTabs_def storage_getSettings_def tabs_query_currentWindow_def Let_def)
qed

lemma unsuspendTab_apply:
  assumes "suspendedTabs s tabId = Some i" "hasTab tabId s"
  shows "unsuspendTab tabId s =
     (Inr (), s\<lparr>chrome_tabs := navigate tabId (si_originalUrl i) (chrome_tabs s),
                suspendedTabs := (suspendedTabs s)(tabId := None)\<rparr>)"
  using assms
  by (simp add: unsuspendTab_def andThen_Inr [of "tabs_update_url tabId (si_originalUrl i)", OF tabs_update_url_apply]
      action_apply)


lemma whitelisted_iff:
  "whitelisted pf settings u \<longleftrightarrow>
     (\<exists>p. newURL pf u = Some p
        \<and> (\<exists>d\<in>set (suspensionWhitelist settings). includesStr (stripWww (url_hostname p)) d))"
  by (auto simp: whitelisted_def list_ex_iff split: option.splits)

lemma suspend_roundtrip:
  assumes f: "find (\<lambda>t. ct_id t = tabId) (chrome_tabs s) = Some t"
    and e: "\<not> suspendSkips pf (readSettings s) t"
  shows "\<exists>s1 s2. suspendTab pf tabId s = (Inr (), s1)
        \<and> suspendedTabs s1 tabId = Some (suspendedInfoOf t)
        \<and> fst (tabs_get tabId s1) = Inr (t\<lparr>ct_url := Some (suspendedUrl pf t (the (ct_url t)))\<rparr>)
        \<and> unsuspendTab tabId s1 = (Inr (), s2)
        \<and> fst (tabs_get tabId s2) = Inr t
        \<and> suspendedTabs s2 tabId = None"
proof -
  let ?u' = "suspendedUrl pf t (the (ct_url t))"
  let ?s1 = "s\<lparr>suspendedTabs := (suspendedTabs s)(tabId \<mapsto> suspendedInfoOf t),
                      chrome_tabs := navigate tabId ?u' (chrome_tabs s)\<rparr>"
  let ?s2 = "?s1\<lparr>chrome_tabs := navigate tabId (si_originalUrl (suspendedInfoOf t)) (chrome_tabs ?s1),
                suspendedTabs := (suspendedTabs ?s1)(tabId := None)\<rparr>"
  from e have url: "ct_url t = Some (the (ct_url t))"
    by (auto simp: suspendSkips_def truthy_def split: option.splits)
  have a: "suspendTab pf tabId s = (Inr (), ?s1)" using e by (simp add: suspendTab_apply [OF f])
  have r1: "suspendedTabs ?s1 tabId = Some (suspendedInfoOf t)" by simp
  have f1: "find (\<lambda>t. ct_id t = tabId) (chrome_tabs ?s1) = Some (t\<lparr>ct_url := Some ?u'\<rparr>)"
    using find_navigate [OF f] by simp
  have h1: "hasTab tabId ?s1" by (rule find_hasTab [OF f1])
  have b: "unsuspendTab tabId ?s1 = (Inr (), ?s2)" by (rule unsuspendTab_apply [OF r1 h1])
  have "find (\<lambda>t. ct_id t = tabId) (chrome_tabs ?s2)
          = Some (t\<lparr>ct_url := Some ?u'\<rparr>\<lparr>ct_url := Some (si_originalUrl (suspendedInfoOf t))\<rparr>)"
    using find_navigate [OF f1] by simp
  also have "t\<lparr>ct_url := Some ?u'\<rparr>\<lparr>ct_url := Some (si_originalUrl (suspendedInfoOf t))\<rparr> = t"
    using url by (simp add: suspendedInfoOf_def)
  finally have f2: "find (\<lambda>t. ct_id t = tabId) (chrome_tabs ?s2) = Some t" .
  have r2: "suspendedTabs ?s2 tabId = None" by simp
  show ?thesis
    by (rule exI [of _ ?s1], rule exI [of _ ?s2])
       (intro conjI a r1 b r2 f1 [folded tabs_get_Inr] f2 [folded tabs_get_Inr])
qed

text \<open>
  C8. For a tab \<open>t\<close> that the provider returns for the id: if it is pinned, active, on the
  placeholder page, on a chrome:// or chrome-extension:// page, or if its URL parses and its
  domain contains a whitelist entry, \<open>suspendTab\<close> returns with the state unchanged (no
  record, no provider update). With tab ids distinct, \<open>checkIdleTabs\<close> returns and leaves
  every pinned tab and its (absent or present) suspension record as they were, whatever
  the clock and the recorded activity times. For a tab that none of the tests of
  \<open>suspendTab\<close> stops, \<open>suspendTab\<close> records the original URL, title and favicon and puts the
  tab on the placeholder URL, and \<open>unsuspendTab\<close> right after gives back the very tab, with
  its original URL, and removes the record.
\<close>

theorem C8_suspension:
  "(fst (tabs_get tabId s) = Inr t
      \<and> (ct_pinned t \<or> ct_active t
          \<or> (\<exists>u. ct_url t = Some u
                \<and> (includesStr u ''suspended/suspended.html''
                   \<or> startsWith u ''chrome://'' \<or> startsWith u ''chrome-extension://''
                   \<or> (\<exists>p. newURL pf u = Some p
                         \<and> (\<exists>d\<in>set (suspensionWhitelist (readSettings s)).
                                includesStr (stripWww (url_hostname p)) d)))))
      \<longrightarrow> suspendTab pf tabId s = (Inr (), s))
   \<and> (distinct (map ct_id (chrome_tabs s)) \<longrightarrow>
        (\<exists>s'. checkIdleTabs pf now s = (Inr (), s')
           \<and> (\<forall>x\<in>set (chrome_tabs s). ct_pinned x \<longrightarrow>
                  x \<in> set (chrome_tabs s')
                \<and> suspendedTabs s' (ct_id x) = suspendedTabs s (ct_id x))))
   \<and> (fst (tabs_get tabId s) = Inr t
      \<and> \<not> ct_pinned t \<and> \<not> ct_active t \<and> truthy (ct_url t)
      \<and> \<not> startsWith (the (ct_url t)) ''chrome://''
      \<and> \<not> startsWith (the (ct_url t)) ''chrome-extension://''
      \<and> \<not> includesStr (the (ct_url t)) ''suspended/suspended.html''
      \<and> \<not> whitelisted pf (readSettings s) (the (ct_url t))
      \<longrightarrow>
        (\<exists>s1 s2. suspendTab pf tabId s = (Inr (), s1)
           \<and> suspendedTabs s1 tabId
               = Some \<lparr> si_originalUrl = the (ct_url t), si_title = strOr (ct_title t) ''Untitled'',
                        si_favicon = strOr (ct_favIconUrl t) [] \<rparr>
           \<and> fst (tabs_get tabId s1) = Inr (t\<lparr>ct_url := Some (suspendedUrl pf t (the (ct_url t)))\<rparr>)
           \<and> unsuspendTab tabId s1 = (Inr (), s2)
           \<and> fst (tabs_get tabId s2) = Inr t
           \<and> suspendedTabs s2 tabId = None))"
proof (intro conjI impI)
  assume a: "fst (tabs_get tabId s) = Inr t
      \<and> (ct_pinned t \<or> ct_active t
          \<or> (\<exists>u. ct_url t = Some u
                \<and> (includesStr u ''suspended/suspended.html''
                   \<or> startsWith u ''chrome://'' \<or> startsWith u ''chrome-extension://''
                   \<or> (\<exists>p. newURL pf u = Some p
                         \<and> (\<exists>d\<in>set (suspensionWhitelist (readSettings s)).
                                includesStr (stripWww (url_hostname p)) d)))))"
  then have f: "find (\<lambda>t. ct_id t = tabId) (chrome_tabs s) = Some t" by (simp add: tabs_get_Inr)
  from a have "suspendSkips pf (readSettings s) t"
    unfolding suspendSkips_def whitelisted_iff by auto
  then show "suspendTab pf tabId s = (Inr (), s)" by (simp add: suspendTab_apply [OF f])
next
  assume d: "distinct (map ct_id (chrome_tabs s))"
  from checkIdleTabs_kept [OF d, of pf now] obtain s' where
    s': "checkIdleTabs pf now s = (Inr (), s')" "pinnedKept s s'" by blast
  have "x \<in> set (chrome_tabs s') \<and> suspendedTabs s' (ct_id x) = suspendedTabs s (ct_id x)"
    if x: "x \<in> set (chrome_tabs s)" "ct_pinned x" for x
  proof -
    from x(1) obtain i where i: "i < length (chrome_tabs s)" "chrome_tabs s ! i = x"
      by (auto simp: in_set_conv_nth)
    from s'(2) have len: "length (chrome_tabs s') = length (chrome_tabs s)"
      unfolding pinnedKept_def by (metis length_map)
    from s'(2) i x(2) have "chrome_tabs s' ! i = x"
      "suspendedTabs s' (ct_id x) = suspendedTabs s (ct_id x)"
      unfolding pinnedKept_def by auto
    with i(1) len show ?thesis by (metis nth_mem)
  qed
  with s'(1) show "\<exists>s'. checkIdleTabs pf now s = (Inr (), s')
           \<and> (\<forall>x\<in>set (chrome_tabs s). ct_pinned x \<longrightarrow>
                  x \<in> set (chrome_tabs s')
                \<and> suspendedTabs s' (ct_id x) = suspendedTabs s (ct_id x))"
    by blast
next
  assume a: "fst (tabs_get tabId s) = Inr t
      \<and> \<not> ct_pinned t \<and> \<not> ct_active t \<and> truthy (ct_url t)
      \<and> \<not> startsWith (the (ct_url t)) ''chrome://''
      \<and> \<not> startsWith (the (ct_url t)) ''chrome-extension://''
      \<and> \<not> includesStr (the (ct_url t)) ''suspended/suspended.html''
      \<and> \<not> whitelisted pf (readSettings s) (the (ct_url t))"
  then have f: "find (\<lambda>t. ct_id t = tabId) (chrome_tabs s) = Some t" by (simp add: tabs_get_Inr)
  from a have e: "\<not> suspendSkips pf (readSettings s) t" by (simp add: suspendSkips_def)
  from suspend_roundtrip [OF f e]
  show "\<exists>s1 s2. suspendTab pf tabId s = (Inr (), s1)
           \<and> suspendedTabs s1 tabId
               = Some \<lparr> si_originalUrl = the (ct_url t), si_title = strOr (ct_title t) ''Untitled'',
                        si_favicon = strOr (ct_favIconUrl t) [] \<rparr>
           \<and> fst (tabs_get tabId s1) = Inr (t\<lparr>ct_url := Some (suspendedUrl pf t (the (ct_url t)))\<rparr>)
           \<and> unsuspendTab tabId s1 = (Inr (), s2)
           \<and> fst (tabs_get tabId s2) = Inr t
           \<and> suspendedTabs s2 tabId = None"
    by (simp add: suspendedInfoOf_def)
qed

lemma idleState_facts:
  "fst (tabs_get 2 idleState) = Inr (exampleTabs ! 1)"
  "ct_pinned (exampleTabs ! 1)"
  "distinct (map ct_id (chrome_tabs idleState))"
  "fst (tabs_get 1 idleState) = Inr (exampleTabs ! 0)"
  "\<not> ct_pinned (exampleTabs ! 0) \<and> \<not> ct_active (exampleTabs ! 0) \<and> truthy (ct_url (exampleTabs ! 0))
      \<and> \<not> startsWith (the (ct_url (exampleTabs ! 0))) ''chrome://''
      \<and> \<not> startsWith (the (ct_url (exampleTabs ! 0))) ''chrome-extension://''
      \<and> \<not> includesStr (the (ct_url (exampleTabs ! 0))) ''suspended/suspended.html''
      \<and> \<not> whitelisted chromePlatform (readSettings idleState) (the (ct_url (exampleTabs ! 0)))"
  "the (ct_url (exampleTabs ! 0)) = ''https://a.com/x?x=1''"
  "exampleTabs ! 1 \<in> set (chrome_tabs idleState)"
  "ct_id (exampleTabs ! 1) = 2"
  "suspendedTabs idleState 2 = None"
  by code_simp+

lemma idleState_sweep:
  "map ct_url (chrome_tabs (snd (checkIdleTabs chromePlatform 10000000 idleState)))
     = [Some ''chrome-extension://abcdefghijklmnopabcdefghijklmnop/suspended/suspended.html?url=https%3A%2F%2Fa.com%2Fx%3Fx%3D1&title=Page&favicon='',
        Some ''https://a.com/x?x=2'', Some ''https://b.com'',
        Some ''chrome-extension://abcdefghijklmnopabcdefghijklmnop/suspended/suspended.html?url=https%3A%2F%2Fc.org%2F&title=Page&favicon='']"
  by code_simp

theorem C8_suspension_witness:
  "fst (tabs_get 2 idleState) = Inr (exampleTabs ! 1)
   \<and> ct_pinned (exampleTabs ! 1)
   \<and> suspendTab chromePlatform 2 idleState = (Inr (), idleState)
   \<and> distinct (map ct_id (chrome_tabs idleState))
   \<and> (\<exists>s'. checkIdleTabs chromePlatform 10000000 idleState = (Inr (), s')
        \<and> exampleTabs ! 1 \<in> set (chrome_tabs s')
        \<and> suspendedTabs s' 2 = None
        \<and> map ct_url (chrome_tabs s') ! 3
            = Some ''chrome-extension://abcdefghijklmnopabcdefghijklmnop/suspended/suspended.html?url=https%3A%2F%2Fc.org%2F&title=Page&favicon='')
   \<and> fst (tabs_get 1 idleState) = Inr (exampleTabs ! 0)
   \<and> (\<exists>s1 s2. suspendTab chromePlatform 1 idleState = (Inr (), s1)
        \<and> map_option si_originalUrl (suspendedTabs s1 1) = Some ''https://a.com/x?x=1''
        \<and> unsuspendTab 1 s1 = (Inr (), s2)
        \<and> fst (tabs_get 1 s2) = Inr (exampleTabs ! 0)
        \<and> suspendedTabs s2 1 = None)"
proof -
  note pinned = C8_suspension [of 2 idleState "exampleTabs ! 1" chromePlatform 10000000]
  note eligible = C8_suspension [of 1 idleState "exampleTabs ! 0" chromePlatform 10000000]
  from pinned idleState_facts(1,2)
  have a: "suspendTab chromePlatform 2 idleState = (Inr (), idleState)" by blast
  from pinned idleState_facts(3) obtain s' where
    s': "checkIdleTabs chromePlatform 10000000 idleState = (Inr (), s')"
        "\<forall>x\<in>set (chrome_tabs idleState). ct_pinned x \<longrightarrow>
                  x \<in> set (chrome_tabs s')
                \<and> suspendedTabs s' (ct_id x) = suspendedTabs idleState (ct_id x)"
    by blast
  from s'(2) idleState_facts(7) idleState_facts(2) idleState_facts(8) idleState_facts(9)
  have b: "exampleTabs ! 1 \<in> set (chrome_tabs s')" "suspendedTabs s' 2 = None" by auto
  have c: "map ct_url (chrome_tabs s') ! 3
            = Some ''chrome-extension://abcdefghijklmnopabcdefghijklmnop/suspended/suspended.html?url=https%3A%2F%2Fc.org%2F&title=Page&favicon=''"
    using idleState_sweep s'(1) by simp
  from eligible idleState_facts(4,5) obtain s1 s2 where
    r: "suspendTab chromePlatform 1 idleState = (Inr (), s1)"
       "suspendedTabs s1 1
               = Some \<lparr> si_originalUrl = the (ct_url (exampleTabs ! 0)),
                        si_title = strOr (ct_title (exampleTabs ! 0)) ''Untitled'',
                        si_favicon = strOr (ct_favIconUrl (exampleTabs ! 0)) [] \<rparr>"
       "unsuspendTab 1 s1 = (Inr (), s2)"
       "fst (tabs_get 1 s2) = Inr (exampleTabs ! 0)"
       "suspendedTabs s2 1 = None"
    by blast
  from r(2) have o: "map_option si_originalUrl (suspendedTabs s1 1) = Some ''https://a.com/x?x=1''"
    by (simp add: idleState_facts(6))
  show ?thesis
    using idleState_facts(1,2,3,4) a s'(1) b c r(1,3,4,5) o by blast
qed

end
